(* ===== verification/Prelude.thy ===== *)
theory Prelude
  imports Main "HOL-Library.AList" "HOL-Library.Char_ord" "HOL-Library.List_Lexorder"
begin

text \<open>
  What every component shares: the exceptions of the program and the result type they
  travel in, Python dictionaries in insertion order, and the list facts the component
  theories use. Nothing here models a file of its own.
\<close>

section \<open>Collections of facts\<close>

named_theorems wf_intros \<open>introduction rules for the well-formedness invariants\<close>
named_theorems step_frame \<open>what one operation of a component leaves unchanged\<close>
named_theorems step_inv \<open>invariants kept by one operation of a component\<close>

section \<open>Results: an exception or a value\<close>

text \<open>
  A Python call that may raise is a value of a sum type: \<open>Inl\<close> the exception, \<open>Inr\<close> the
  result. \<open>rbind\<close> is sequencing, with the early exit an exception is.
\<close>

definition rbind :: "'e + 'a \<Rightarrow> ('a \<Rightarrow> 'e + 'b) \<Rightarrow> 'e + 'b" where
  "rbind m f = (case m of Inl e \<Rightarrow> Inl e | Inr x \<Rightarrow> f x)"

lemma rbind_simps [simp]:
  "rbind (Inl e) f = Inl e"
  "rbind (Inr x) f = f x"
  by (simp_all add: rbind_def)

lemma rbind_eq_Inr: "rbind m f = Inr y \<longleftrightarrow> (\<exists>x. m = Inr x \<and> f x = Inr y)"
  by (cases m) simp_all

lemma rbind_eq_Inl: "rbind m f = Inl e \<longleftrightarrow> m = Inl e \<or> (\<exists>x. m = Inr x \<and> f x = Inl e)"
  by (cases m) auto

lemma rbind_assoc: "rbind (rbind m f) g = rbind m (\<lambda>x. rbind (f x) g)"
  by (cases m) simp_all

definition returns :: "'e + 'a \<Rightarrow> bool" where
  "returns m \<longleftrightarrow> (\<exists>x. m = Inr x)"

lemma returns_simps [simp]: "returns (Inr x)" "\<not> returns (Inl e)"
  by (simp_all add: returns_def)

section \<open>Dictionaries\<close>

text \<open>
  A Python \<open>dict\<close> keeps insertion order, and assigning to a key that is present keeps
  the key's place: an association list with \<^const>\<open>AList.update\<close> for \<open>d[k] = v\<close> and
  \<^const>\<open>map_of\<close> for \<open>d.get(k)\<close>.
\<close>

type_synonym ('k, 'v) dict = "('k \<times> 'v) list"

definition dict_ok :: "('k, 'v) dict \<Rightarrow> bool" where
  "dict_ok d \<longleftrightarrow> distinct (map fst d)"

lemma dict_ok_Nil [simp, wf_intros]: "dict_ok []"
  by (simp add: dict_ok_def)

lemma dict_ok_update [simp, wf_intros]: "dict_ok d \<Longrightarrow> dict_ok (AList.update k v d)"
  by (simp add: dict_ok_def distinct_update)

lemma map_of_update [simp]: "map_of (AList.update k v d) = (map_of d)(k \<mapsto> v)"
  by (simp add: update_conv')

lemma keys_update: "fst ` set (AList.update k v d) = insert k (fst ` set d)"
  by (induction d) auto

lemma update_new: "k \<notin> fst ` set d \<Longrightarrow> AList.update k v d = d @ [(k, v)]"
  by (induction d) auto

lemma update_none: "map_of d k = None \<Longrightarrow> AList.update k v d = d @ [(k, v)]"
  by (simp add: update_new map_of_eq_None_iff)

lemma length_update_new: "map_of d k = None \<Longrightarrow> length (AList.update k v d) = Suc (length d)"
  by (simp add: update_new map_of_eq_None_iff)

lemma dict_ok_snd_inj: "dict_ok d \<Longrightarrow> (k, v) \<in> set d \<longleftrightarrow> map_of d k = Some v"
  by (simp add: dict_ok_def)

lemma set_update: "dict_ok d \<Longrightarrow> set (AList.update k v d) = insert (k, v) {x \<in> set d. fst x \<noteq> k}"
  by (induction d) (force simp: dict_ok_def)+

lemma dict_all_map_of: "dict_ok d \<Longrightarrow> (\<forall>(k, v) \<in> set d. P k v) \<longleftrightarrow> (\<forall>k v. map_of d k = Some v \<longrightarrow> P k v)"
  by (auto simp: dict_ok_def)

lemma length_update_old: "map_of d k = Some v \<Longrightarrow> length (AList.update k w d) = length d"
  by (induction d) (auto split: if_splits)

text \<open>A sum over the values of a dictionary, after an assignment to a present key.\<close>

lemma sum_list_update_old:
  fixes f :: "'v \<Rightarrow> nat"
  assumes "map_of d k = Some v"
  shows "sum_list (map (f \<circ> snd) (AList.update k w d)) + f v = sum_list (map (f \<circ> snd) d) + f w"
  using assms by (induction d) (auto split: if_splits)

section \<open>Lists\<close>

lemma takeWhile_append_stop:
  "list_all P xs \<Longrightarrow> (case ys of [] \<Rightarrow> True | y # _ \<Rightarrow> \<not> P y) \<Longrightarrow> takeWhile P (xs @ ys) = xs"
  by (induction xs) (auto split: list.splits)

lemma dropWhile_append_stop:
  "list_all P xs \<Longrightarrow> (case ys of [] \<Rightarrow> True | y # _ \<Rightarrow> \<not> P y) \<Longrightarrow> dropWhile P (xs @ ys) = ys"
  by (induction xs) (auto split: list.splits)

lemma dropWhile_head: "dropWhile P xs = y # ys \<Longrightarrow> \<not> P y"
  by (metis hd_dropWhile list.distinct(1) list.sel(1))

lemma list_all_takeWhile [simp]: "list_all P (takeWhile P xs)"
  by (auto simp: list_all_iff dest: set_takeWhileD)

lemma list_all_cong_imp: "list_all P xs \<Longrightarrow> (\<And>x. P x \<Longrightarrow> Q x) \<Longrightarrow> list_all Q xs"
  by (simp add: list_all_iff)

lemma sum_list_filter_split:
  fixes f :: "'a \<Rightarrow> nat"
  shows "sum_list (map f (filter P xs)) + sum_list (map f (filter (\<lambda>x. \<not> P x) xs)) = sum_list (map f xs)"
  by (induction xs) auto

lemma length_filter_split: "length (filter P xs) + length (filter (\<lambda>x. \<not> P x) xs) = length xs"
  by (induction xs) auto

lemma sorted_wrt_distinct_map: "sorted_wrt (\<lambda>x y. f x \<noteq> f y) xs \<longleftrightarrow> distinct (map f xs)"
  by (induction xs) auto

end
