(* ===== verification/Py_Text.thy ===== *)
theory Py_Text
  imports Prelude
begin

text \<open>
  The part of Python's \<open>str\<close> and \<open>int\<close> the program uses: whitespace, \<open>strip\<close>,
  \<open>upper\<close>/\<open>lower\<close>, decimal rendering and reading with the interpreter's limit of
  4300 digits, \<open>zfill\<close>, and the UTF-8 length.

  A Python string is a list of code points. The model's \<^typ>\<open>string\<close> holds the code
  points U+0000 to U+00FF, one \<^typ>\<open>char\<close> each: \<open>is_space\<close> and \<open>is_digit\<close> are
  Python's classes on that range, and a character above U+007F counts two bytes in UTF-8.
  \<open>upper\<close> agrees with Python but for the three code points whose upper case leaves the
  range (U+00B5, U+00DF, U+00FF); the program upper-cases ASCII tokens only.
\<close>

section \<open>Character classes\<close>

abbreviation code :: "char \<Rightarrow> nat" where
  "code c \<equiv> of_char c"

definition is_space :: "char \<Rightarrow> bool" where
  "is_space c \<longleftrightarrow>
     (9 \<le> code c \<and> code c \<le> 13) \<or> (28 \<le> code c \<and> code c \<le> 32) \<or> code c = 133 \<or> code c = 160"

definition is_digit :: "char \<Rightarrow> bool" where
  "is_digit c \<longleftrightarrow> 48 \<le> code c \<and> code c \<le> 57"

definition is_alpha :: "char \<Rightarrow> bool" where
  "is_alpha c \<longleftrightarrow> (65 \<le> code c \<and> code c \<le> 90) \<or> (97 \<le> code c \<and> code c \<le> 122)"

abbreviation newline :: char where
  "newline \<equiv> CHR 0x0A"

lemma code_less_256: "code c < 256"
  by simp

lemma code_char_of [simp]: "n < 256 \<Longrightarrow> code (char_of n) = n"
  by simp

lemma code_inject: "code c = code d \<longleftrightarrow> c = d"
  by (metis char_of_char)

section \<open>strip, case and slices\<close>

definition lstrip :: "string \<Rightarrow> string" where
  "lstrip s = dropWhile is_space s"

definition rstrip :: "string \<Rightarrow> string" where
  "rstrip s = rev (dropWhile is_space (rev s))"

definition strip :: "string \<Rightarrow> string" where
  "strip s = rstrip (lstrip s)"

definition lower_char :: "char \<Rightarrow> char" where
  "lower_char c =
     (if (65 \<le> code c \<and> code c \<le> 90) \<or> (192 \<le> code c \<and> code c \<le> 222 \<and> code c \<noteq> 215)
      then char_of (code c + 32) else c)"

definition upper_char :: "char \<Rightarrow> char" where
  "upper_char c =
     (if (97 \<le> code c \<and> code c \<le> 122) \<or> (224 \<le> code c \<and> code c \<le> 254 \<and> code c \<noteq> 247)
      then char_of (code c - 32) else c)"

definition lower :: "string \<Rightarrow> string" where
  "lower s = map lower_char s"

definition upper :: "string \<Rightarrow> string" where
  "upper s = map upper_char s"

lemma code_upper_char:
  "code (upper_char c) =
     (if (97 \<le> code c \<and> code c \<le> 122) \<or> (224 \<le> code c \<and> code c \<le> 254 \<and> code c \<noteq> 247)
      then code c - 32 else code c)"
  using code_less_256 [of c] by (auto simp: upper_char_def)

lemma code_lower_char:
  "code (lower_char c) =
     (if (65 \<le> code c \<and> code c \<le> 90) \<or> (192 \<le> code c \<and> code c \<le> 222 \<and> code c \<noteq> 215)
      then code c + 32 else code c)"
  using code_less_256 [of c] by (auto simp: lower_char_def)

lemma upper_char_idem [simp]: "upper_char (upper_char c) = upper_char c"
  by (rule code_inject [THEN iffD1]) (simp add: code_upper_char, linarith)

lemma lower_upper_char [simp]: "lower_char (upper_char c) = lower_char c"
  by (rule code_inject [THEN iffD1]) (simp add: code_upper_char code_lower_char, linarith)

lemma upper_idem [simp]: "upper (upper s) = upper s"
  by (simp add: upper_def)

lemma lower_upper [simp]: "lower (upper s) = lower s"
  by (simp add: upper_def lower_def)

lemma upper_eq_lower: "upper s = upper t \<Longrightarrow> lower s = lower t"
  by (metis lower_upper)

lemma length_upper [simp]: "length (upper s) = length s"
  and length_lower [simp]: "length (lower s) = length s"
  by (simp_all add: upper_def lower_def)

lemma upper_Nil_iff [simp]: "upper s = [] \<longleftrightarrow> s = []"
  by (simp add: upper_def)

text \<open>A string with no space at either end is its own \<open>strip\<close>.\<close>

lemma strip_id:
  "s \<noteq> [] \<Longrightarrow> \<not> is_space (hd s) \<Longrightarrow> \<not> is_space (last s) \<Longrightarrow> strip s = s"
  by (cases s; cases "rev s")
    (auto simp: strip_def lstrip_def rstrip_def hd_rev [symmetric], metis rev.simps(2) rev_rev_ident)

lemma strip_snoc_space:
  "s \<noteq> [] \<Longrightarrow> \<not> is_space (hd s) \<Longrightarrow> is_space c \<Longrightarrow> strip (s @ [c]) = strip s"
  by (cases s) (auto simp: strip_def lstrip_def rstrip_def)

lemma strip_last: "strip s \<noteq> [] \<Longrightarrow> \<not> is_space (last (strip s))"
  by (metis hd_dropWhile hd_rev rev_is_Nil_conv rev_rev_ident rstrip_def strip_def)

section \<open>UTF-8 length\<close>

definition utf8_char_len :: "char \<Rightarrow> nat" where
  "utf8_char_len c = (if code c < 128 then 1 else 2)"

definition utf8_len :: "string \<Rightarrow> nat" where
  "utf8_len s = sum_list (map utf8_char_len s)"

lemma utf8_len_append [simp]: "utf8_len (s @ t) = utf8_len s + utf8_len t"
  by (simp add: utf8_len_def)

lemma utf8_len_ascii: "list_all (\<lambda>c. code c < 128) s \<Longrightarrow> utf8_len s = length s"
  by (induction s) (auto simp: utf8_len_def utf8_char_len_def)

lemma length_le_utf8_len: "length s \<le> utf8_len s"
  by (induction s) (auto simp: utf8_len_def utf8_char_len_def)

section \<open>Decimal numbers\<close>

definition digit_char :: "nat \<Rightarrow> char" where
  "digit_char d = char_of (48 + d)"

fun dec :: "nat \<Rightarrow> string" where
  "dec n = (if n < 10 then [digit_char n] else dec (n div 10) @ [digit_char (n mod 10)])"

declare dec.simps [simp del]

definition dec_val :: "string \<Rightarrow> nat" where
  "dec_val s = foldl (\<lambda>a c. 10 * a + (code c - 48)) 0 s"

definition zfill :: "nat \<Rightarrow> string \<Rightarrow> string" where
  "zfill w s = replicate (w - length s) (CHR ''0'') @ s"

text \<open>The interpreter refuses to convert between \<open>int\<close> and \<open>str\<close> beyond this many digits.\<close>

definition max_str_digits :: nat where
  "max_str_digits = 4300"

lemma code_digit_char [simp]: "d < 10 \<Longrightarrow> code (digit_char d) = 48 + d"
  by (simp add: digit_char_def)

lemma is_digit_digit_char [simp]: "d < 10 \<Longrightarrow> is_digit (digit_char d)"
  by (simp add: is_digit_def)

lemma dec_nonempty [simp]: "dec n \<noteq> []"
  by (subst dec.simps) simp

lemma dec_digits [simp]: "list_all is_digit (dec n)"
proof (induction n rule: dec.induct)
  case (1 n)
  then show ?case by (subst dec.simps) simp
qed

lemma dec_val_snoc: "dec_val (s @ [c]) = 10 * dec_val s + (code c - 48)"
  by (simp add: dec_val_def)

lemma dec_val_dec [simp]: "dec_val (dec n) = n"
proof (induction n rule: dec.induct)
  case (1 n)
  show ?case
  proof (cases "n < 10")
    case True
    then show ?thesis by (subst dec.simps) (simp add: dec_val_def)
  next
    case False
    with 1 have "dec_val (dec (n div 10)) = n div 10" by simp
    with False show ?thesis by (subst dec.simps) (simp add: dec_val_snoc)
  qed
qed

lemma dec_inject [simp]: "dec m = dec n \<longleftrightarrow> m = n"
  by (metis dec_val_dec)

lemma dec_val_zeros: "dec_val (replicate k (CHR ''0'') @ s) = dec_val s"
  by (induction k) (simp_all add: dec_val_def)

lemma dec_val_zfill [simp]: "dec_val (zfill w s) = dec_val s"
  by (simp add: zfill_def dec_val_zeros)

lemma zfill_digits: "list_all is_digit s \<Longrightarrow> list_all is_digit (zfill w s)"
  by (auto simp: zfill_def list_all_iff is_digit_def)

lemma zfill_nonempty: "s \<noteq> [] \<Longrightarrow> zfill w s \<noteq> []"
  by (simp add: zfill_def)

lemma length_zfill [simp]: "length (zfill w s) = max w (length s)"
  by (simp add: zfill_def)

lemma zfill_dec_inject: "zfill w (dec m) = zfill w (dec n) \<longleftrightarrow> m = n"
  by (metis dec_val_dec dec_val_zfill)

text \<open>The digits of a number bound it, so a short rendering is a small number.\<close>

lemma dec_val_bound: "list_all is_digit s \<Longrightarrow> dec_val s < 10 ^ length s"
proof (induction s rule: rev_induct)
  case Nil
  then show ?case by (simp add: dec_val_def)
next
  case (snoc c s)
  then have "dec_val s < 10 ^ length s" and "code c \<le> 57"
    by (simp_all add: is_digit_def)
  then show ?case by (simp add: dec_val_snoc)
qed

lemma dec_length_bound: "n < 10 ^ k \<Longrightarrow> 0 < k \<Longrightarrow> length (dec n) \<le> k"
proof (induction n arbitrary: k rule: dec.induct)
  case (1 n)
  show ?case
  proof (cases "n < 10")
    case True
    with 1 show ?thesis by (subst dec.simps) simp
  next
    case False
    with "1.prems" obtain j where k: "k = Suc j" and j: "0 < j"
      by (metis One_nat_def Suc_lessI gr0_implies_Suc less_Suc_eq power_one_right)
    from "1.prems" k have "n div 10 < 10 ^ j" by (simp add: less_mult_imp_div_less mult.commute)
    with "1.IH" False j have "length (dec (n div 10)) \<le> j" by blast
    with False k show ?thesis by (subst dec.simps) simp
  qed
qed

end
