(* ===== verification/Frozen.thy ===== *)
theory Frozen
  imports Prelude Complex_Main
begin

text \<open>
  The constants of \<^verbatim>\<open>src/fam/common/frozen.py\<close> under their own names. Integer constants
  are \<^typ>\<open>int\<close> or \<^typ>\<open>nat\<close>, strings are strings, and the durations and the
  confidence level, Python floats there, are the rationals those literals denote.
\<close>

definition ROOM_VERSION :: string where
  "ROOM_VERSION = ''12''"

definition ROOM_ENCRYPTION_ENABLED :: bool where
  "ROOM_ENCRYPTION_ENABLED = False"

definition MESSAGE_EVENT_TYPE :: string where
  "MESSAGE_EVENT_TYPE = ''m.room.message''"

definition PROTOCOL_TOKEN :: string where
  "PROTOCOL_TOKEN = ''FAM/1''"

definition REQUEST_KEYWORD :: string where
  "REQUEST_KEYWORD = ''REQUEST''"

definition ACK_KEYWORD :: string where
  "ACK_KEYWORD = ''ACK''"

definition E3_BODY_BYTES :: int where
  "E3_BODY_BYTES = 256"

definition PADDING_CHARACTER :: string where
  "PADDING_CHARACTER = ''x''"

definition DEFAULT_INTERACTION_TIMEOUT_SECONDS :: rat where
  "DEFAULT_INTERACTION_TIMEOUT_SECONDS = 10"

definition E0_RUNS :: int where "E0_RUNS = 3"

definition E0_REQUESTS_PER_PHASE :: int where "E0_REQUESTS_PER_PHASE = 20"

definition E1_RUNS :: int where "E1_RUNS = 3"

definition E1_REQUESTS_PER_CLASS :: int where "E1_REQUESTS_PER_CLASS = 20"

definition E1_QUIET_INTERVAL_SECONDS :: rat where "E1_QUIET_INTERVAL_SECONDS = 2"

definition E2_RUNS :: int where "E2_RUNS = 3"

definition E2_OFFLINE_REQUESTS :: int where "E2_OFFLINE_REQUESTS = 100"

definition E2_SYNC_TIMELINE_LIMIT :: int where "E2_SYNC_TIMELINE_LIMIT = 10"

definition E3_SYNC_TIMELINE_LIMIT :: int where "E3_SYNC_TIMELINE_LIMIT = 500"

definition E3_SYNC_TIMEOUT_MS :: int where "E3_SYNC_TIMEOUT_MS = 30000"

definition RAW_SCHEMA_VERSION :: string where "RAW_SCHEMA_VERSION = ''2''"

definition MANIFEST_SCHEMA_VERSION :: string where "MANIFEST_SCHEMA_VERSION = ''1''"

definition EXECUTION_PROTOCOL_VERSION :: string where "EXECUTION_PROTOCOL_VERSION = ''1.2''"

definition EXECUTION_ANALYSIS_SPEC_VERSION :: string where
  "EXECUTION_ANALYSIS_SPEC_VERSION = ''1.2''"

definition E3_TOPOLOGY_LOCAL :: string where "E3_TOPOLOGY_LOCAL = ''local''"

definition E3_TOPOLOGY_FEDERATED :: string where "E3_TOPOLOGY_FEDERATED = ''federated''"

definition E3_LATENCY_MAX_IN_FLIGHT :: nat where "E3_LATENCY_MAX_IN_FLIGHT = 1"

definition E3_LATENCY_WARMUP_INTERACTIONS :: nat where "E3_LATENCY_WARMUP_INTERACTIONS = 50"

definition E3_LATENCY_MEASURED_INTERACTIONS :: nat where "E3_LATENCY_MEASURED_INTERACTIONS = 500"

definition E3_CONCURRENCY_LEVELS :: "nat list" where "E3_CONCURRENCY_LEVELS = [8, 32]"

definition E3_WARMUP_SECONDS :: rat where "E3_WARMUP_SECONDS = 10"

definition E3_MEASUREMENT_SECONDS :: rat where "E3_MEASUREMENT_SECONDS = 60"

definition E3_DRAIN_SECONDS :: rat where "E3_DRAIN_SECONDS = 10"

definition E3_PAIRED_BLOCKS :: nat where "E3_PAIRED_BLOCKS = 20"

definition E3_INTER_RUN_IDLE_SECONDS :: rat where "E3_INTER_RUN_IDLE_SECONDS = 5"

definition E3_AGENT_SETTLE_SECONDS :: rat where "E3_AGENT_SETTLE_SECONDS = 2"

definition E3_BOOTSTRAP_REPLICATES :: nat where "E3_BOOTSTRAP_REPLICATES = 2000"

definition E3_BOOTSTRAP_SEED :: int where "E3_BOOTSTRAP_SEED = 20260905"

definition E3_SCHEDULE_SEED :: int where "E3_SCHEDULE_SEED = 20260905"

definition E3_BOOTSTRAP_CONFIDENCE :: rat where "E3_BOOTSTRAP_CONFIDENCE = 95 / 100"

definition E3_WORKLOAD_LATENCY :: string where "E3_WORKLOAD_LATENCY = ''latency''"

definition E3_WORKLOAD_THROUGHPUT :: string where "E3_WORKLOAD_THROUGHPUT = ''throughput''"

definition E3_TOPOLOGIES :: "string list" where
  "E3_TOPOLOGIES = [E3_TOPOLOGY_LOCAL, E3_TOPOLOGY_FEDERATED]"

definition E3_PHASES :: "string list" where "E3_PHASES = [''warmup'', ''window'', ''drain'']"

lemmas topology_names = E3_TOPOLOGY_LOCAL_def E3_TOPOLOGY_FEDERATED_def

lemmas workload_names = E3_WORKLOAD_LATENCY_def E3_WORKLOAD_THROUGHPUT_def

lemma topology_names_differ [simp]: "E3_TOPOLOGY_LOCAL \<noteq> E3_TOPOLOGY_FEDERATED"
  by (simp add: topology_names)

lemma workload_names_differ [simp]: "E3_WORKLOAD_LATENCY \<noteq> E3_WORKLOAD_THROUGHPUT"
  by (simp add: workload_names)

lemma keywords_differ [simp]: "REQUEST_KEYWORD \<noteq> ACK_KEYWORD" "ACK_KEYWORD \<noteq> REQUEST_KEYWORD"
  by (simp_all add: REQUEST_KEYWORD_def ACK_KEYWORD_def)

end
