(* ===== verification/Message.thy ===== *)
theory Message
  imports Py_Text Frozen
begin

text \<open>
  \<^verbatim>\<open>src/fam/common/message.py\<close>: the FAM/1 body format, the correlation triple and its
  transaction identifiers, padding to an exact byte length, and the parser. Text is
  modelled as \<open>Py_Text\<close> says. A raised \<open>MessageFormatError\<close> and the \<open>ValueError\<close> of
  the interpreter's digit limit are the two exceptions here; the module's \<open>except\<close>
  clause catches the first and not the second.
\<close>

section \<open>Data\<close>

datatype msg_error = MessageFormatError | DigitLimitError

record correlation =
  experiment_name :: string
  run_id :: string
  sequence_id :: int

record parsed_message =
  kind :: string
  correlation :: correlation
  padded :: bool

definition SEQUENCE_DIGITS :: nat where
  "SEQUENCE_DIGITS = 5"

section \<open>Tokens and correlations\<close>

definition is_token_char :: "char \<Rightarrow> bool" where
  "is_token_char c \<longleftrightarrow> is_alpha c \<or> is_digit c \<or> c \<in> {CHR ''.'', CHR ''_'', CHR '':'', CHR ''-''}"

text \<open>
  \<open>re.match(r"^[A-Za-z0-9._:-]+$", value)\<close>: in Python \<open>$\<close> also matches before a newline
  that ends the string.
\<close>

definition token_re :: "string \<Rightarrow> bool" where
  "token_re s =
     (let t = (if s \<noteq> [] \<and> last s = newline then butlast s else s)
      in t \<noteq> [] \<and> list_all is_token_char t)"

definition check_token :: "string \<Rightarrow> msg_error + string" where
  "check_token value = (if token_re value then Inr value else Inl MessageFormatError)"

definition make_correlation :: "string \<Rightarrow> string \<Rightarrow> int \<Rightarrow> msg_error + correlation" where
  "make_correlation e r n =
     rbind (check_token e) (\<lambda>_.
     rbind (check_token r) (\<lambda>_.
     if n < 0 then Inl MessageFormatError
     else Inr \<lparr>experiment_name = e, run_id = r, sequence_id = n\<rparr>))"

text \<open>\<open>str(n)\<close> of a non-negative integer raises beyond the digit limit.\<close>

definition py_str_int :: "int \<Rightarrow> msg_error + string" where
  "py_str_int n =
     (let s = dec (nat n) in if max_str_digits < length s then Inl DigitLimitError else Inr s)"

definition sequence_token :: "correlation \<Rightarrow> msg_error + string" where
  "sequence_token c = rbind (py_str_int (sequence_id c)) (\<lambda>s. Inr (zfill SEQUENCE_DIGITS s))"

definition key :: "correlation \<Rightarrow> string \<times> string \<times> int" where
  "key c = (upper (experiment_name c), run_id c, sequence_id c)"

definition txn_id :: "correlation \<Rightarrow> string \<Rightarrow> msg_error + string" where
  "txn_id c direction =
     (if direction \<noteq> ''request'' \<and> direction \<noteq> ''response'' then Inl MessageFormatError
      else rbind (sequence_token c) (\<lambda>q.
        Inr (''fam-'' @ lower (experiment_name c) @ ''-'' @ lower (run_id c)
             @ ''-'' @ direction @ ''-'' @ q)))"

section \<open>Building a body\<close>

definition envelope :: "string \<Rightarrow> correlation \<Rightarrow> msg_error + string" where
  "envelope k c =
     rbind (sequence_token c) (\<lambda>q.
       Inr (PROTOCOL_TOKEN @ '' '' @ k @ '' '' @ upper (experiment_name c) @ '' '' @ run_id c
            @ '' '' @ q))"

definition pad :: "string \<Rightarrow> int option \<Rightarrow> msg_error + string" where
  "pad env body_bytes =
     (case body_bytes of
        None \<Rightarrow> Inr env
      | Some n \<Rightarrow>
          (let encoded = int (utf8_len env)
           in if encoded > n - 1 then Inl MessageFormatError
              else Inr (env @ '' '' @ concat (replicate (nat (n - encoded - 1)) PADDING_CHARACTER))))"

definition build_request :: "correlation \<Rightarrow> int option \<Rightarrow> msg_error + string" where
  "build_request c body_bytes = rbind (envelope REQUEST_KEYWORD c) (\<lambda>env. pad env body_bytes)"

definition build_ack :: "correlation \<Rightarrow> int option \<Rightarrow> msg_error + string" where
  "build_ack c body_bytes = rbind (envelope ACK_KEYWORD c) (\<lambda>env. pad env body_bytes)"

definition assert_body_length :: "string \<Rightarrow> int \<Rightarrow> msg_error + unit" where
  "assert_body_length body expected =
     (if int (utf8_len body) \<noteq> expected then Inl MessageFormatError else Inr ())"

section \<open>Parsing\<close>

definition is_request :: "parsed_message \<Rightarrow> bool" where
  "is_request m \<longleftrightarrow> kind m = REQUEST_KEYWORD"

definition is_ack :: "parsed_message \<Rightarrow> bool" where
  "is_ack m \<longleftrightarrow> kind m = ACK_KEYWORD"

fun strip_prefix :: "string \<Rightarrow> string \<Rightarrow> string option" where
  "strip_prefix [] s = Some s"
| "strip_prefix (p # ps) [] = None"
| "strip_prefix (p # ps) (c # cs) = (if p = c then strip_prefix ps cs else None)"

text \<open>One or more characters of a class: the longest run, and what follows it.\<close>

definition span1 :: "(char \<Rightarrow> bool) \<Rightarrow> string \<Rightarrow> (string \<times> string) option" where
  "span1 P s = (let t = takeWhile P s in if t = [] then None else Some (t, dropWhile P s))"

definition kind_re :: "string \<Rightarrow> (string \<times> string) option" where
  "kind_re s =
     (case strip_prefix ''REQUEST'' s of
        Some t \<Rightarrow> Some (''REQUEST'', t)
      | None \<Rightarrow> map_option (\<lambda>t. (''ACK'', t)) (strip_prefix ''ACK'' s))"

text \<open>The optional group \<open>(\s+x*)?\<close> and the end of the string; \<open>$\<close> as above.\<close>

definition padding_re :: "string \<Rightarrow> string option" where
  "padding_re s =
     (if s = [] then Some []
      else case span1 is_space s of
        None \<Rightarrow> None
      | Some (w, t) \<Rightarrow>
          (let x = takeWhile (\<lambda>c. c = CHR ''x'') t; u = dropWhile (\<lambda>c. c = CHR ''x'') t
           in if u = [] \<or> u = [newline] then Some (w @ x) else None))"

text \<open>
  \<open>_BODY_RE.match\<close>. Neighbouring classes of the pattern have no character in common, so
  the longest run of each is the only one with which the match can go on.
\<close>

definition body_re :: "string \<Rightarrow> (string \<times> string \<times> string \<times> string \<times> string) option" where
  "body_re s =
     Option.bind (strip_prefix ''FAM/1'' s) (\<lambda>s1.
     Option.bind (span1 is_space s1) (\<lambda>(_, s2).
     Option.bind (kind_re s2) (\<lambda>(k, s3).
     Option.bind (span1 is_space s3) (\<lambda>(_, s4).
     Option.bind (span1 is_token_char s4) (\<lambda>(e, s5).
     Option.bind (span1 is_space s5) (\<lambda>(_, s6).
     Option.bind (span1 is_token_char s6) (\<lambda>(r, s7).
     Option.bind (span1 is_space s7) (\<lambda>(_, s8).
     Option.bind (span1 is_digit s8) (\<lambda>(q, s9).
     map_option (\<lambda>p. (k, e, r, q, p)) (padding_re s9))))))))))"

text \<open>\<open>int(text)\<close> of a string of digits.\<close>

definition py_int_of :: "string \<Rightarrow> msg_error + int" where
  "py_int_of s = (if max_str_digits < length s then Inl DigitLimitError else Inr (int (dec_val s)))"

definition parse :: "string \<Rightarrow> msg_error + parsed_message option" where
  "parse body =
     (case body_re (strip body) of
        None \<Rightarrow> Inr None
      | Some (k, e, r, q, p) \<Rightarrow>
          (case rbind (py_int_of q) (\<lambda>n. make_correlation e r n) of
             Inl MessageFormatError \<Rightarrow> Inr None
           | Inl DigitLimitError \<Rightarrow> Inl DigitLimitError
           | Inr c \<Rightarrow> Inr (Some \<lparr>kind = k, correlation = c, padded = (p \<noteq> [])\<rparr>)))"


section \<open>Lemmas: character classes and pieces of a body\<close>

lemma token_char_not_space: "is_token_char c \<Longrightarrow> \<not> is_space c"
  by (auto simp: is_token_char_def is_space_def is_alpha_def is_digit_def)

lemma digit_not_space: "is_digit c \<Longrightarrow> \<not> is_space c"
  by (auto simp: is_space_def is_digit_def)

lemma digit_token_char: "is_digit c \<Longrightarrow> is_token_char c"
  by (simp add: is_token_char_def)

lemma token_char_upper: "is_token_char c \<Longrightarrow> is_token_char (upper_char c)"
proof (cases "is_alpha c")
  case True
  then have "is_alpha (upper_char c)" by (auto simp: is_alpha_def code_upper_char)
  then show ?thesis by (simp add: is_token_char_def)
next
  case False
  moreover assume "is_token_char c"
  ultimately have "upper_char c = c" by (auto simp: is_token_char_def is_alpha_def is_digit_def upper_char_def)
  with \<open>is_token_char c\<close> show ?thesis by simp
qed

definition wf_token :: "string \<Rightarrow> bool" where
  "wf_token s \<longleftrightarrow> s \<noteq> [] \<and> list_all is_token_char s"

lemma wf_token_upper [wf_intros]: "wf_token s \<Longrightarrow> wf_token (upper s)"
  by (auto simp: wf_token_def upper_def list_all_iff token_char_upper)

lemma wf_token_hd: "wf_token s \<Longrightarrow> \<not> is_space (hd s)"
  by (cases s) (simp_all add: wf_token_def token_char_not_space)

lemma newline_space [simp]: "is_space newline"
  by (simp add: is_space_def)

lemma blank_space [simp]: "is_space (CHR '' '')"
  by (simp add: is_space_def)

lemma newline_not_token [simp]: "\<not> is_token_char newline"
  by (simp add: is_token_char_def is_alpha_def is_digit_def)

lemma is_space_F [simp]: "\<not> is_space (CHR ''F'')"
  by (simp add: is_space_def)

lemma wf_token_re: "wf_token s \<Longrightarrow> token_re s"
proof -
  assume wf: "wf_token s"
  then have "is_token_char (last s)"
    by (simp add: wf_token_def list_all_iff)
  then have "last s \<noteq> newline"
    by (metis newline_not_token)
  with wf show ?thesis by (simp add: wf_token_def token_re_def)
qed

lemma token_re_iff: "token_re s \<longleftrightarrow> wf_token s \<or> (\<exists>t. wf_token t \<and> s = t @ [newline])"
proof
  assume "token_re s"
  then show "wf_token s \<or> (\<exists>t. wf_token t \<and> s = t @ [newline])"
    by (cases s rule: rev_cases) (auto simp: token_re_def wf_token_def Let_def split: if_splits)
next
  assume "wf_token s \<or> (\<exists>t. wf_token t \<and> s = t @ [newline])"
  then show "token_re s"
    by (auto simp: wf_token_re) (auto simp: token_re_def wf_token_def)
qed

lemma strip_prefix_iff: "strip_prefix p s = Some t \<longleftrightarrow> s = p @ t"
  by (induction p s rule: strip_prefix.induct) auto

lemma span1_iff:
  "span1 P s = Some (t, u) \<longleftrightarrow>
     s = t @ u \<and> t \<noteq> [] \<and> list_all P t \<and> (u = [] \<or> \<not> P (hd u))"
proof
  assume "span1 P s = Some (t, u)"
  then show "s = t @ u \<and> t \<noteq> [] \<and> list_all P t \<and> (u = [] \<or> \<not> P (hd u))"
    by (auto simp: span1_def Let_def hd_dropWhile split: if_splits)
next
  assume *: "s = t @ u \<and> t \<noteq> [] \<and> list_all P t \<and> (u = [] \<or> \<not> P (hd u))"
  then have "case u of [] \<Rightarrow> True | y # _ \<Rightarrow> \<not> P y"
    by (cases u) auto
  with * have "takeWhile P (t @ u) = t" and "dropWhile P (t @ u) = u"
    by (simp_all only: takeWhile_append_stop dropWhile_append_stop)
  with * show "span1 P s = Some (t, u)"
    by (simp add: span1_def)
qed

lemma kind_re_iff:
  "kind_re s = Some (k, t) \<longleftrightarrow> (k = ''REQUEST'' \<or> k = ''ACK'') \<and> s = k @ t"
  by (auto simp: kind_re_def strip_prefix_iff split: option.splits)

text \<open>The padding the pattern accepts after the sequence number.\<close>

definition padding_form :: "string \<Rightarrow> string \<Rightarrow> bool" where
  "padding_form s p \<longleftrightarrow>
     (s = [] \<and> p = []) \<or>
     (\<exists>w x. p = w @ x \<and> w \<noteq> [] \<and> list_all is_space w \<and> list_all (\<lambda>c. c = CHR ''x'') x \<and>
            (s = p \<or> (x \<noteq> [] \<and> s = p @ [newline])))"

abbreviation is_x :: "char \<Rightarrow> bool" where
  "is_x c \<equiv> c = CHR ''x''"

lemma x_not_space [simp]: "\<not> is_space (CHR ''x'')"
  by (simp add: is_space_def)

lemma padding_re_form: "padding_re s = Some p \<Longrightarrow> padding_form s p"
proof (cases "s = []")
  case True
  moreover assume "padding_re s = Some p"
  ultimately show ?thesis by (simp add: padding_re_def padding_form_def)
next
  case False
  assume "padding_re s = Some p"
  with False obtain w t where span: "span1 is_space s = Some (w, t)"
    and rest: "dropWhile is_x t = [] \<or> dropWhile is_x t = [newline]"
    and p: "p = w @ takeWhile is_x t"
    by (simp add: padding_re_def Let_def split: option.splits if_splits prod.splits)
  define x u where "x = takeWhile is_x t" and "u = dropWhile is_x t"
  then have t: "t = x @ u" and x: "list_all is_x x"
    by simp_all
  from span have s: "s = w @ t" "w \<noteq> []" "list_all is_space w" "t = [] \<or> \<not> is_space (hd t)"
    by (simp_all add: span1_iff)
  from rest p have u: "u = [] \<or> u = [newline]" and p': "p = w @ x"
    by (simp_all add: x_def u_def)
  from s(4) t u have "u = [] \<or> (u = [newline] \<and> x \<noteq> [])"
    by (cases x) auto
  with s(1) t p' have "s = p \<or> (x \<noteq> [] \<and> s = p @ [newline])"
    by (elim disjE) simp_all
  with s(2,3) x p' show ?thesis
    unfolding padding_form_def by blast
qed

lemma padding_reI:
  assumes "w \<noteq> []" "list_all is_space w" "list_all is_x x" "u = [] \<or> (u = [newline] \<and> x \<noteq> [])"
  shows "padding_re (w @ x @ u) = Some (w @ x)"
proof -
  have "x @ u = [] \<or> \<not> is_space (hd (x @ u))"
    using assms(3,4) by (cases x) simp_all
  then have "span1 is_space (w @ x @ u) = Some (w, x @ u)"
    using assms(1,2) by (simp only: span1_iff simp_thms)
  moreover have "case u of [] \<Rightarrow> True | y # _ \<Rightarrow> \<not> is_x y"
    using assms(4) by auto
  then have "takeWhile is_x (x @ u) = x" "dropWhile is_x (x @ u) = u"
    using assms(3) by (simp_all only: takeWhile_append_stop dropWhile_append_stop)
  ultimately show ?thesis
    using assms(1,4) by (simp add: padding_re_def del: dropWhile_eq_Nil_conv) blast
qed

lemma padding_re_iff: "padding_re s = Some p \<longleftrightarrow> padding_form s p"
proof
  assume "padding_form s p"
  then consider "s = [] \<and> p = []"
    | w x where "p = w @ x" "w \<noteq> []" "list_all is_space w" "list_all is_x x"
      "s = p \<or> (x \<noteq> [] \<and> s = p @ [newline])"
    unfolding padding_form_def by blast
  then show "padding_re s = Some p"
  proof cases
    case 1
    then show ?thesis by (simp add: padding_re_def)
  next
    case 2
    from 2(5) show ?thesis
    proof
      assume "s = p"
      with 2(1) padding_reI [of w x "[]", OF 2(2-4)] show ?thesis by simp
    next
      assume "x \<noteq> [] \<and> s = p @ [newline]"
      with 2(1) padding_reI [of w x "[newline]", OF 2(2-4)] show ?thesis by simp
    qed
  qed
qed (rule padding_re_form)

section \<open>The parser accepts exactly the documented form\<close>

text \<open>The pattern of \<open>_BODY_RE\<close> read as a grammar: the pieces of a body and its groups.\<close>

definition body_form :: "string \<Rightarrow> string \<Rightarrow> string \<Rightarrow> string \<Rightarrow> string \<Rightarrow> string \<Rightarrow> bool" where
  "body_form s k e r q p \<longleftrightarrow>
     (\<exists>w1 w2 w3 w4 t.
        s = ''FAM/1'' @ w1 @ k @ w2 @ e @ w3 @ r @ w4 @ q @ t \<and>
        (\<forall>w \<in> {w1, w2, w3, w4}. w \<noteq> [] \<and> list_all is_space w) \<and>
        (k = REQUEST_KEYWORD \<or> k = ACK_KEYWORD) \<and> wf_token e \<and> wf_token r \<and>
        q \<noteq> [] \<and> list_all is_digit q \<and> padding_form t p)"

lemma body_formI:
  assumes "s = ''FAM/1'' @ w1 @ k @ w2 @ e @ w3 @ r @ w4 @ q @ t"
    and "\<forall>w \<in> {w1, w2, w3, w4}. w \<noteq> [] \<and> list_all is_space w"
    and "k = REQUEST_KEYWORD \<or> k = ACK_KEYWORD" "wf_token e" "wf_token r"
    and "q \<noteq> []" "list_all is_digit q" "padding_form t p"
  shows "body_form s k e r q p"
  unfolding body_form_def using assms by blast

lemma padding_form_Nil [simp]: "padding_form [] []"
  by (simp add: padding_form_def)

lemma padding_form_hd: "padding_form t p \<Longrightarrow> t = [] \<or> is_space (hd t)"
  by (auto simp: padding_form_def neq_Nil_conv)

lemma space_not_token: "is_space c \<Longrightarrow> \<not> is_token_char c"
  using token_char_not_space by blast

lemma space_not_digit: "is_space c \<Longrightarrow> \<not> is_digit c"
  using digit_not_space by blast

lemma body_re_form:
  assumes "body_re s = Some (k, e, r, q, p)"
  shows "body_form s k e r q p"
proof -
  from assms obtain s1 w1 s2 s3 w2 s4 s5 w3 s6 s7 w4 s8 s9 where
    "strip_prefix ''FAM/1'' s = Some s1" "span1 is_space s1 = Some (w1, s2)"
    "kind_re s2 = Some (k, s3)" "span1 is_space s3 = Some (w2, s4)"
    "span1 is_token_char s4 = Some (e, s5)" "span1 is_space s5 = Some (w3, s6)"
    "span1 is_token_char s6 = Some (r, s7)" "span1 is_space s7 = Some (w4, s8)"
    "span1 is_digit s8 = Some (q, s9)" "padding_re s9 = Some p"
    by (auto simp: body_re_def bind_eq_Some_conv)
  note parts = this [unfolded strip_prefix_iff span1_iff kind_re_iff padding_re_iff]
  then have "s = ''FAM/1'' @ w1 @ k @ w2 @ e @ w3 @ r @ w4 @ q @ s9"
    by simp
  moreover have "\<forall>w \<in> {w1, w2, w3, w4}. w \<noteq> [] \<and> list_all is_space w"
    using parts by simp
  moreover have "k = REQUEST_KEYWORD \<or> k = ACK_KEYWORD"
    using parts by (simp add: REQUEST_KEYWORD_def ACK_KEYWORD_def)
  ultimately show ?thesis
    using parts unfolding body_form_def wf_token_def by blast
qed

lemma form_body_re:
  assumes "body_form s k e r q p"
  shows "body_re s = Some (k, e, r, q, p)"
proof -
  from assms obtain w1 w2 w3 w4 t where
    s: "s = ''FAM/1'' @ w1 @ k @ w2 @ e @ w3 @ r @ w4 @ q @ t"
    and w: "\<forall>w \<in> {w1, w2, w3, w4}. w \<noteq> [] \<and> list_all is_space w"
    and k: "k = REQUEST_KEYWORD \<or> k = ACK_KEYWORD" and er: "wf_token e" "wf_token r"
    and q: "q \<noteq> []" "list_all is_digit q" and t: "padding_form t p"
    unfolding body_form_def by blast
  have hd_space: "is_space (hd (w @ u))" if "w \<in> {w1, w2, w3, w4}" for w u
    using w that by (cases w) auto
  have "\<not> is_space (hd (k @ u))" for u
    using k by (auto simp: REQUEST_KEYWORD_def ACK_KEYWORD_def is_space_def)
  then have "span1 is_space (w1 @ k @ u) = Some (w1, k @ u)" for u
    using w by (simp add: span1_iff)
  moreover have "kind_re (k @ u) = Some (k, u)" for u
    using k by (auto simp: kind_re_iff REQUEST_KEYWORD_def ACK_KEYWORD_def)
  moreover have "span1 is_space (w2 @ e @ u) = Some (w2, e @ u)"
    "span1 is_space (w3 @ r @ u) = Some (w3, r @ u)" for u
    using w er wf_token_hd by (auto simp: span1_iff wf_token_def)
  moreover have "span1 is_token_char (e @ w3 @ u) = Some (e, w3 @ u)"
    "span1 is_token_char (r @ w4 @ u) = Some (r, w4 @ u)" for u
    using er w hd_space [of w3 "[]"] hd_space [of w4 "[]"]
    by (simp_all add: span1_iff wf_token_def space_not_token)
  moreover have "span1 is_space (w4 @ q @ t) = Some (w4, q @ t)"
    using q w by (cases q) (simp_all add: span1_iff digit_not_space)
  moreover have "span1 is_digit (q @ t) = Some (q, t)"
    using q padding_form_hd [OF t] by (auto simp: span1_iff space_not_digit)
  moreover have "padding_re t = Some p"
    using t by (simp add: padding_re_iff)
  ultimately show ?thesis
    unfolding body_re_def s by (simp add: strip_prefix_iff [THEN iffD2])
qed

lemma body_re_iff: "body_re s = Some (k, e, r, q, p) \<longleftrightarrow> body_form s k e r q p"
  using body_re_form form_body_re by blast

lemma body_form_token: "body_form s k e r q p \<Longrightarrow> token_re e \<and> token_re r"
  by (auto simp: body_form_def wf_token_re)

lemma make_correlation_ok:
  "token_re e \<Longrightarrow> token_re r \<Longrightarrow> 0 \<le> n \<Longrightarrow>
   make_correlation e r n = Inr \<lparr>experiment_name = e, run_id = r, sequence_id = n\<rparr>"
  by (simp add: make_correlation_def check_token_def)

lemma make_correlation_Inr:
  "make_correlation e r n = Inr c \<longleftrightarrow>
     token_re e \<and> token_re r \<and> 0 \<le> n \<and> c = \<lparr>experiment_name = e, run_id = r, sequence_id = n\<rparr>"
  by (auto simp: make_correlation_def check_token_def rbind_def split: sum.splits if_splits)

text \<open>The value of \<open>parse\<close> on every body, in terms of the grammar.\<close>

lemma parse_form:
  assumes "body_form (strip body) k e r q p"
  shows "parse body =
    (if max_str_digits < length q then Inl DigitLimitError
     else Inr (Some \<lparr>kind = k,
            correlation = \<lparr>experiment_name = e, run_id = r, sequence_id = int (dec_val q)\<rparr>,
            padded = (p \<noteq> [])\<rparr>))"
  using form_body_re [OF assms] body_form_token [OF assms]
  by (simp add: parse_def py_int_of_def make_correlation_ok)

lemma parse_no_form:
  assumes "\<nexists>k e r q p. body_form (strip body) k e r q p"
  shows "parse body = Inr None"
proof -
  from assms have "body_re (strip body) = None"
    using body_re_form by (metis option.exhaust prod_cases5)
  then show ?thesis by (simp add: parse_def)
qed

lemma parse_Some_iff:
  "parse body = Inr (Some m) \<longleftrightarrow>
     (\<exists>e r q p. body_form (strip body) (kind m) e r q p \<and> length q \<le> max_str_digits \<and>
        correlation m = \<lparr>experiment_name = e, run_id = r, sequence_id = int (dec_val q)\<rparr> \<and>
        padded m = (p \<noteq> []))"
proof (cases "\<exists>k e r q p. body_form (strip body) k e r q p")
  case True
  then obtain k e r q p where form: "body_form (strip body) k e r q p" by blast
  have uniq: "body_form (strip body) k' e' r' q' p' \<longleftrightarrow>
      k' = k \<and> e' = e \<and> r' = r \<and> q' = q \<and> p' = p" for k' e' r' q' p'
    using form_body_re [OF form] unfolding body_re_iff [symmetric] by auto
  show ?thesis
    unfolding uniq parse_form [OF form] by (cases m) (simp, blast)
next
  case False
  then show ?thesis by (simp add: parse_no_form)
qed

definition wf_correlation :: "correlation \<Rightarrow> bool" where
  "wf_correlation c \<longleftrightarrow>
     wf_token (experiment_name c) \<and> wf_token (run_id c) \<and> 0 \<le> sequence_id c"

lemma parse_wf_correlation: "parse body = Inr (Some m) \<Longrightarrow> wf_correlation (correlation m)"
  by (auto simp: parse_Some_iff wf_correlation_def body_form_def)

lemma parse_kind: "parse body = Inr (Some m) \<Longrightarrow> is_request m \<noteq> is_ack m"
  by (auto simp: parse_Some_iff body_form_def is_request_def is_ack_def)

section \<open>Building and parsing back\<close>

lemma concat_replicate_x: "concat (replicate n PADDING_CHARACTER) = replicate n (CHR ''x'')"
  by (induction n) (simp_all add: PADDING_CHARACTER_def)

lemma sequence_token_Inr:
  "sequence_token c = Inr q \<longleftrightarrow>
     length (dec (nat (sequence_id c))) \<le> max_str_digits \<and>
     q = zfill SEQUENCE_DIGITS (dec (nat (sequence_id c)))"
  by (auto simp: sequence_token_def py_str_int_def Let_def)

lemma sequence_token_digits:
  "sequence_token c = Inr q \<Longrightarrow>
     q \<noteq> [] \<and> list_all is_digit q \<and> length q \<le> max_str_digits \<and> dec_val q = nat (sequence_id c)"
  by (simp add: sequence_token_Inr zfill_digits zfill_nonempty max_str_digits_def SEQUENCE_DIGITS_def)

lemma envelope_form:
  assumes env: "envelope k c = Inr s" and wf: "wf_correlation c"
    and k: "k = REQUEST_KEYWORD \<or> k = ACK_KEYWORD" and t: "padding_form t p"
  obtains q where "sequence_token c = Inr q"
    "body_form (s @ t) k (upper (experiment_name c)) (run_id c) q p"
proof -
  from env obtain q where q: "sequence_token c = Inr q"
    and s: "s = ''FAM/1'' @ '' '' @ k @ '' '' @ upper (experiment_name c) @ '' '' @ run_id c @ '' '' @ q"
    by (auto simp: envelope_def rbind_eq_Inr PROTOCOL_TOKEN_def)
  have "body_form (s @ t) k (upper (experiment_name c)) (run_id c) q p"
    using wf k t sequence_token_digits [OF q]
    by (intro body_formI [of _ "'' ''" _ "'' ''" _ "'' ''" _ "'' ''"])
      (simp_all add: s wf_correlation_def wf_token_upper)
  with q show thesis by (rule that)
qed

lemma envelope_ends:
  assumes "envelope k c = Inr s"
  shows "s \<noteq> [] \<and> \<not> is_space (hd s) \<and> is_digit (last s)"
proof -
  from assms obtain q where q: "sequence_token c = Inr q"
    and s: "s = ''FAM/1'' @ '' '' @ k @ '' '' @ upper (experiment_name c) @ '' '' @ run_id c @ '' '' @ q"
    by (auto simp: envelope_def rbind_eq_Inr PROTOCOL_TOKEN_def)
  from sequence_token_digits [OF q] have "is_digit (last q)" "q \<noteq> []"
    by (metis last_in_set list_all_iff, blast)
  then show ?thesis by (simp add: s is_space_def)
qed

text \<open>What \<open>strip\<close> leaves of a padded envelope: the separator goes when no filler follows.\<close>

lemma strip_padded:
  assumes "s \<noteq> []" "\<not> is_space (hd s)" "\<not> is_space (last s)"
  shows "strip (s @ '' '' @ replicate n (CHR ''x'')) =
    (if n = 0 then s else s @ '' '' @ replicate n (CHR ''x''))"
proof (cases "n = 0")
  case True
  with assms show ?thesis by (simp add: strip_snoc_space strip_id)
next
  case False
  with assms show ?thesis by (simp add: strip_id)
qed

lemma padding_form_filler:
  "padding_form (if n = 0 then [] else '' '' @ replicate n (CHR ''x''))
     (if n = 0 then [] else '' '' @ replicate n (CHR ''x''))"
proof (cases n)
  case (Suc m)
  then show ?thesis
    unfolding padding_form_def
    by (intro disjI2 exI [of _ "'' ''"] exI [of _ "replicate n (CHR ''x'')"])
      (simp add: list_all_iff)
qed (simp add: padding_form_def)

lemma pad_parse:
  assumes env: "envelope k c = Inr s" and wf: "wf_correlation c"
    and k: "k = REQUEST_KEYWORD \<or> k = ACK_KEYWORD" and body: "pad s b = Inr body"
  shows "parse body = Inr (Some \<lparr>kind = k,
      correlation = c\<lparr>experiment_name := upper (experiment_name c)\<rparr>,
      padded = (last body = CHR ''x'')\<rparr>)"
proof -
  have ends: "s \<noteq> []" "\<not> is_space (hd s)" "\<not> is_space (last s)" and digit: "is_digit (last s)"
    using envelope_ends [OF env] digit_not_space by blast+
  from digit have not_x: "last s \<noteq> CHR ''x''"
    by (auto simp: is_digit_def)
  obtain n where strip: "strip body = s @ (if n = 0 then [] else '' '' @ replicate n (CHR ''x''))"
    and last: "(last body = CHR ''x'') = (n \<noteq> 0)"
  proof (cases b)
    case None
    with body ends have "body = s" "strip body = s" by (simp_all add: pad_def strip_id)
    with not_x that [of 0] show ?thesis by simp
  next
    case (Some m)
    define n where "n = nat (m - int (utf8_len s) - 1)"
    with body Some have "body = s @ '' '' @ replicate n (CHR ''x'')"
      by (auto simp: pad_def Let_def concat_replicate_x split: if_splits)
    then have "(last body = CHR ''x'') = (n \<noteq> 0)" by (simp add: last_replicate)
    moreover have "strip body = s @ (if n = 0 then [] else '' '' @ replicate n (CHR ''x''))"
      unfolding \<open>body = _\<close> strip_padded [OF ends] by simp
    ultimately show ?thesis by (rule that [rotated])
  qed
  obtain q where q: "sequence_token c = Inr q"
    and form: "body_form (strip body) k (upper (experiment_name c)) (run_id c) q
      (if n = 0 then [] else '' '' @ replicate n (CHR ''x''))"
    unfolding strip by (rule envelope_form [OF env wf k padding_form_filler])
  show ?thesis
    using sequence_token_digits [OF q] wf last unfolding parse_form [OF form]
    by (cases c) (simp add: wf_correlation_def)
qed

section \<open>Properties of the codec\<close>

lemma utf8_len_replicate_x [simp]: "utf8_len (replicate n (CHR ''x'')) = n"
  by (induction n) (simp_all add: utf8_len_def utf8_char_len_def)

lemma utf8_len_blank: "utf8_len (CHR '' '' # s) = Suc (utf8_len s)"
  by (simp add: utf8_len_def utf8_char_len_def)

lemma pad_length: "pad s (Some n) = Inr body \<Longrightarrow> int (utf8_len body) = n"
  by (auto simp: pad_def Let_def concat_replicate_x utf8_len_blank split: if_splits)

definition corr_example :: correlation where
  "corr_example = \<lparr>experiment_name = ''e3'', run_id = ''r1'', sequence_id = 7\<rparr>"

lemma corr_example_wf: "wf_correlation corr_example"
  by (simp add: wf_correlation_def corr_example_def wf_token_def is_token_char_def
      is_alpha_def is_digit_def)

text \<open>
  C2: A body built for a well-formed correlation, request or ACK, unpadded or padded to any
  size, parses back to the same kind and the same correlation with the experiment in
  upper case, and the \<open>padded\<close> flag says whether filler characters end the body.
\<close>

theorem body_roundtrip:
  assumes "wf_correlation c"
    and "build_request c b = Inr req" and "build_ack c b = Inr ack"
  shows "parse req = Inr (Some \<lparr>kind = REQUEST_KEYWORD,
           correlation = c\<lparr>experiment_name := upper (experiment_name c)\<rparr>,
           padded = (last req = CHR ''x'')\<rparr>) \<and>
         parse ack = Inr (Some \<lparr>kind = ACK_KEYWORD,
           correlation = c\<lparr>experiment_name := upper (experiment_name c)\<rparr>,
           padded = (last ack = CHR ''x'')\<rparr>)"
  using assms by (auto simp: build_request_def build_ack_def rbind_eq_Inr intro: pad_parse)

text \<open>The pieces of the example are evaluated; the theorem is applied to the bodies built.\<close>

lemma corr_example_bodies:
  "build_request corr_example (Some 30) = Inr ''FAM/1 REQUEST E3 r1 00007 xxxx''"
  "build_ack corr_example (Some 30) = Inr ''FAM/1 ACK E3 r1 00007 xxxxxxxx''"
  by code_simp+

theorem body_roundtrip_witness:
  "parse ''FAM/1 REQUEST E3 r1 00007 xxxx'' = Inr (Some \<lparr>kind = REQUEST_KEYWORD,
     correlation = corr_example\<lparr>experiment_name := ''E3''\<rparr>, padded = True\<rparr>)"
proof -
  have "upper (experiment_name corr_example) = ''E3''" by code_simp
  with body_roundtrip [OF corr_example_wf corr_example_bodies] show ?thesis by simp
qed

text \<open>
  A request or ACK built for \<open>n\<close> bytes is exactly \<open>n\<close> UTF-8 bytes long, so the
  assertion made before every padded send passes; a size that leaves no room for the
  separator is refused with \<open>MessageFormatError\<close>, never truncated.
\<close>

theorem padded_body_exact:
  assumes "envelope k c = Inr env"
  shows "(n \<le> int (utf8_len env) \<longrightarrow> pad env (Some n) = Inl MessageFormatError) \<and>
         (int (utf8_len env) < n \<longrightarrow>
            (\<exists>body. pad env (Some n) = Inr body \<and> int (utf8_len body) = n \<and>
                    assert_body_length body n = Inr ()))"
proof (intro conjI impI)
  assume "int (utf8_len env) < n"
  then obtain body where "pad env (Some n) = Inr body"
    by (simp add: pad_def)
  with pad_length [OF this] show "\<exists>body. pad env (Some n) = Inr body \<and> int (utf8_len body) = n \<and>
      assert_body_length body n = Inr ()"
    by (simp add: assert_body_length_def)
qed (simp add: pad_def)

theorem padded_body_exact_witness:
  "\<exists>body. pad ''FAM/1 ACK E3 r1 00007'' (Some 256) = Inr body \<and> int (utf8_len body) = 256 \<and>
     assert_body_length body 256 = Inr ()"
proof -
  have "envelope ACK_KEYWORD corr_example = Inr ''FAM/1 ACK E3 r1 00007''" by code_simp
  from padded_body_exact [OF this, of 256] show ?thesis
    by (simp add: utf8_len_def utf8_char_len_def)
qed

text \<open>
  \<open>parse\<close> is total on the grammar of the pattern: a body outside it is ignored, a body
  in it gives the triple it spells, with one exception: a sequence number longer than the
  interpreter's 4300-digit limit, where \<open>int\<close> raises a \<open>ValueError\<close> that the
  \<open>except MessageFormatError\<close> does not catch.
\<close>

theorem parse_characterisation:
  "(parse body = Inr None \<longleftrightarrow> (\<nexists>k e r q p. body_form (strip body) k e r q p)) \<and>
   (parse body = Inl DigitLimitError \<longleftrightarrow>
      (\<exists>k e r q p. body_form (strip body) k e r q p \<and> max_str_digits < length q)) \<and>
   (parse body = Inr (Some m) \<longleftrightarrow>
      (\<exists>e r q p. body_form (strip body) (kind m) e r q p \<and> length q \<le> max_str_digits \<and>
        correlation m = \<lparr>experiment_name = e, run_id = r, sequence_id = int (dec_val q)\<rparr> \<and>
        padded m = (p \<noteq> []))) \<and>
   parse body \<noteq> Inl MessageFormatError"
proof (cases "\<exists>k e r q p. body_form (strip body) k e r q p")
  case True
  then obtain k e r q p where form: "body_form (strip body) k e r q p" by blast
  have uniq: "body_form (strip body) k' e' r' q' p' \<longleftrightarrow>
      k' = k \<and> e' = e \<and> r' = r \<and> q' = q \<and> p' = p" for k' e' r' q' p'
    using form_body_re [OF form] unfolding body_re_iff [symmetric] by auto
  show ?thesis
    unfolding parse_Some_iff unfolding uniq parse_form [OF form] by auto
next
  case False
  then show ?thesis by (simp add: parse_no_form parse_Some_iff)
qed

text \<open>
  The agent shares rooms with ordinary traffic, and \<open>parse\<close> documents that it ignores
  what is not an experimental message rather than raising. It does raise: any body
  \<open>FAM/1 REQUEST <experiment> <run> <digits>\<close> with more than 4300 digits makes it leave by
  the \<open>ValueError\<close> of \<open>int\<close>.
\<close>

theorem parse_raises_on_long_sequence:
  assumes "wf_token e" and "wf_token r" and "list_all is_digit q" and "max_str_digits < length q"
  shows "parse (''FAM/1 REQUEST '' @ e @ '' '' @ r @ '' '' @ q) = Inl DigitLimitError"
proof -
  let ?s = "''FAM/1 REQUEST '' @ e @ '' '' @ r @ '' '' @ q"
  from assms(4) have q: "q \<noteq> []" by auto
  then have "is_digit (last q)" using assms(3) by (metis last_in_set list_all_iff)
  then have last: "\<not> is_space (last ?s)" using q by (simp add: digit_not_space)
  have strip: "strip ?s = ?s" by (rule strip_id [OF _ _ last]) simp_all
  have "body_form (strip ?s) REQUEST_KEYWORD e r q []"
    unfolding strip by (rule body_formI [of _ "'' ''" _ "'' ''" _ "'' ''" _ "'' ''" _ "[]"])
      (simp_all add: REQUEST_KEYWORD_def assms q)
  from parse_form [OF this] assms(4) show ?thesis by simp
qed

theorem parse_raises_on_long_sequence_witness:
  "parse (''FAM/1 REQUEST '' @ ''E0'' @ '' '' @ ''r'' @ '' '' @ replicate 4301 (CHR ''9'')) =
     Inl DigitLimitError"
  by (rule parse_raises_on_long_sequence)
    (simp_all add: wf_token_def is_token_char_def is_alpha_def is_digit_def list_all_iff
      max_str_digits_def)

text \<open>
  A transaction id names the logical message: it is a function of the correlation key
  and the direction, so a retry of the same send reuses it, and within one experiment
  and run (compared without case) different directions or sequence numbers never share
  one.
\<close>

theorem txn_id_identity:
  "(key c = key c' \<longrightarrow> txn_id c d = txn_id c' d) \<and>
   (txn_id c d = Inr t \<longrightarrow> txn_id c' d' = Inr t \<longrightarrow> wf_correlation c \<longrightarrow> wf_correlation c' \<longrightarrow>
      lower (experiment_name c) = lower (experiment_name c') \<longrightarrow>
      lower (run_id c) = lower (run_id c') \<longrightarrow> d = d' \<and> sequence_id c = sequence_id c')"
proof (intro conjI impI)
  assume "key c = key c'"
  then have "lower (experiment_name c) = lower (experiment_name c')"
    and "run_id c = run_id c'" and "sequence_id c = sequence_id c'"
    by (auto simp: key_def intro: upper_eq_lower)
  then show "txn_id c d = txn_id c' d"
    by (simp add: txn_id_def sequence_token_def)
next
  assume t: "txn_id c d = Inr t" "txn_id c' d' = Inr t"
    and wf: "wf_correlation c" "wf_correlation c'"
    and low: "lower (experiment_name c) = lower (experiment_name c')"
      "lower (run_id c) = lower (run_id c')"
  from t low show "d = d'"
    by (auto simp: txn_id_def rbind_eq_Inr split: if_splits)
  with t low obtain q where "sequence_token c = Inr q" "sequence_token c' = Inr q"
    by (auto simp: txn_id_def rbind_eq_Inr split: if_splits)
  with wf show "sequence_id c = sequence_id c'"
    by (auto simp: sequence_token_Inr zfill_dec_inject wf_correlation_def)
qed

theorem txn_id_identity_witness:
  "txn_id \<lparr>experiment_name = ''e3'', run_id = ''R1'', sequence_id = 8\<rparr> ''response'' \<noteq>
   Inr ''fam-e3-r1-response-00007''"
proof -
  let ?c = "\<lparr>experiment_name = ''E3'', run_id = ''r1'', sequence_id = 7\<rparr>"
  let ?c' = "\<lparr>experiment_name = ''e3'', run_id = ''R1'', sequence_id = 8\<rparr>"
  have t: "txn_id ?c ''response'' = Inr ''fam-e3-r1-response-00007''" by code_simp
  have "lower ''E3'' = lower ''e3''" "lower ''r1'' = lower ''R1''" by code_simp+
  moreover have "wf_correlation ?c" "wf_correlation ?c'"
    by (simp_all add: wf_correlation_def wf_token_def is_token_char_def is_alpha_def is_digit_def)
  ultimately show ?thesis
    using txn_id_identity [of ?c ?c' "''response''" "''fam-e3-r1-response-00007''" "''response''"] t
    by auto
qed

text \<open>
  The transaction id is coarser than the key: it lowers the case of the run identifier,
  the key keeps it. Two correlations the exactly-once registry tells apart can share a
  transaction id, and a homeserver takes the second send for a retransmission.
\<close>

theorem txn_id_collision:
  assumes "upper r \<noteq> r" and "txn_id \<lparr>experiment_name = e, run_id = r, sequence_id = n\<rparr> d = Inr t"
  shows "txn_id \<lparr>experiment_name = e, run_id = upper r, sequence_id = n\<rparr> d = Inr t \<and>
         key \<lparr>experiment_name = e, run_id = upper r, sequence_id = n\<rparr> \<noteq>
         key \<lparr>experiment_name = e, run_id = r, sequence_id = n\<rparr>"
proof -
  have "txn_id \<lparr>experiment_name = e, run_id = upper r, sequence_id = n\<rparr> d =
        txn_id \<lparr>experiment_name = e, run_id = r, sequence_id = n\<rparr> d"
    by (simp add: txn_id_def sequence_token_def)
  with assms show ?thesis by (simp add: key_def)
qed

theorem txn_id_collision_witness:
  "txn_id \<lparr>experiment_name = ''E1'', run_id = ''RUN-A'', sequence_id = 3\<rparr> ''response'' =
     Inr ''fam-e1-run-a-response-00003'' \<and>
   key \<lparr>experiment_name = ''E1'', run_id = ''RUN-A'', sequence_id = 3\<rparr> \<noteq>
     key \<lparr>experiment_name = ''E1'', run_id = ''run-a'', sequence_id = 3\<rparr>"
proof -
  have u: "upper ''run-a'' = ''RUN-A''" by code_simp
  have t: "txn_id \<lparr>experiment_name = ''E1'', run_id = ''run-a'', sequence_id = 3\<rparr> ''response'' =
      Inr ''fam-e1-run-a-response-00003''" by code_simp
  from txn_id_collision [of "''run-a''", OF _ t] show ?thesis unfolding u by simp
qed

text \<open>
  The token check is meant to keep whitespace out of an identifier, but \<open>$\<close> matches
  before a final newline: a run identifier with one is accepted, and the request built
  from it parses to another logical identity than the one it was built for.
\<close>

theorem newline_run_id_accepted:
  assumes "wf_token e" and "wf_token r" and "0 \<le> n"
    and "length (dec (nat n)) \<le> max_str_digits"
  shows "\<exists>c body m. make_correlation e (r @ [newline]) n = Inr c \<and>
           build_request c None = Inr body \<and> parse body = Inr (Some m) \<and>
           key (correlation m) = (upper e, r, n) \<and> key (correlation m) \<noteq> key c"
proof -
  let ?c = "\<lparr>experiment_name = e, run_id = r @ [newline], sequence_id = n\<rparr>"
  have c: "make_correlation e (r @ [newline]) n = Inr ?c"
    using assms by (simp add: make_correlation_ok wf_token_re token_re_iff)
  obtain q where q: "sequence_token ?c = Inr q"
    using assms(4) by (simp add: sequence_token_Inr)
  let ?s = "''FAM/1'' @ '' '' @ REQUEST_KEYWORD @ '' '' @ upper e @ '' '' @ r @ [newline] @ '' '' @ q"
  have body: "build_request ?c None = Inr ?s"
    using q by (simp add: build_request_def envelope_def pad_def PROTOCOL_TOKEN_def)
  note dq = sequence_token_digits [OF q]
  then have "is_digit (last q)" by (metis last_in_set list_all_iff)
  then have last: "\<not> is_space (last ?s)" using dq by (simp add: digit_not_space)
  have strip: "strip ?s = ?s" by (rule strip_id [OF _ _ last]) simp_all
  have "body_form (strip ?s) REQUEST_KEYWORD (upper e) r q []"
    unfolding strip by (rule body_formI [of _ "'' ''" _ "'' ''" _ "'' ''" _ "newline # '' ''" _ "[]"])
      (simp_all add: assms dq wf_token_upper)
  let ?m = "\<lparr>kind = REQUEST_KEYWORD,
      correlation = \<lparr>experiment_name = upper e, run_id = r, sequence_id = n\<rparr>, padded = False\<rparr>"
  have "parse ?s = Inr (Some ?m)"
    using parse_form [OF \<open>body_form (strip ?s) REQUEST_KEYWORD (upper e) r q []\<close>] dq assms(3)
    by simp
  moreover have "key (correlation ?m) = (upper e, r, n)" and "key (correlation ?m) \<noteq> key ?c"
    by (simp_all add: key_def)
  ultimately show ?thesis
    using c body by blast
qed

theorem newline_run_id_accepted_witness:
  "\<exists>c body m. make_correlation ''E3'' (''run'' @ [newline]) 1 = Inr c \<and>
     build_request c None = Inr body \<and> parse body = Inr (Some m) \<and>
     key (correlation m) = (upper ''E3'', ''run'', 1) \<and> key (correlation m) \<noteq> key c"
  by (rule newline_run_id_accepted)
    (simp_all add: wf_token_def is_token_char_def is_alpha_def is_digit_def dec.simps
      max_str_digits_def)

end
