(* ===== verification/Once.thy ===== *)
theory Once
  imports Prelude
begin

text \<open>
  The interface behind every "at most once" of the program. A guard is a state with a
  test \<open>fresh\<close> and an update \<open>mark\<close>; \<open>clash j k\<close> says that having marked \<open>j\<close> rules
  \<open>k\<close> out. The agent's registry, the recovery ledger, the merge of a limited timeline
  with its history and the campaign ledger are interpretations, each in its own theory.
\<close>

locale once_guard =
  fixes fresh :: "'s \<Rightarrow> 'k \<Rightarrow> bool"
    and mark :: "'s \<Rightarrow> 'k \<Rightarrow> 's"
    and clash :: "'k \<Rightarrow> 'k \<Rightarrow> bool"
  assumes fresh_mark: "fresh (mark s j) k \<longleftrightarrow> fresh s k \<and> \<not> clash j k"
begin

text \<open>The items a loop over the guard takes, and the state it leaves.\<close>

fun taken :: "'s \<Rightarrow> 'k list \<Rightarrow> 'k list" where
  "taken s [] = []"
| "taken s (k # ks) = (if fresh s k then k # taken (mark s k) ks else taken s ks)"

fun guarded :: "'s \<Rightarrow> 'k list \<Rightarrow> 's" where
  "guarded s [] = s"
| "guarded s (k # ks) = guarded (if fresh s k then mark s k else s) ks"

lemma taken_append: "taken s (ks @ js) = taken s ks @ taken (guarded s ks) js"
  by (induction ks arbitrary: s) auto

lemma guarded_append: "guarded s (ks @ js) = guarded (guarded s ks) js"
  by (induction ks arbitrary: s) auto

lemma taken_subset: "set (taken s ks) \<subseteq> set ks"
  by (induction ks arbitrary: s) (auto split: if_splits)

lemma fresh_guarded:
  "fresh (guarded s ks) k \<longleftrightarrow> fresh s k \<and> (\<forall>j \<in> set (taken s ks). \<not> clash j k)"
  by (induction ks arbitrary: s) (auto simp: fresh_mark)

lemma taken_fresh: "k \<in> set (taken s ks) \<Longrightarrow> fresh s k"
proof (induction ks arbitrary: s)
  case (Cons j ks)
  show ?case
  proof (cases "fresh s j")
    case True
    with Cons.prems have "k = j \<or> k \<in> set (taken (mark s j) ks)" by simp
    with True Cons.IH show ?thesis using fresh_mark by blast
  next
    case False
    with Cons show ?thesis by simp
  qed
qed simp

text \<open>No two items taken clash: the "at most once" half.\<close>

lemma taken_clash_free: "sorted_wrt (\<lambda>j k. \<not> clash j k) (taken s ks)"
proof (induction ks arbitrary: s)
  case (Cons j ks)
  have "\<not> clash j k" if "k \<in> set (taken (mark s j) ks)" for k
    using taken_fresh [OF that] by (simp add: fresh_mark)
  with Cons.IH show ?case by simp
qed simp

text \<open>An item is passed over for a reason: the "at least once" half.\<close>

lemma passed_over:
  assumes "k \<in> set ks" and "k \<notin> set (taken s ks)"
  shows "\<not> fresh s k \<or> (\<exists>j \<in> set (taken s ks). clash j k)"
  using assms
proof (induction ks arbitrary: s)
  case (Cons j ks)
  show ?case
  proof (cases "fresh s j")
    case True
    with Cons.prems have "k \<in> set ks" "k \<notin> set (taken (mark s j) ks)" by auto
    then have "\<not> fresh (mark s j) k \<or> (\<exists>i \<in> set (taken (mark s j) ks). clash i k)"
      by (rule Cons.IH)
    with True show ?thesis by (auto simp: fresh_mark)
  next
    case False
    with Cons.prems Cons.IH [of s] show ?thesis by (cases "k = j") auto
  qed
qed simp

lemma not_fresh_guarded: "\<not> fresh s k \<Longrightarrow> \<not> fresh (guarded s ks) k"
  by (simp add: fresh_guarded)

end

text \<open>Guards that go by a name: items clash exactly when they have the same one.\<close>

locale named_guard = once_guard fresh mark "\<lambda>j k. name j = name k"
  for fresh :: "'s \<Rightarrow> 'k \<Rightarrow> bool" and mark :: "'s \<Rightarrow> 'k \<Rightarrow> 's" and name :: "'k \<Rightarrow> 'n"
begin

lemma taken_names_distinct: "distinct (map name (taken s ks))"
  using taken_clash_free [of s ks] by (simp add: sorted_wrt_distinct_map)

lemma name_taken_or_seen:
  assumes "k \<in> set ks"
  shows "\<not> fresh s k \<or> name k \<in> name ` set (taken s ks)"
proof (cases "k \<in> set (taken s ks)")
  case False
  from passed_over [OF assms this] show ?thesis by (metis image_eqI)
qed simp

end

end
