(* ===== verification/Dedup.thy ===== *)
theory Dedup
  imports Once
begin

text \<open>
  \<^verbatim>\<open>src/fam/common/dedup.py\<close>: the registry that makes logical processing happen once,
  by Matrix event id and by correlation key. A Python \<open>set\<close> is a HOL set; the registry
  only adds to and tests its two sets.
\<close>

datatype decision = PROCESS | SKIP_DUPLICATE | SKIP_OWN_EVENT | SKIP_NOT_REQUEST

fun decision_value :: "decision \<Rightarrow> string" where
  "decision_value PROCESS = ''processed''"
| "decision_value SKIP_DUPLICATE = ''skipped_duplicate''"
| "decision_value SKIP_OWN_EVENT = ''skipped_own_event''"
| "decision_value SKIP_NOT_REQUEST = ''skipped_not_request''"

type_synonym corr_key = "string \<times> string \<times> int"

record processed_registry =
  logical :: "corr_key set"
  events :: "string set"

definition empty_registry :: processed_registry where
  "empty_registry = \<lparr>logical = {}, events = {}\<rparr>"

definition registry_decide :: "processed_registry \<Rightarrow> string \<Rightarrow> corr_key \<Rightarrow> decision" where
  "registry_decide reg event_id ck =
     (if event_id \<in> events reg \<or> ck \<in> logical reg then SKIP_DUPLICATE else PROCESS)"

definition registry_commit ::
  "processed_registry \<Rightarrow> string \<Rightarrow> corr_key \<Rightarrow> processed_registry" where
  "registry_commit reg event_id ck =
     reg\<lparr>events := insert event_id (events reg), logical := insert ck (logical reg)\<rparr>"

definition processed_count :: "processed_registry \<Rightarrow> nat" where
  "processed_count reg = card (logical reg)"

section \<open>The registry is a guard\<close>

text \<open>A request as the registry sees it: its event id and its correlation key.\<close>

definition registry_fresh :: "processed_registry \<Rightarrow> string \<times> corr_key \<Rightarrow> bool" where
  "registry_fresh reg = (\<lambda>(eid, ck). registry_decide reg eid ck = PROCESS)"

definition registry_mark :: "processed_registry \<Rightarrow> string \<times> corr_key \<Rightarrow> processed_registry" where
  "registry_mark reg = (\<lambda>(eid, ck). registry_commit reg eid ck)"

definition same_request :: "string \<times> corr_key \<Rightarrow> string \<times> corr_key \<Rightarrow> bool" where
  "same_request j k \<longleftrightarrow> fst j = fst k \<or> snd j = snd k"

lemmas registry_defs = registry_fresh_def registry_mark_def registry_decide_def
  registry_commit_def same_request_def

interpretation registry: once_guard registry_fresh registry_mark same_request
  by unfold_locales (auto simp: registry_defs)

lemma same_request_sym: "same_request j k = same_request k j"
  by (auto simp: same_request_def)

lemma registry_decide_cases:
  "registry_decide reg e k = PROCESS \<longleftrightarrow> e \<notin> events reg \<and> k \<notin> logical reg"
  "registry_decide reg e k = SKIP_DUPLICATE \<longleftrightarrow> e \<in> events reg \<or> k \<in> logical reg"
  by (auto simp: registry_decide_def)

lemma registry_decide_range: "registry_decide reg e k \<in> {PROCESS, SKIP_DUPLICATE}"
  by (simp add: registry_decide_def)

lemma registry_mark_sets [simp]:
  "events (registry_mark reg (e, k)) = insert e (events reg)"
  "logical (registry_mark reg (e, k)) = insert k (logical reg)"
  by (simp_all add: registry_defs)

text \<open>Committing a fresh request counts one more; the registry only ever grows by that.\<close>

lemma processed_count_commit:
  assumes "finite (logical reg)" and "registry_decide reg e k = PROCESS"
  shows "processed_count (registry_commit reg e k) = Suc (processed_count reg)"
  using assms by (simp add: processed_count_def registry_commit_def registry_decide_cases)

lemma guarded_sets:
  "events (registry.guarded reg rs) = events reg \<union> fst ` set (registry.taken reg rs)"
  "logical (registry.guarded reg rs) = logical reg \<union> snd ` set (registry.taken reg rs)"
  by (induction rs arbitrary: reg) auto

lemma taken_distinct:
  "distinct (map fst (registry.taken reg rs))" "distinct (map snd (registry.taken reg rs))"
proof -
  have "sorted_wrt (\<lambda>j k. \<not> same_request j k) (registry.taken reg rs)"
    by (rule registry.taken_clash_free)
  then have "sorted_wrt (\<lambda>j k. fst j \<noteq> fst k) (registry.taken reg rs)"
    and "sorted_wrt (\<lambda>j k. snd j \<noteq> snd k) (registry.taken reg rs)"
    by (auto elim!: sorted_wrt_mono_rel [rotated] simp: same_request_def)
  then show "distinct (map fst (registry.taken reg rs))" "distinct (map snd (registry.taken reg rs))"
    by (simp_all add: sorted_wrt_distinct_map)
qed

text \<open>
  C3: Over any sequence of requests the registry lets through no event id twice and no
  correlation key twice; what it turns away had its event id or its key processed before
  or among those let through; and the count it reports grows by exactly the number let
  through.
\<close>

theorem registry_exactly_once:
  assumes "finite (logical reg)"
  shows "distinct (map fst (registry.taken reg rs)) \<and> distinct (map snd (registry.taken reg rs)) \<and>
    (\<forall>(e, k) \<in> set rs. (e, k) \<notin> set (registry.taken reg rs) \<longrightarrow>
       e \<in> events reg \<union> fst ` set (registry.taken reg rs) \<or>
       k \<in> logical reg \<union> snd ` set (registry.taken reg rs)) \<and>
    processed_count (registry.guarded reg rs) =
      processed_count reg + length (registry.taken reg rs)"
proof (intro conjI)
  show "\<forall>(e, k) \<in> set rs. (e, k) \<notin> set (registry.taken reg rs) \<longrightarrow>
       e \<in> events reg \<union> fst ` set (registry.taken reg rs) \<or>
       k \<in> logical reg \<union> snd ` set (registry.taken reg rs)"
    using registry.passed_over [of "(e, k)" rs reg for e k]
    by (clarsimp simp: registry_fresh_def registry_decide_cases same_request_def) force
  have "logical reg \<inter> snd ` set (registry.taken reg rs) = {}"
    using registry.taken_fresh by (fastforce simp: registry_fresh_def registry_decide_cases)
  moreover have "card (snd ` set (registry.taken reg rs)) = length (registry.taken reg rs)"
    using distinct_card [OF taken_distinct(2) [of reg rs]] by simp
  ultimately show "processed_count (registry.guarded reg rs) =
      processed_count reg + length (registry.taken reg rs)"
    using assms by (simp add: processed_count_def guarded_sets card_Un_disjoint)
qed (rule taken_distinct)+

theorem registry_exactly_once_witness:
  "processed_count (registry.guarded empty_registry
     [(''$a'', (''E0'', ''r'', 1)), (''$a'', (''E0'', ''r'', 2)), (''$b'', (''E0'', ''r'', 1)),
      (''$c'', (''E0'', ''r'', 3))]) = 2"
  using registry_exactly_once [of empty_registry "[(''$a'', (''E0'', ''r'', 1)),
    (''$a'', (''E0'', ''r'', 2)), (''$b'', (''E0'', ''r'', 1)), (''$c'', (''E0'', ''r'', 3))]"]
  by (simp add: empty_registry_def registry_defs processed_count_def)

end
