(* ===== verification/Protocol.thy ===== *)
theory Protocol
  imports Message Dedup
begin

text \<open>
  \<^verbatim>\<open>src/fam/executors/base.py\<close>, \<^verbatim>\<open>src/fam/executors/deterministic.py\<close> and
  \<^verbatim>\<open>src/fam/agent/protocol.py\<close>: what counts as a request, how it correlates, and the
  deterministic decision function. The Python interface \<open>RequestProtocol\<close> is the locale
  \<open>request_protocol\<close>, with the two protocols of the file as its interpretations.
  SHA-256 is the argument \<open>sha\<close>: the hexadecimal digest of a string's UTF-8 bytes.
\<close>

section \<open>Executors\<close>

record execution_request =
  request_text :: string
  message :: "parsed_message option"

text \<open>\<open>DeterministicExecutor.__init__\<close>: no size, or the frozen one.\<close>

datatype config_error = BodySizeNotFrozen

definition make_deterministic :: "int option \<Rightarrow> config_error + int option" where
  "make_deterministic body_bytes =
     (if body_bytes \<noteq> None \<and> body_bytes \<noteq> Some E3_BODY_BYTES then Inl BodySizeNotFrozen
      else Inr body_bytes)"

definition deterministic_decide ::
  "int option \<Rightarrow> execution_request \<Rightarrow> msg_error + string option" where
  "deterministic_decide body_bytes request =
     (case message request of
        None \<Rightarrow> Inr None
      | Some m \<Rightarrow>
          if kind m \<noteq> REQUEST_KEYWORD then Inr None
          else rbind (build_ack (correlation m) body_bytes) (\<lambda>body.
            case body_bytes of
              None \<Rightarrow> Inr (Some body)
            | Some n \<Rightarrow> rbind (assert_body_length body n) (\<lambda>_. Inr (Some body))))"

section \<open>Protocols\<close>

definition CONTROLLED :: string where "CONTROLLED = ''controlled''"

definition NATURAL_LANGUAGE :: string where "NATURAL_LANGUAGE = ''natural_language''"

record inbound_request =
  correlation_key :: corr_key
  response_txn_id :: string
  execution :: execution_request
  req_sequence_id :: "int option"

definition controlled_inbound ::
  "string \<Rightarrow> string \<Rightarrow> string \<Rightarrow> msg_error + inbound_request option" where
  "controlled_inbound event_id sender body =
     rbind (parse body) (\<lambda>pm.
       case pm of
         None \<Rightarrow> Inr None
       | Some m \<Rightarrow>
           if \<not> is_request m then Inr None
           else rbind (txn_id (correlation m) ''response'') (\<lambda>txn.
             Inr (Some \<lparr>correlation_key = key (correlation m), response_txn_id = txn,
               execution = \<lparr>request_text = body, message = Some m\<rparr>,
               req_sequence_id = Some (sequence_id (correlation m))\<rparr>)))"

definition response_txn_for_event :: "(string \<Rightarrow> string) \<Rightarrow> string \<Rightarrow> string" where
  "response_txn_for_event sha event_id = ''fam-e4-response-'' @ take 32 (sha event_id)"

definition natural_inbound ::
  "(string \<Rightarrow> string) \<Rightarrow> string \<Rightarrow> string \<Rightarrow> string \<Rightarrow> string \<Rightarrow>
   msg_error + inbound_request option" where
  "natural_inbound sha agent_mxid event_id sender body =
     (if sender = agent_mxid then Inr None
      else let t = strip body in
        if t = [] then Inr None
        else Inr (Some \<lparr>correlation_key = (NATURAL_LANGUAGE, event_id, 0),
          response_txn_id = response_txn_for_event sha event_id,
          execution = \<lparr>request_text = t, message = None\<rparr>, req_sequence_id = None\<rparr>))"

text \<open>\<open>build\<close>: the protocol object is the function its \<open>inbound\<close> method computes.\<close>

datatype protocol_error = UnknownProtocol string

definition build_protocol ::
  "(string \<Rightarrow> string) \<Rightarrow> string \<Rightarrow> string \<Rightarrow>
   protocol_error + (string \<Rightarrow> string \<Rightarrow> string \<Rightarrow> msg_error + inbound_request option)" where
  "build_protocol sha name agent_mxid =
     (if name = CONTROLLED then Inr controlled_inbound
      else if name = NATURAL_LANGUAGE then Inr (natural_inbound sha agent_mxid)
      else Inl (UnknownProtocol name))"

section \<open>The interface RequestProtocol\<close>

text \<open>
  What the runtime relies on: the reply's transaction id is a function of the logical
  identity, so answering one logical request twice is one transaction.
\<close>

locale request_protocol =
  fixes inbound :: "string \<Rightarrow> string \<Rightarrow> string \<Rightarrow> msg_error + inbound_request option"
  assumes txn_of_key:
    "inbound e s b = Inr (Some i) \<Longrightarrow> inbound e' s' b' = Inr (Some i') \<Longrightarrow>
     correlation_key i = correlation_key i' \<Longrightarrow> response_txn_id i = response_txn_id i'"
begin

definition txns :: "(string \<times> string \<times> string) set \<Rightarrow> string set" where
  "txns evs = {response_txn_id i | e s b i. (e, s, b) \<in> evs \<and> inbound e s b = Inr (Some i)}"

definition keys :: "(string \<times> string \<times> string) set \<Rightarrow> corr_key set" where
  "keys evs = {correlation_key i | e s b i. (e, s, b) \<in> evs \<and> inbound e s b = Inr (Some i)}"

text \<open>There are never more reply transactions than logical requests.\<close>

lemma txns_le_keys:
  assumes "finite evs"
  shows "card (txns evs) \<le> card (keys evs)"
proof -
  define f where "f k = (SOME t. \<exists>e s b i. inbound e s b = Inr (Some i) \<and>
    correlation_key i = k \<and> response_txn_id i = t)" for k
  have f: "f (correlation_key i) = response_txn_id i" if "inbound e s b = Inr (Some i)" for e s b i
    unfolding f_def by (rule some_equality) (use that txn_of_key in blast)+
  have "txns evs \<subseteq> f ` keys evs"
  proof
    fix t assume "t \<in> txns evs"
    then obtain e s b i where "(e, s, b) \<in> evs" and i: "inbound e s b = Inr (Some i)"
      and t: "t = response_txn_id i"
      unfolding txns_def by blast
    then have "correlation_key i \<in> keys evs" unfolding keys_def by blast
    then show "t \<in> f ` keys evs" unfolding t f [OF i, symmetric] by (rule imageI)
  qed
  moreover have "keys evs \<subseteq> (\<lambda>(e, s, b). case inbound e s b of
      Inr (Some i) \<Rightarrow> correlation_key i | _ \<Rightarrow> undefined) ` evs"
    unfolding keys_def by (force simp: image_iff)
  then have "finite (keys evs)"
    using assms finite_surj by blast
  ultimately show ?thesis
    by (meson card_image_le card_mono finite_imageI le_trans)
qed

end

lemma controlled_inbound_Some:
  "controlled_inbound e s b = Inr (Some i) \<longleftrightarrow>
     (\<exists>m t. parse b = Inr (Some m) \<and> is_request m \<and> txn_id (correlation m) ''response'' = Inr t \<and>
        i = \<lparr>correlation_key = key (correlation m), response_txn_id = t,
             execution = \<lparr>request_text = b, message = Some m\<rparr>,
             req_sequence_id = Some (sequence_id (correlation m))\<rparr>)"
  by (auto simp: controlled_inbound_def rbind_eq_Inr split: option.splits if_splits)

lemma natural_inbound_Some:
  "natural_inbound sha a e s b = Inr (Some i) \<longleftrightarrow>
     s \<noteq> a \<and> strip b \<noteq> [] \<and>
     i = \<lparr>correlation_key = (NATURAL_LANGUAGE, e, 0),
          response_txn_id = response_txn_for_event sha e,
          execution = \<lparr>request_text = strip b, message = None\<rparr>, req_sequence_id = None\<rparr>"
  by (auto simp: natural_inbound_def Let_def)

lemma txn_id_of_key: "key c = key c' \<Longrightarrow> txn_id c d = txn_id c' d"
proof -
  assume "key c = key c'"
  then have "lower (experiment_name c) = lower (experiment_name c')"
    and "run_id c = run_id c'" and "sequence_id c = sequence_id c'"
    by (auto simp: key_def intro: upper_eq_lower)
  then show ?thesis by (simp add: txn_id_def sequence_token_def)
qed

interpretation controlled: request_protocol controlled_inbound
proof unfold_locales
  fix e s b i e' s' b' i'
  assume "controlled_inbound e s b = Inr (Some i)" "controlled_inbound e' s' b' = Inr (Some i')"
    and eq: "correlation_key i = correlation_key i'"
  then obtain c c' where "txn_id c ''response'' = Inr (response_txn_id i)"
    and "txn_id c' ''response'' = Inr (response_txn_id i')"
    and "key c = correlation_key i" "key c' = correlation_key i'"
    by (fastforce simp: controlled_inbound_Some)
  with eq show "response_txn_id i = response_txn_id i'"
    using txn_id_of_key [of c c' "''response''"] by simp
qed

interpretation natural: request_protocol "natural_inbound sha agent_mxid" for sha agent_mxid
  by unfold_locales (auto simp: natural_inbound_Some)

section \<open>Lemmas\<close>

text \<open>A parsed sequence number can always be printed again: the agent's reply id exists.\<close>

lemma parsed_sequence_token:
  assumes "parse b = Inr (Some m)"
  obtains q where "sequence_token (correlation m) = Inr q"
proof -
  from assms obtain e r q p where form: "body_form (strip b) (kind m) e r q p"
    and len: "length q \<le> max_str_digits"
    and c: "correlation m = \<lparr>experiment_name = e, run_id = r, sequence_id = int (dec_val q)\<rparr>"
    unfolding parse_Some_iff by blast
  from form have q: "q \<noteq> []" "list_all is_digit q"
    unfolding body_form_def by blast+
  from c have n: "sequence_id (correlation m) = int (dec_val q)" by simp
  have "dec_val q < 10 ^ length q" using q(2) by (intro dec_val_bound)
  with q(1) have "length (dec (dec_val q)) \<le> length q"
    by (intro dec_length_bound) simp_all
  with len have "length (dec (nat (sequence_id (correlation m)))) \<le> max_str_digits"
    by (simp add: n)
  then show thesis by (intro that) (simp add: sequence_token_Inr)
qed

lemma parsed_txn_id:
  assumes "parse b = Inr (Some m)"
  obtains t where "txn_id (correlation m) ''response'' = Inr t"
proof -
  from assms obtain q where "sequence_token (correlation m) = Inr q"
    by (rule parsed_sequence_token)
  then show thesis by (intro that) (simp add: txn_id_def)
qed

lemma controlled_inbound_request:
  assumes "parse b = Inr (Some m)" and "is_request m"
  obtains i where "controlled_inbound e s b = Inr (Some i)"
    "correlation_key i = key (correlation m)" "message (execution i) = Some m"
proof -
  from assms(1) obtain t where "txn_id (correlation m) ''response'' = Inr t"
    by (rule parsed_txn_id)
  with assms that show thesis by (simp add: controlled_inbound_Some)
qed

lemma deterministic_decide_request:
  assumes "is_request m"
  shows "deterministic_decide bb \<lparr>request_text = t, message = Some m\<rparr> =
    (case build_ack (correlation m) bb of Inl e \<Rightarrow> Inl e | Inr body \<Rightarrow> Inr (Some body))"
proof (cases "build_ack (correlation m) bb")
  case (Inr body)
  have "assert_body_length body n = Inr ()" if "bb = Some n" for n
    using Inr that by (auto simp: build_ack_def rbind_eq_Inr assert_body_length_def dest: pad_length)
  with Inr assms show ?thesis
    by (simp add: deterministic_decide_def is_request_def split: option.splits)
qed (use assms in \<open>simp add: deterministic_decide_def is_request_def\<close>)

lemma build_ack_parsed_unpadded:
  assumes "parse b = Inr (Some m)"
  obtains body where "build_ack (correlation m) None = Inr body"
proof -
  from assms obtain q where "sequence_token (correlation m) = Inr q"
    by (rule parsed_sequence_token)
  then show thesis by (intro that) (simp add: build_ack_def envelope_def pad_def)
qed

lemma ack_correlates:
  assumes "parse b = Inr (Some m)" and "build_ack (correlation m) bb = Inr body"
  shows "\<exists>m'. parse body = Inr (Some m') \<and> is_ack m' \<and> key (correlation m') = key (correlation m)"
proof -
  from assms(2) obtain env where "envelope ACK_KEYWORD (correlation m) = Inr env"
    and "pad env bb = Inr body"
    by (auto simp: build_ack_def rbind_eq_Inr)
  from pad_parse [OF this(1) parse_wf_correlation [OF assms(1)] _ this(2)]
  show ?thesis by (simp add: is_ack_def key_def)
qed

section \<open>Properties\<close>

text \<open>
  The deterministic executor answers every parsed REQUEST, and only requests: its
  reply, padded or not, parses as an ACK with the request's correlation key, and is
  exactly the frozen size when one is set. Unpadded it always answers; padded it refuses
  with \<open>MessageFormatError\<close> when the envelope does not fit.
\<close>

theorem deterministic_ack_correlates:
  assumes "parse b = Inr (Some m)"
  shows "(\<not> is_request m \<longrightarrow> deterministic_decide bb \<lparr>request_text = b, message = Some m\<rparr> = Inr None) \<and>
    (is_request m \<longrightarrow> (\<exists>reply. deterministic_decide None \<lparr>request_text = b, message = Some m\<rparr> = Inr (Some reply))) \<and>
    (\<forall>reply. deterministic_decide bb \<lparr>request_text = b, message = Some m\<rparr> = Inr (Some reply) \<longrightarrow>
      (\<exists>m'. parse reply = Inr (Some m') \<and> is_ack m' \<and> key (correlation m') = key (correlation m)) \<and>
      (\<forall>n. bb = Some n \<longrightarrow> int (utf8_len reply) = n))"
proof (cases "is_request m")
  case True
  obtain ack where "build_ack (correlation m) None = Inr ack"
    using assms by (rule build_ack_parsed_unpadded)
  moreover have "int (utf8_len reply) = n" if "build_ack (correlation m) (Some n) = Inr reply" for n reply
    using that by (auto simp: build_ack_def rbind_eq_Inr dest: pad_length)
  ultimately show ?thesis
    using True ack_correlates [OF assms]
    by (auto simp: deterministic_decide_request split: sum.splits)
next
  case False
  then show ?thesis by (simp add: deterministic_decide_def is_request_def)
qed

theorem deterministic_ack_correlates_witness:
  "\<exists>m'. parse ''FAM/1 ACK E3 r1 00007 xxxx'' = Inr (Some m') \<and> is_ack m' \<and>
     key (correlation m') = (''E3'', ''r1'', 7)"
proof -
  let ?m = "\<lparr>kind = ''REQUEST'', correlation = \<lparr>experiment_name = ''E3'', run_id = ''r1'',
    sequence_id = 7\<rparr>, padded = False\<rparr>"
  have p: "parse ''FAM/1 REQUEST E3 r1 7'' = Inr (Some ?m)" by code_simp
  have d: "deterministic_decide (Some 26) \<lparr>request_text = ''FAM/1 REQUEST E3 r1 7'', message = Some ?m\<rparr>
      = Inr (Some ''FAM/1 ACK E3 r1 00007 xxxx'')" by code_simp
  have k: "key (correlation ?m) = (''E3'', ''r1'', 7)" by code_simp
  from deterministic_ack_correlates [OF p, of "Some 26"] d k show ?thesis by simp
qed

text \<open>
  In both protocols there are never more reply transactions than logical requests: over
  any finite set of events, the number of distinct reply transaction ids is at most the
  number of distinct correlation keys, so an answer sent again for a key is the same
  transaction.
\<close>

theorem reply_transactions_bounded:
  assumes "finite evs" and "build_protocol sha name agent = Inr inb"
  shows "card {response_txn_id i | e s b i. (e, s, b) \<in> evs \<and> inb e s b = Inr (Some i)} \<le>
         card {correlation_key i | e s b i. (e, s, b) \<in> evs \<and> inb e s b = Inr (Some i)}"
proof -
  from assms(2) consider "inb = controlled_inbound" | "inb = natural_inbound sha agent"
    by (auto simp: build_protocol_def split: if_splits)
  then show ?thesis
  proof cases
    case 1
    with controlled.txns_le_keys [OF assms(1)] show ?thesis
      by (simp add: controlled.txns_def controlled.keys_def)
  next
    case 2
    with natural.txns_le_keys [OF assms(1)] show ?thesis
      by (simp add: natural.txns_def natural.keys_def)
  qed
qed

theorem reply_transactions_bounded_witness:
  "card {response_txn_id i | e s b i. (e, s, b) \<in> {(''$1'', ''@h'', ''hi'')} \<and>
      natural_inbound id ''@a'' e s b = Inr (Some i)} \<le>
   card {correlation_key i | e s b i. (e, s, b) \<in> {(''$1'', ''@h'', ''hi'')} \<and>
      natural_inbound id ''@a'' e s b = Inr (Some i)}"
  by (rule reply_transactions_bounded [of _ id NATURAL_LANGUAGE])
    (simp_all add: build_protocol_def CONTROLLED_def NATURAL_LANGUAGE_def)

end
