(* ===== verification/Recovery.thy ===== *)
theory Recovery
  imports Once
begin

text \<open>
  \<^verbatim>\<open>src/fam/agent/recovery.py\<close>: the ledger of a restarted agent. It records by which path
  each request was first seen, counts repeated observations, and lets each event be
  processed once. Python sets are HOL sets, the dictionary of observations an
  association list in insertion order.
\<close>

datatype source = SYNC | HISTORY

record observation =
  obs_event_id :: string
  first_source :: source
  times_observed :: nat

definition duplicate_observation :: "observation \<Rightarrow> bool" where
  "duplicate_observation item \<longleftrightarrow> times_observed item > 1"

record recovery_ledger =
  observations :: "(string, observation) dict"
  processed :: "string set"
  limited_timeline :: bool
  ledger_prev_batch :: "string option"
  pagination_invoked :: bool
  history_pages_fetched :: nat

definition empty_ledger :: recovery_ledger where
  "empty_ledger = \<lparr>observations = [], processed = {}, limited_timeline = False,
     ledger_prev_batch = None, pagination_invoked = False, history_pages_fetched = 0\<rparr>"

text \<open>\<open>observe\<close>: the updated ledger, and whether this was the first sighting.\<close>

definition observe :: "recovery_ledger \<Rightarrow> string \<Rightarrow> source \<Rightarrow> recovery_ledger \<times> bool" where
  "observe l event_id src =
     (case map_of (observations l) event_id of
        None \<Rightarrow>
          (l\<lparr>observations := AList.update event_id
               \<lparr>obs_event_id = event_id, first_source = src, times_observed = 1\<rparr> (observations l)\<rparr>, True)
      | Some existing \<Rightarrow>
          (l\<lparr>observations := AList.update event_id
               (existing\<lparr>times_observed := times_observed existing + 1\<rparr>) (observations l)\<rparr>, False))"

definition note_pagination :: "recovery_ledger \<Rightarrow> nat \<Rightarrow> recovery_ledger" where
  "note_pagination l pages = l\<lparr>pagination_invoked := True,
     history_pages_fetched := history_pages_fetched l + pages\<rparr>"

definition recovered_event_ids :: "recovery_ledger \<Rightarrow> string set" where
  "recovered_event_ids l = fst ` set (observations l)"

definition from_sync :: "recovery_ledger \<Rightarrow> string set" where
  "from_sync l = fst ` set (filter (\<lambda>(k, item). first_source item = SYNC) (observations l))"

definition from_history :: "recovery_ledger \<Rightarrow> string set" where
  "from_history l = fst ` set (filter (\<lambda>(k, item). first_source item = HISTORY) (observations l))"

definition duplicate_observation_count :: "recovery_ledger \<Rightarrow> nat" where
  "duplicate_observation_count l =
     sum_list (map (\<lambda>(k, item). times_observed item - 1)
       (filter (\<lambda>(k, item). times_observed item > 1) (observations l)))"

definition should_process :: "recovery_ledger \<Rightarrow> string \<Rightarrow> bool" where
  "should_process l event_id \<longleftrightarrow> event_id \<notin> processed l"

definition mark_processed :: "recovery_ledger \<Rightarrow> string \<Rightarrow> recovery_ledger" where
  "mark_processed l event_id = l\<lparr>processed := insert event_id (processed l)\<rparr>"

definition ledger_processed_count :: "recovery_ledger \<Rightarrow> nat" where
  "ledger_processed_count l = card (processed l)"

record ledger_summary =
  s_limited_timeline :: bool
  s_prev_batch_present :: bool
  s_pagination_invoked :: bool
  s_history_pages_fetched :: nat
  s_recovered_total :: nat
  s_recovered_from_sync :: nat
  s_recovered_from_history :: nat
  s_duplicate_observations :: nat
  s_logically_processed :: nat

definition summary :: "recovery_ledger \<Rightarrow> ledger_summary" where
  "summary l = \<lparr>s_limited_timeline = limited_timeline l,
     s_prev_batch_present = (ledger_prev_batch l \<noteq> None),
     s_pagination_invoked = pagination_invoked l,
     s_history_pages_fetched = history_pages_fetched l,
     s_recovered_total = length (observations l),
     s_recovered_from_sync = card (from_sync l),
     s_recovered_from_history = card (from_history l),
     s_duplicate_observations = duplicate_observation_count l,
     s_logically_processed = ledger_processed_count l\<rparr>"

record comparison =
  sent_count :: nat
  recovered_count :: nat
  missing_from_recovery :: "string list"
  unexpected_in_recovery :: "string list"
  sets_equal :: bool

definition compare_sets :: "string set \<Rightarrow> string set \<Rightarrow> comparison" where
  "compare_sets sent recovered =
     (let missing = sent - recovered; unexpected = recovered - sent in
      \<lparr>sent_count = card sent, recovered_count = card recovered,
       missing_from_recovery = sorted_list_of_set missing,
       unexpected_in_recovery = sorted_list_of_set unexpected,
       sets_equal = (missing = {} \<and> unexpected = {})\<rparr>)"

section \<open>The ledger's processed set is a guard\<close>

interpretation ledger: named_guard should_process mark_processed "\<lambda>event_id. event_id"
  by unfold_locales (auto simp: should_process_def mark_processed_def)

section \<open>Lemmas\<close>

text \<open>What every ledger the operations build satisfies.\<close>

definition ledger_ok :: "recovery_ledger \<Rightarrow> bool" where
  "ledger_ok l \<longleftrightarrow> dict_ok (observations l) \<and>
     (\<forall>k item. map_of (observations l) k = Some item \<longrightarrow> obs_event_id item = k \<and> times_observed item \<ge> 1)"

text \<open>Every sighting so far, counted with repetition.\<close>

definition sightings :: "recovery_ledger \<Rightarrow> nat" where
  "sightings l = sum_list (map (times_observed \<circ> snd) (observations l))"

lemma ledger_ok_empty [wf_intros]: "ledger_ok empty_ledger"
  by (simp add: ledger_ok_def empty_ledger_def)

lemma observe_ok [step_inv]: "ledger_ok l \<Longrightarrow> ledger_ok (fst (observe l e s))"
  by (auto simp: ledger_ok_def observe_def split: option.splits)

lemma observe_snd: "snd (observe l e s) \<longleftrightarrow> e \<notin> recovered_event_ids l"
proof -
  have "e \<in> recovered_event_ids l \<longleftrightarrow> map_of (observations l) e \<noteq> None"
    by (simp add: recovered_event_ids_def map_of_eq_None_iff)
  then show ?thesis by (auto simp: observe_def split: option.splits)
qed

lemma observe_ids: "recovered_event_ids (fst (observe l e s)) = insert e (recovered_event_ids l)"
  by (auto simp: observe_def recovered_event_ids_def keys_update split: option.splits)

lemma observe_sightings: "sightings (fst (observe l e s)) = Suc (sightings l)"
proof (cases "map_of (observations l) e")
  case None
  then have "e \<notin> fst ` set (observations l)" by (simp add: map_of_eq_None_iff)
  with None show ?thesis by (simp add: observe_def sightings_def update_new)
next
  case (Some item)
  with sum_list_update_old [OF Some, of times_observed "item\<lparr>times_observed := times_observed item + 1\<rparr>"]
  show ?thesis by (simp add: observe_def sightings_def)
qed

lemma observe_length:
  "length (observations (fst (observe l e s))) =
     length (observations l) + (if snd (observe l e s) then 1 else 0)"
  by (auto simp: observe_def length_update_new length_update_old split: option.splits)

lemma sightings_split:
  assumes "ledger_ok l"
  shows "sightings l = length (observations l) + duplicate_observation_count l"
proof -
  have "\<forall>(k, item) \<in> set d. times_observed item \<ge> 1 \<Longrightarrow>
    sum_list (map (times_observed \<circ> snd) d) = length d +
      sum_list (map (\<lambda>(k, item). times_observed item - 1) (filter (\<lambda>(k, item). times_observed item > 1) d))"
    for d :: "(string, observation) dict"
    by (induction d) (auto simp: not_less)
  moreover have "\<forall>(k, item) \<in> set (observations l). times_observed item \<ge> 1"
    using assms unfolding ledger_ok_def by (auto simp: dict_ok_def)
  ultimately show ?thesis by (simp add: sightings_def duplicate_observation_count_def)
qed

text \<open>A run of sightings, as \<open>recover\<close> makes them.\<close>

fun observe_all :: "recovery_ledger \<Rightarrow> (string \<times> source) list \<Rightarrow> recovery_ledger" where
  "observe_all l [] = l"
| "observe_all l ((e, s) # os) = observe_all (fst (observe l e s)) os"

lemma observe_all_ok [step_inv]: "ledger_ok l \<Longrightarrow> ledger_ok (observe_all l os)"
  by (induction l os rule: observe_all.induct) (simp_all add: observe_ok)

lemma observe_all_sightings: "sightings (observe_all l os) = sightings l + length os"
  by (induction l os rule: observe_all.induct) (simp_all add: observe_sightings)

lemma observe_frame [step_frame]:
  "processed (fst (observe l e s)) = processed l"
  "pagination_invoked (fst (observe l e s)) = pagination_invoked l"
  by (simp_all add: observe_def split: option.splits)

lemma observe_all_map:
  "map_of (observations (observe_all l os)) e =
     (case map_of (observations l) e of
        Some item \<Rightarrow> Some (item\<lparr>times_observed := times_observed item + count_list (map fst os) e\<rparr>)
      | None \<Rightarrow> map_option (\<lambda>s. \<lparr>obs_event_id = e, first_source = s,
          times_observed = count_list (map fst os) e\<rparr>) (map_of os e))"
proof (induction l os rule: observe_all.induct)
  case (2 l e' s os)
  then show ?case by (auto simp: observe_def split: option.splits)
qed (simp split: option.splits)

lemma observe_all_empty:
  "map_of (observations (observe_all empty_ledger os)) e =
     map_option (\<lambda>s. \<lparr>obs_event_id = e, first_source = s,
       times_observed = count_list (map fst os) e\<rparr>) (map_of os e)"
  by (simp add: observe_all_map empty_ledger_def)

lemma from_source_map_of:
  assumes "ledger_ok l"
  shows "from_sync l = {e. \<exists>item. map_of (observations l) e = Some item \<and> first_source item = SYNC}"
    and "from_history l = {e. \<exists>item. map_of (observations l) e = Some item \<and> first_source item = HISTORY}"
  using assms
  by (force simp: from_sync_def from_history_def ledger_ok_def dict_ok_snd_inj [symmetric])+

lemma card_recovered: "ledger_ok l \<Longrightarrow> card (recovered_event_ids l) = length (observations l)"
  using distinct_card [of "map fst (observations l)"]
  by (simp add: recovered_event_ids_def ledger_ok_def dict_ok_def)

section \<open>Properties\<close>

text \<open>
  C4: After any run of sightings the ledger names exactly the events seen, each once; the
  ids first seen by sync and those first seen in history split them, according to the
  first sighting of each; and the duplicate count of the summary is the number of
  sightings beyond the first, so nothing seen is unaccounted for.
\<close>

theorem ledger_accounts_for_sightings:
  "recovered_event_ids (observe_all empty_ledger os) = fst ` set os \<and>
   from_sync (observe_all empty_ledger os) = {e. map_of os e = Some SYNC} \<and>
   from_history (observe_all empty_ledger os) = {e. map_of os e = Some HISTORY} \<and>
   s_recovered_total (summary (observe_all empty_ledger os)) +
     s_duplicate_observations (summary (observe_all empty_ledger os)) = length os \<and>
   s_recovered_total (summary (observe_all empty_ledger os)) =
     s_recovered_from_sync (summary (observe_all empty_ledger os)) +
     s_recovered_from_history (summary (observe_all empty_ledger os))"
proof -
  let ?l = "observe_all empty_ledger os"
  have ok: "ledger_ok ?l" by (intro observe_all_ok ledger_ok_empty)
  have "e \<in> recovered_event_ids ?l \<longleftrightarrow> e \<in> fst ` set os" for e
  proof -
    have "e \<in> recovered_event_ids ?l \<longleftrightarrow> map_of (observations ?l) e \<noteq> None"
      by (simp add: recovered_event_ids_def map_of_eq_None_iff)
    then show ?thesis by (simp add: observe_all_empty map_of_eq_None_iff)
  qed
  then have ids: "recovered_event_ids ?l = fst ` set os" by blast
  have sync: "from_sync ?l = {e. map_of os e = Some SYNC}"
    and hist: "from_history ?l = {e. map_of os e = Some HISTORY}"
    by (auto simp: from_source_map_of [OF ok] observe_all_empty)
  have "fst ` set os = from_sync ?l \<union> from_history ?l"
  proof (intro set_eqI)
    fix e
    have "e \<in> fst ` set os \<longleftrightarrow> map_of os e \<noteq> None" by (simp add: map_of_eq_None_iff)
    also have "\<dots> \<longleftrightarrow> map_of os e = Some SYNC \<or> map_of os e = Some HISTORY"
      by (metis option.distinct(1) option.exhaust source.exhaust)
    finally show "e \<in> fst ` set os \<longleftrightarrow> e \<in> from_sync ?l \<union> from_history ?l"
      by (simp add: sync hist)
  qed
  moreover have "from_sync ?l \<inter> from_history ?l = {}"
    by (auto simp: sync hist)
  moreover have "finite (from_sync ?l)" "finite (from_history ?l)"
    by (simp_all add: from_sync_def from_history_def)
  ultimately have "card (fst ` set os) = card (from_sync ?l) + card (from_history ?l)"
    by (simp add: card_Un_disjoint)
  then show ?thesis
    using ids sync hist sightings_split [OF ok] card_recovered [OF ok]
      observe_all_sightings [of empty_ledger os]
    by (simp add: summary_def sightings_def [of empty_ledger] empty_ledger_def [THEN arg_cong [where f = observations]])
qed

text \<open>
  The comparison never reports equality by count: it says equal exactly when the two
  sets are, and its lists are the two differences, sorted and without repetition.
\<close>

theorem comparison_exact:
  assumes "finite sent" and "finite recovered"
  shows "(sets_equal (compare_sets sent recovered) \<longleftrightarrow> sent = recovered) \<and>
    set (missing_from_recovery (compare_sets sent recovered)) = sent - recovered \<and>
    set (unexpected_in_recovery (compare_sets sent recovered)) = recovered - sent \<and>
    sorted (missing_from_recovery (compare_sets sent recovered)) \<and>
    sorted (unexpected_in_recovery (compare_sets sent recovered)) \<and>
    sent_count (compare_sets sent recovered) + length (unexpected_in_recovery (compare_sets sent recovered)) =
    recovered_count (compare_sets sent recovered) + length (missing_from_recovery (compare_sets sent recovered))"
proof -
  have "card sent + card (recovered - sent) = card recovered + card (sent - recovered)"
    using assms by (metis Un_commute Un_Diff_cancel add.commute card_Un_disjoint Diff_disjoint finite_Diff)
  moreover have "finite (sent - recovered)" "finite (recovered - sent)" using assms by simp_all
  moreover have "sent - recovered = {} \<and> recovered - sent = {} \<longleftrightarrow> sent = recovered" by blast
  ultimately show ?thesis by (simp only: compare_sets_def Let_def comparison.simps set_sorted_list_of_set sorted_sorted_list_of_set sorted_list_of_set.length_sorted_key_list_of_set simp_thms)
qed

theorem comparison_exact_witness:
  "missing_from_recovery (compare_sets {''$a'', ''$b''} {''$b'', ''$c''}) = [''$a''] \<and>
   \<not> sets_equal (compare_sets {''$a'', ''$b''} {''$b'', ''$c''})"
proof -
  have ne: "{''$a'', ''$b''} \<noteq> {''$b'', ''$c''}"
  proof -
    have "''$a'' \<in> {''$a'', ''$b''}" "''$a'' \<notin> {''$b'', ''$c''}" by simp_all
    then show ?thesis by metis
  qed
  have d: "{''$a'', ''$b''} - {''$b'', ''$c''} = {''$a''}" by (simp add: insert_Diff_if)
  have "finite {''$a'', ''$b''}" "finite {''$b'', ''$c''}" by simp_all
  from comparison_exact [OF this] ne have "\<not> sets_equal (compare_sets {''$a'', ''$b''} {''$b'', ''$c''})"
    by blast
  moreover have "missing_from_recovery (compare_sets {''$a'', ''$b''} {''$b'', ''$c''}) = [''$a'']"
    by (simp add: compare_sets_def Let_def d)
  ultimately show ?thesis by blast
qed

end
