(* ===== verification/Client.thy ===== *)
theory Client
  imports Once Frozen
begin

text \<open>
  \<^verbatim>\<open>src/fam/matrix/client.py\<close>: the Matrix participant. What the homeserver answers is a
  \<open>homeserver\<close> record of functions, an argument of every operation that makes a request;
  its answers arrive decoded (matrix-nio and the JSON library do that), so tokens and
  identifiers are strings and absent fields are \<open>None\<close>. The clock is a function of the
  number of readings taken.
\<close>

section \<open>Exceptions and data\<close>

datatype exn = MatrixError | MatrixRequestRejected string | RecoveryBoundExceeded
  | KeyError | ValueError | RuntimeError

text \<open>An operation that changes a state and may raise: the state it leaves, and what it raised.\<close>

type_synonym 's effect = "'s \<times> exn option"

fun is_matrix_error :: "exn \<Rightarrow> bool" where
  "is_matrix_error MatrixError = True"
| "is_matrix_error (MatrixRequestRejected _) = True"
| "is_matrix_error RecoveryBoundExceeded = True"
| "is_matrix_error _ = False"

definition rate_limited :: "exn \<Rightarrow> bool" where
  "rate_limited e \<longleftrightarrow> e = MatrixRequestRejected ''M_LIMIT_EXCEEDED''"

record timeline_event =
  ev_room :: string
  ev_id :: string
  ev_sender :: string
  ev_body :: string
  ev_ts :: int

record room_sync_slice =
  slice_room :: string
  slice_events :: "timeline_event list"
  slice_limited :: bool
  slice_prev_batch :: "string option"
  raw_event_count :: nat

record sync_snapshot =
  next_batch :: string
  snapshot_rooms :: "room_sync_slice list"

definition snapshot_room :: "sync_snapshot \<Rightarrow> string \<Rightarrow> room_sync_slice option" where
  "snapshot_room snap room = find (\<lambda>item. slice_room item = room) (snapshot_rooms snap)"

text \<open>
  An event as a \<open>/messages\<close> page has it: \<open>raw_body\<close> is \<open>content.body\<close> where that is a
  string. An event as matrix-nio has it: its own \<open>body\<close>, if any, and the source's.
\<close>

record raw_event =
  raw_type :: "string option"
  raw_body :: "string option"
  raw_room :: "string option"
  raw_id :: "string option"
  raw_sender :: "string option"
  raw_ts :: "int option"

record nio_event =
  nio_body :: "string option"
  nio_source_body :: "string option"
  nio_id :: string
  nio_sender :: string
  nio_ts :: int

record nio_timeline =
  nio_room :: string
  nio_events :: "nio_event list"
  nio_limited :: bool
  nio_prev_batch :: "string option"

type_synonym page = "raw_event list \<times> string option"

text \<open>
  The homeserver: \<open>/sync\<close> from a token under a timeline limit (no value where matrix-nio
  returns an error response), \<open>/messages\<close> of a room from and to a token with a page size,
  \<open>/send\<close> (an error code or the event id), and \<open>/join\<close> at each attempt.
\<close>

record homeserver =
  hs_sync :: "string option \<Rightarrow> nat option \<Rightarrow> (string \<times> nio_timeline list) option"
  hs_messages :: "string \<Rightarrow> string option \<Rightarrow> string option \<Rightarrow> nat \<Rightarrow> exn + page"
  hs_send :: "string \<Rightarrow> string \<Rightarrow> string \<Rightarrow> string + string"
  hs_join :: "string \<Rightarrow> nat \<Rightarrow> bool"

record episode =
  recovery_episode :: nat
  recovery_trigger :: string
  ep_room_id :: string
  previous_checkpoint_present :: bool
  sync_limited :: bool
  direct_from_sync :: nat
  ep_history_pages_fetched :: nat
  recovered_from_history :: nat
  duplicate_observations :: nat
  reconciled_unique_events :: nat

record episode_log_entry =
  log_episode :: nat
  log_room :: string
  log_started_ns :: int
  log_reconciled_ns :: int
  log_pages :: nat
  log_from_history :: nat

record participant =
  sync_token :: "string option"
  timeline_limit :: "nat option"
  tracked_rooms :: "string set"
  gap_recovery_enabled :: bool
  episode_counter :: nat
  live_recovery_failures :: nat
  live_recovery_episodes :: nat
  live_history_pages :: nat
  limited_syncs_observed :: nat
  sync_slices_observed :: nat
  max_timeline_events_observed :: nat
  max_message_events_observed :: nat
  current_recovery_episode :: "nat option"
  recovery_episode_log :: "episode_log_entry list"
  sync_timeout_ms :: nat
  clock_readings :: nat

definition new_participant :: "nat option \<Rightarrow> nat \<Rightarrow> participant" where
  "new_participant limit timeout_ms = \<lparr>sync_token = None, timeline_limit = limit, tracked_rooms = {},
     gap_recovery_enabled = True, episode_counter = 0, live_recovery_failures = 0,
     live_recovery_episodes = 0, live_history_pages = 0, limited_syncs_observed = 0,
     sync_slices_observed = 0, max_timeline_events_observed = 0,
     max_message_events_observed = 0, current_recovery_episode = None,
     recovery_episode_log = [], sync_timeout_ms = timeout_ms, clock_readings = 0\<rparr>"

text \<open>The truth value of a token that may be absent or empty.\<close>

fun truthy :: "string option \<Rightarrow> bool" where
  "truthy (Some t) \<longleftrightarrow> t \<noteq> []"
| "truthy None \<longleftrightarrow> False"

section \<open>Requests\<close>

text \<open>\<open>join\<close>: retried while a federated invite may still be in flight.\<close>

fun join_from :: "(nat \<Rightarrow> bool) \<Rightarrow> nat \<Rightarrow> nat \<Rightarrow> exn + nat" where
  "join_from ok attempt 0 = Inl MatrixError"
| "join_from ok attempt (Suc left) =
     (if ok attempt then Inr attempt else join_from ok (Suc attempt) left)"

definition join_room :: "homeserver \<Rightarrow> string \<Rightarrow> nat \<Rightarrow> exn + nat" where
  "join_room hs room attempts = join_from (hs_join hs room) 0 attempts"

definition send_text :: "homeserver \<Rightarrow> string \<Rightarrow> string \<Rightarrow> string \<Rightarrow> exn + string" where
  "send_text hs room body txn =
     (case hs_send hs room body txn of
        Inl errcode \<Rightarrow> Inl (MatrixRequestRejected errcode)
      | Inr event_id \<Rightarrow> Inr event_id)"

fun fetch_all_loop ::
  "(string option \<Rightarrow> exn + page) \<Rightarrow> nat \<Rightarrow> string option \<Rightarrow> raw_event list \<Rightarrow> exn + raw_event list" where
  "fetch_all_loop fetch 0 token evs = Inr evs"
| "fetch_all_loop fetch (Suc n) token evs =
     rbind (fetch token) (\<lambda>(chunk, end_token).
       if chunk = [] \<or> \<not> truthy end_token then Inr (evs @ chunk)
       else fetch_all_loop fetch n end_token (evs @ chunk))"

definition fetch_all_messages :: "homeserver \<Rightarrow> string \<Rightarrow> nat \<Rightarrow> nat \<Rightarrow> exn + raw_event list" where
  "fetch_all_messages hs room page_limit max_pages =
     fetch_all_loop (\<lambda>token. hs_messages hs room (if truthy token then token else None) None page_limit)
       max_pages None []"

text \<open>\<open>paginate_backwards\<close>: the loop's bound is its number of rounds.\<close>

definition at_boundary :: "string option \<Rightarrow> page \<Rightarrow> bool" where
  "at_boundary to pg = (let (chunk, end_token) = pg in
     chunk = [] \<or> \<not> truthy end_token \<or> (truthy to \<and> end_token = to))"

fun paginate_loop ::
  "(string \<Rightarrow> exn + page) \<Rightarrow> string option \<Rightarrow> nat \<Rightarrow> string \<Rightarrow> raw_event list \<Rightarrow> nat \<Rightarrow>
   exn + raw_event list \<times> nat" where
  "paginate_loop fetch to 0 token evs pages = Inl RecoveryBoundExceeded"
| "paginate_loop fetch to (Suc n) token evs pages =
     rbind (fetch token) (\<lambda>pg.
       if at_boundary to pg then Inr (evs @ fst pg, pages + 1)
       else paginate_loop fetch to n (the (snd pg)) (evs @ fst pg) (pages + 1))"

definition history_page :: "homeserver \<Rightarrow> string \<Rightarrow> string option \<Rightarrow> nat \<Rightarrow> string \<Rightarrow> exn + page" where
  "history_page hs room to page_limit token =
     hs_messages hs room (Some token) (if truthy to then to else None) page_limit"

definition paginate_backwards ::
  "homeserver \<Rightarrow> string \<Rightarrow> string \<Rightarrow> string option \<Rightarrow> nat \<Rightarrow> nat \<Rightarrow> exn + raw_event list \<times> nat" where
  "paginate_backwards hs room start to page_limit max_pages =
     paginate_loop (history_page hs room to page_limit) to max_pages start [] 0"

section \<open>One sync\<close>

definition to_timeline_event :: "string \<Rightarrow> nio_event \<Rightarrow> timeline_event option" where
  "to_timeline_event room e =
     (case (if nio_body e = None then nio_source_body e else nio_body e) of
        None \<Rightarrow> None
      | Some body \<Rightarrow> Some \<lparr>ev_room = room, ev_id = nio_id e, ev_sender = nio_sender e,
                          ev_body = body, ev_ts = nio_ts e\<rparr>)"

definition slice_of :: "nio_timeline \<Rightarrow> room_sync_slice" where
  "slice_of t = \<lparr>slice_room = nio_room t,
     slice_events = List.map_filter (to_timeline_event (nio_room t)) (nio_events t),
     slice_limited = nio_limited t, slice_prev_batch = nio_prev_batch t,
     raw_event_count = length (nio_events t)\<rparr>"

definition note_slice :: "nio_timeline \<Rightarrow> participant \<Rightarrow> participant" where
  "note_slice t p = p\<lparr>
     max_timeline_events_observed := max (max_timeline_events_observed p) (length (nio_events t)),
     max_message_events_observed :=
       max (max_message_events_observed p) (length (slice_events (slice_of t))),
     sync_slices_observed := sync_slices_observed p + 1\<rparr>"

definition sync_once ::
  "homeserver \<Rightarrow> string option \<Rightarrow> nat option \<Rightarrow> participant \<Rightarrow> participant \<times> (exn + sync_snapshot)" where
  "sync_once hs since limit p =
     (case hs_sync hs since limit of
        None \<Rightarrow> (p, Inl MatrixError)
      | Some (batch, joined) \<Rightarrow>
          (fold note_slice joined p,
           Inr \<lparr>next_batch = batch, snapshot_rooms = map slice_of joined\<rparr>))"

definition prime_sync :: "homeserver \<Rightarrow> participant \<Rightarrow> participant \<times> exn option" where
  "prime_sync hs p =
     (case sync_once hs None (Some 0) p of
        (p', Inl e) \<Rightarrow> (p', Some e)
      | (p', Inr snap) \<Rightarrow> (p'\<lparr>sync_token := Some (next_batch snap)\<rparr>, None))"

section \<open>Reconciling a limited timeline with history\<close>

definition from_raw_event :: "string \<Rightarrow> raw_event \<Rightarrow> exn + timeline_event option" where
  "from_raw_event room raw =
     (if raw_type raw \<noteq> Some MESSAGE_EVENT_TYPE then Inr None
      else case raw_body raw of
        None \<Rightarrow> Inr None
      | Some body \<Rightarrow>
          (case raw_id raw of
             None \<Rightarrow> Inl KeyError
           | Some eid \<Rightarrow> Inr (Some \<lparr>
               ev_room = (if truthy (raw_room raw) then the (raw_room raw) else room),
               ev_id = eid,
               ev_sender = (case raw_sender raw of None \<Rightarrow> [] | Some s \<Rightarrow> s),
               ev_body = body,
               ev_ts = (case raw_ts raw of None \<Rightarrow> 0 | Some t \<Rightarrow> t)\<rparr>)))"

type_synonym merged = "(string, timeline_event) dict"

fun merge_direct :: "merged \<Rightarrow> nat \<Rightarrow> timeline_event list \<Rightarrow> merged \<times> nat" where
  "merge_direct m dups [] = (m, dups)"
| "merge_direct m dups (e # es) =
     (if map_of m (ev_id e) \<noteq> None then merge_direct m (dups + 1) es
      else merge_direct (AList.update (ev_id e) e m) dups es)"

fun merge_history ::
  "string \<Rightarrow> merged \<Rightarrow> nat \<Rightarrow> nat \<Rightarrow> raw_event list \<Rightarrow> exn + merged \<times> nat \<times> nat" where
  "merge_history room m dups found [] = Inr (m, dups, found)"
| "merge_history room m dups found (raw # raws) =
     rbind (from_raw_event room raw) (\<lambda>ev.
       case ev of
         None \<Rightarrow> merge_history room m dups found raws
       | Some e \<Rightarrow>
           if map_of m (ev_id e) \<noteq> None then merge_history room m (dups + 1) found raws
           else merge_history room (AList.update (ev_id e) e m) dups (found + 1) raws)"

definition PAGE_LIMIT :: nat where "PAGE_LIMIT = 100"

definition MAX_PAGES :: nat where "MAX_PAGES = 50"

definition reconcile_slice ::
  "homeserver \<Rightarrow> room_sync_slice \<Rightarrow> string option \<Rightarrow> string \<Rightarrow> participant \<Rightarrow>
   participant \<times> (exn + timeline_event list \<times> episode)" where
  "reconcile_slice hs item since trigger p =
     (let p' = p\<lparr>episode_counter := episode_counter p + 1\<rparr>;
          (m, dups) = merge_direct [] 0 (slice_events item);
          gap = (if slice_limited item \<and> truthy (slice_prev_batch item)
                 then rbind (paginate_backwards hs (slice_room item) (the (slice_prev_batch item))
                               since PAGE_LIMIT MAX_PAGES)
                        (\<lambda>(raws, pages). rbind (merge_history (slice_room item) m dups 0 raws)
                           (\<lambda>(m', dups', found). Inr (m', dups', found, pages)))
                 else Inr (m, dups, 0, 0))
      in (p', rbind gap (\<lambda>(m', dups', found, pages).
           Inr (map snd m',
             \<lparr>recovery_episode = episode_counter p', recovery_trigger = trigger,
              ep_room_id = slice_room item, previous_checkpoint_present = (since \<noteq> None),
              sync_limited = slice_limited item, direct_from_sync = length (slice_events item),
              ep_history_pages_fetched = pages, recovered_from_history = found,
              duplicate_observations = dups', reconciled_unique_events = length m'\<rparr>))))"

section \<open>Transport diagnostics\<close>

text \<open>\<open>reset_transport_diagnostics\<close>: what the counters held, and the zeroed participant.\<close>

record transport_diagnostics =
  d_live_recovery_episodes :: nat
  d_live_recovery_pages :: nat
  d_live_recovery_failures :: nat
  d_limited_syncs_observed :: nat
  d_recovery_episode_log :: "episode_log_entry list"
  d_sync_slices_observed :: nat
  d_max_timeline_events_observed :: nat
  d_max_message_events_observed :: nat
  d_sync_timeline_limit :: "nat option"
  d_sync_timeout_ms :: nat

definition diagnostics_of :: "participant \<Rightarrow> transport_diagnostics" where
  "diagnostics_of p = \<lparr>d_live_recovery_episodes = live_recovery_episodes p,
     d_live_recovery_pages = live_history_pages p,
     d_live_recovery_failures = live_recovery_failures p,
     d_limited_syncs_observed = limited_syncs_observed p,
     d_recovery_episode_log = recovery_episode_log p,
     d_sync_slices_observed = sync_slices_observed p,
     d_max_timeline_events_observed = max_timeline_events_observed p,
     d_max_message_events_observed = max_message_events_observed p,
     d_sync_timeline_limit = timeline_limit p, d_sync_timeout_ms = sync_timeout_ms p\<rparr>"

definition reset_transport_diagnostics :: "participant \<Rightarrow> transport_diagnostics \<times> participant" where
  "reset_transport_diagnostics p = (diagnostics_of p, p\<lparr>
     live_recovery_episodes := 0, live_history_pages := 0, limited_syncs_observed := 0,
     sync_slices_observed := 0, max_timeline_events_observed := 0,
     max_message_events_observed := 0, live_recovery_failures := 0, recovery_episode_log := []\<rparr>)"

section \<open>Pagination is a walk of bounded length\<close>

text \<open>The walk through the pages that the bound cuts off: following each page's token.\<close>

inductive walk ::
  "(string \<Rightarrow> exn + page) \<Rightarrow> string option \<Rightarrow> string \<Rightarrow> raw_event list \<Rightarrow> nat \<Rightarrow> bool"
  for fetch :: "string \<Rightarrow> exn + page" and to :: "string option" where
  walk_last: "fetch t = Inr pg \<Longrightarrow> at_boundary to pg \<Longrightarrow> walk fetch to t (fst pg) 1"
| walk_more: "fetch t = Inr pg \<Longrightarrow> \<not> at_boundary to pg \<Longrightarrow> walk fetch to (the (snd pg)) rest n \<Longrightarrow>
    walk fetch to t (fst pg @ rest) (Suc n)"

inductive_cases walk_elim: "walk fetch to t evs n"

inductive_simps walk_none: "walk fetch to t evs 0"

lemma walk_step:
  assumes "fetch t = Inr pg"
  shows "walk fetch to t evs n \<longleftrightarrow>
    (if at_boundary to pg then evs = fst pg \<and> n = 1
     else \<exists>rest m. walk fetch to (the (snd pg)) rest m \<and> evs = fst pg @ rest \<and> n = Suc m)"
  using assms by (auto elim: walk_elim intro: walk_more walk_last [unfolded One_nat_def])

lemma walk_fails: "fetch t = Inl e \<Longrightarrow> \<not> walk fetch to t evs n"
  by (auto elim: walk_elim)

lemma walk_positive: "walk fetch to t evs n \<Longrightarrow> 0 < n"
  by (erule walk_elim) simp_all

lemma paginate_loop_iff:
  "paginate_loop fetch to n t evs pages = Inr (evs', k) \<longleftrightarrow>
     (\<exists>rest m. walk fetch to t rest m \<and> m \<le> n \<and> evs' = evs @ rest \<and> k = pages + m)"
proof (induction n arbitrary: t evs pages)
  case 0
  show ?case by (auto dest: walk_positive)
next
  case (Suc n)
  show ?case
  proof (cases "fetch t")
    case (Inl e)
    then show ?thesis by (simp add: walk_fails)
  next
    case (Inr pg)
    show ?thesis
    proof (cases "at_boundary to pg")
      case True
      with Inr show ?thesis by (auto simp: walk_step [of fetch t pg, OF Inr])
    next
      case False
      with Inr Suc.IH show ?thesis by (auto simp: walk_step [of fetch t pg, OF Inr])
    qed
  qed
qed

lemma paginate_loop_total:
  assumes "\<forall>t. returns (fetch t)"
  shows "paginate_loop fetch to n t evs pages = Inl e \<Longrightarrow> e = RecoveryBoundExceeded"
proof (induction n arbitrary: t evs pages)
  case (Suc n)
  from assms obtain pg where "fetch t = Inr pg" unfolding returns_def by blast
  with Suc show ?case by (auto split: if_splits)
qed simp

section \<open>Merging keeps the first sighting of each event\<close>

definition merge_fresh :: "merged \<Rightarrow> timeline_event \<Rightarrow> bool" where
  "merge_fresh m e \<longleftrightarrow> map_of m (ev_id e) = None"

definition merge_mark :: "merged \<Rightarrow> timeline_event \<Rightarrow> merged" where
  "merge_mark m e = AList.update (ev_id e) e m"

interpretation merge: named_guard merge_fresh merge_mark ev_id
  by unfold_locales (auto simp: merge_fresh_def merge_mark_def)

lemma merge_taken_Cons:
  "merge.taken m (e # es) =
     (if map_of m (ev_id e) = None then e # merge.taken (AList.update (ev_id e) e m) es
      else merge.taken m es)"
  using merge.taken.simps(2) [of m e es] by (simp only: merge_fresh_def merge_mark_def)

declare merge.taken.simps(2) [simp del] merge_taken_Cons [simp]

lemma merge_direct_taken:
  "merge_direct m dups es =
     (m @ map (\<lambda>e. (ev_id e, e)) (merge.taken m es), dups + length es - length (merge.taken m es)) \<and>
   length (merge.taken m es) \<le> length es"
proof (induction es arbitrary: m dups)
  case (Cons e es)
  show ?case
  proof (cases "map_of m (ev_id e)")
    case None
    then have "AList.update (ev_id e) e m = m @ [(ev_id e, e)]" by (rule update_none)
    with None Cons.IH [of "AList.update (ev_id e) e m"] show ?thesis by simp
  next
    case (Some x)
    with Cons.IH [of m] show ?thesis by (auto intro: le_SucI)
  qed
qed simp

text \<open>The message events of a run of raw events, or the exception the first bad one raises.\<close>

fun history_events :: "string \<Rightarrow> raw_event list \<Rightarrow> exn + timeline_event list" where
  "history_events room [] = Inr []"
| "history_events room (raw # raws) =
     rbind (from_raw_event room raw) (\<lambda>ev. rbind (history_events room raws) (\<lambda>es.
       Inr (case ev of None \<Rightarrow> es | Some e \<Rightarrow> e # es)))"

lemma history_events_set:
  "history_events room raws = Inr es \<Longrightarrow>
     set es = {e. \<exists>raw \<in> set raws. from_raw_event room raw = Inr (Some e)}"
  by (induction raws arbitrary: es) (auto simp: rbind_eq_Inr split: option.splits)

lemma from_raw_event_error: "from_raw_event room raw = Inl e \<Longrightarrow> e = KeyError"
  by (auto simp: from_raw_event_def split: if_splits option.splits)

lemma history_events_error: "history_events room raws = Inl e \<Longrightarrow> e = KeyError"
  by (induction raws) (auto simp: rbind_eq_Inl dest: from_raw_event_error)

lemma merge_history_direct:
  "merge_history room m dups found raws =
     rbind (history_events room raws) (\<lambda>es.
       Inr (fst (merge_direct m dups es), snd (merge_direct m dups es),
            found + length (merge.taken m es)))"
proof (induction raws arbitrary: m dups found)
  case (Cons raw raws)
  show ?case
  proof (cases "from_raw_event room raw")
    case (Inr ev)
    show ?thesis
    proof (cases ev)
      case (Some e)
      with Inr show ?thesis
        by (cases "history_events room raws") (auto simp: Cons.IH)
    qed (cases "history_events room raws", auto simp: Inr Cons.IH)
  qed simp
qed simp

text \<open>The history a reconciliation goes by: none when there is no gap to close.\<close>

definition closes_gap ::
  "homeserver \<Rightarrow> room_sync_slice \<Rightarrow> string option \<Rightarrow> timeline_event list \<Rightarrow> nat \<Rightarrow> bool" where
  "closes_gap hs item since hist pages \<longleftrightarrow>
     (if slice_limited item \<and> truthy (slice_prev_batch item)
      then \<exists>raws. walk (history_page hs (slice_room item) since PAGE_LIMIT) since
                    (the (slice_prev_batch item)) raws pages \<and>
                  history_events (slice_room item) raws = Inr hist \<and> pages \<le> MAX_PAGES
      else hist = [] \<and> pages = 0)"

lemma paginate_backwards_iff:
  "paginate_backwards hs room start to page_limit n = Inr (raws, k) \<longleftrightarrow>
     walk (history_page hs room to page_limit) to start raws k \<and> k \<le> n"
  by (auto simp: paginate_backwards_def paginate_loop_iff)

definition closing_history ::
  "homeserver \<Rightarrow> room_sync_slice \<Rightarrow> string option \<Rightarrow> exn + timeline_event list \<times> nat" where
  "closing_history hs item since =
     (if slice_limited item \<and> truthy (slice_prev_batch item)
      then rbind (paginate_backwards hs (slice_room item) (the (slice_prev_batch item))
                    since PAGE_LIMIT MAX_PAGES)
             (\<lambda>(raws, pages). rbind (history_events (slice_room item) raws) (\<lambda>hist. Inr (hist, pages)))
      else Inr ([], 0))"

lemma closing_history_iff: "closing_history hs item since = Inr (hist, pages) \<longleftrightarrow> closes_gap hs item since hist pages"
  by (auto simp: closing_history_def closes_gap_def rbind_eq_Inr paginate_backwards_iff)

text \<open>What the episode says of the events delivered.\<close>

definition episode_of ::
  "participant \<Rightarrow> room_sync_slice \<Rightarrow> string option \<Rightarrow> string \<Rightarrow> nat \<Rightarrow> nat \<Rightarrow> nat \<Rightarrow> episode" where
  "episode_of p item since trigger history unique pages =
     \<lparr>recovery_episode = episode_counter p + 1, recovery_trigger = trigger,
      ep_room_id = slice_room item, previous_checkpoint_present = (since \<noteq> None),
      sync_limited = slice_limited item, direct_from_sync = length (slice_events item),
      ep_history_pages_fetched = pages,
      recovered_from_history = unique - length (merge.taken [] (slice_events item)),
      duplicate_observations = length (slice_events item) + history - unique,
      reconciled_unique_events = unique\<rparr>"

lemma merge_guarded: "merge.guarded m es = m @ map (\<lambda>e. (ev_id e, e)) (merge.taken m es)"
  by (induction es arbitrary: m) (auto simp: merge_fresh_def merge_mark_def update_none)

lemma merge_taken_le: "length (merge.taken m es) \<le> length es"
  using merge_direct_taken by blast

lemma reconcile_slice_eq:
  "reconcile_slice hs item since trigger p =
     (p\<lparr>episode_counter := episode_counter p + 1\<rparr>,
      rbind (closing_history hs item since) (\<lambda>(hist, pages).
        let events = merge.taken [] (slice_events item @ hist)
        in Inr (events, episode_of p item since trigger (length hist) (length events) pages)))"
proof -
  let ?d = "slice_events item"
  have m: "merge_direct [] 0 es = (map (\<lambda>e. (ev_id e, e)) (merge.taken [] es),
      length es - length (merge.taken [] es))" for es
    using merge_direct_taken [of "[]" 0 es] by simp
  have split: "merge.taken [] (?d @ es) =
      merge.taken [] ?d @ merge.taken (map (\<lambda>e. (ev_id e, e)) (merge.taken [] ?d)) es" for es
    by (simp add: merge.taken_append merge_guarded)
  have ar: "length ?d - length (merge.taken [] ?d) + h - b =
      length ?d + h - (length (merge.taken [] ?d) + b)" for h b
    using merge_taken_le [of "[]" ?d] by simp
  show ?thesis
  proof (cases "slice_limited item \<and> truthy (slice_prev_batch item)")
    case False
    then show ?thesis
      by (auto simp: reconcile_slice_def closing_history_def episode_of_def Let_def m o_def)
  next
    case gap: True
    show ?thesis
    proof (cases "paginate_backwards hs (slice_room item) (the (slice_prev_batch item)) since
        PAGE_LIMIT MAX_PAGES")
      case (Inr rp)
      obtain raws pages where rp: "rp = (raws, pages)" by (cases rp)
      show ?thesis
        by (cases "history_events (slice_room item) raws")
          (use gap in \<open>simp_all add: reconcile_slice_def closing_history_def episode_of_def Let_def m Inr rp
             merge_history_direct merge_direct_taken split o_def ar\<close>)
    qed (use gap in \<open>simp add: reconcile_slice_def closing_history_def Let_def m\<close>)
  qed
qed

lemma reconcile_slice_Inr:
  "reconcile_slice hs item since trigger p = (p', Inr (events, ep)) \<longleftrightarrow>
     p' = p\<lparr>episode_counter := episode_counter p + 1\<rparr> \<and>
     (\<exists>hist pages. closes_gap hs item since hist pages \<and>
        events = merge.taken [] (slice_events item @ hist) \<and>
        ep = episode_of p item since trigger (length hist) (length events) pages)"
  by (auto simp: reconcile_slice_eq rbind_eq_Inr closing_history_iff Let_def)

lemma closes_gap_limited:
  "slice_limited item \<Longrightarrow> slice_prev_batch item = Some b \<Longrightarrow> b \<noteq> [] \<Longrightarrow>
   closes_gap hs item since hist pages \<longleftrightarrow>
     (\<exists>raws. walk (history_page hs (slice_room item) since PAGE_LIMIT) since b raws pages \<and>
             history_events (slice_room item) raws = Inr hist \<and> pages \<le> MAX_PAGES)"
  by (simp add: closes_gap_def)

text \<open>The event kept for an id is the first one seen with it.\<close>

lemma merge_taken_first:
  assumes "e \<in> set (merge.taken m es)"
  shows "find (\<lambda>x. ev_id x = ev_id e) es = Some e"
  using assms
proof (induction es arbitrary: m)
  case (Cons x es)
  have "ev_id x \<noteq> ev_id e" if "e \<in> set (merge.taken (AList.update (ev_id x) x m) es)"
    using merge.taken_fresh [OF that] by (auto simp: merge_fresh_def)
  moreover have "ev_id x \<noteq> ev_id e" if "map_of m (ev_id x) \<noteq> None" "e \<in> set (merge.taken m es)"
    using merge.taken_fresh [OF that(2)] that(1) by (auto simp: merge_fresh_def)
  ultimately show ?case using Cons by (cases "map_of m (ev_id x)") auto
qed simp

lemma merge_taken_ids: "ev_id ` set (merge.taken [] es) = ev_id ` set es"
proof
  show "ev_id ` set es \<subseteq> ev_id ` set (merge.taken [] es)"
    using merge.name_taken_or_seen [of _ es "[]"] by (auto simp: merge_fresh_def)
qed (use merge.taken_subset in blast)

lemma merge_taken_self: "distinct (map ev_id es) \<Longrightarrow> merge.taken [] es = es"
proof -
  have "\<forall>e \<in> set es. map_of m (ev_id e) = None \<Longrightarrow> distinct (map ev_id es) \<Longrightarrow> merge.taken m es = es" for m
  proof (induction es arbitrary: m)
    case (Cons e es)
    then have "ev_id x \<noteq> ev_id e" if "x \<in> set es" for x using that by (auto simp: image_iff)
    with Cons.prems have "\<forall>x \<in> set es. map_of (AList.update (ev_id e) e m) (ev_id x) = None" by simp
    with Cons show ?case by simp
  qed simp
  then show "distinct (map ev_id es) \<Longrightarrow> merge.taken [] es = es" by simp
qed

lemma length_merge_taken: "length (merge.taken [] es) = card (ev_id ` set es)"
  using distinct_card [OF merge.taken_names_distinct [of "[]" es]] merge_taken_ids [of es] by simp

section \<open>Properties\<close>

text \<open>
  Backwards pagination returns exactly when following the page tokens from \<open>start\<close>
  reaches the boundary (an empty page, no further token, or the checkpoint) within the
  page bound, and then returns every event of the pages in order and their number; on a
  homeserver that answers every page, its only failure is \<open>RecoveryBoundExceeded\<close>, and
  it fails exactly when the walk is longer than the bound. It never returns a part.
\<close>

theorem paginate_exact:
  assumes "\<And>t. returns (history_page hs room to page_limit t)"
  shows "(paginate_backwards hs room start to page_limit n = Inr (raws, k) \<longleftrightarrow>
            walk (history_page hs room to page_limit) to start raws k \<and> k \<le> n) \<and>
         (paginate_backwards hs room start to page_limit n = Inl e \<longleftrightarrow>
            e = RecoveryBoundExceeded \<and>
            (\<nexists>raws k. walk (history_page hs room to page_limit) to start raws k \<and> k \<le> n))"
proof (intro conjI paginate_backwards_iff)
  let ?r = "paginate_backwards hs room start to page_limit n"
  have err: "e = RecoveryBoundExceeded" if "?r = Inl e" for e
    using paginate_loop_total [of "history_page hs room to page_limit"] assms that
    unfolding paginate_backwards_def by blast
  show "?r = Inl e \<longleftrightarrow> e = RecoveryBoundExceeded \<and>
      (\<nexists>raws k. walk (history_page hs room to page_limit) to start raws k \<and> k \<le> n)"
  proof (cases ?r)
    case (Inl a)
    have "\<nexists>raws k. walk (history_page hs room to page_limit) to start raws k \<and> k \<le> n"
      unfolding paginate_backwards_iff [symmetric] Inl by simp
    with Inl err [OF Inl] show ?thesis by auto
  next
    case (Inr rk)
    then have "\<exists>raws k. walk (history_page hs room to page_limit) to start raws k \<and> k \<le> n"
      by (cases rk) (auto simp: paginate_backwards_iff)
    with Inr show ?thesis by auto
  qed
qed

text \<open>A room of three pages, one event each, for the examples.\<close>

definition example_raw :: "string \<Rightarrow> raw_event" where
  "example_raw i = \<lparr>raw_type = Some MESSAGE_EVENT_TYPE, raw_body = Some ''hello'', raw_room = None,
     raw_id = Some i, raw_sender = Some ''@h'', raw_ts = Some 1\<rparr>"

definition three_pages :: homeserver where
  "three_pages = \<lparr>hs_sync = (\<lambda>_ _. None),
     hs_messages = (\<lambda>_ from _ _. Inr (
       if from = Some ''t3'' then ([example_raw ''$3''], Some ''t2'')
       else if from = Some ''t2'' then ([example_raw ''$2''], Some ''t1'')
       else if from = Some ''t1'' then ([example_raw ''$1''], Some ''t0'')
       else ([], None))),
     hs_send = (\<lambda>_ _ txn. Inr txn), hs_join = (\<lambda>_ _. True)\<rparr>"

theorem paginate_exact_witness:
  "walk (history_page three_pages ''!r'' (Some ''t0'') 100) (Some ''t0'') ''t3''
     [example_raw ''$3'', example_raw ''$2'', example_raw ''$1''] 3 \<and>
   paginate_backwards three_pages ''!r'' ''t3'' (Some ''t0'') 100 2 = Inl RecoveryBoundExceeded"
proof -
  have total: "returns (history_page three_pages ''!r'' (Some ''t0'') 100 t)" for t
    by (simp add: history_page_def three_pages_def)
  note ex = paginate_exact [of three_pages "''!r''" "Some ''t0''" 100 "''t3''", OF total]
  have "paginate_backwards three_pages ''!r'' ''t3'' (Some ''t0'') 100 50 =
      Inr ([example_raw ''$3'', example_raw ''$2'', example_raw ''$1''], 3)"
    by (simp add: paginate_backwards_def numeral_eq_Suc history_page_def three_pages_def at_boundary_def)
  with ex [of 50] have w: "walk (history_page three_pages ''!r'' (Some ''t0'') 100) (Some ''t0'') ''t3''
     [example_raw ''$3'', example_raw ''$2'', example_raw ''$1''] 3" by blast
  moreover have "paginate_backwards three_pages ''!r'' ''t3'' (Some ''t0'') 100 2 = Inl RecoveryBoundExceeded"
    by (simp add: paginate_backwards_def numeral_eq_Suc history_page_def three_pages_def at_boundary_def)
  ultimately show ?thesis by blast
qed


definition example_event :: "string \<Rightarrow> timeline_event" where
  "example_event i = \<lparr>ev_room = ''!r'', ev_id = i, ev_sender = ''@h'', ev_body = ''hello'', ev_ts = 1\<rparr>"

definition example_slice :: room_sync_slice where
  "example_slice = \<lparr>slice_room = ''!r'', slice_events = [example_event ''$3'', example_event ''$4''],
     slice_limited = True, slice_prev_batch = Some ''t3'', raw_event_count = 2\<rparr>"

lemma example_reconciled:
  "reconcile_slice three_pages example_slice (Some ''t0'') ''startup'' (new_participant (Some 2) 0) =
     ((new_participant (Some 2) 0)\<lparr>episode_counter := 1\<rparr>,
      Inr (map example_event [''$3'', ''$4'', ''$2'', ''$1''],
        \<lparr>recovery_episode = 1, recovery_trigger = ''startup'', ep_room_id = ''!r'',
         previous_checkpoint_present = True, sync_limited = True, direct_from_sync = 2,
         ep_history_pages_fetched = 3, recovered_from_history = 2, duplicate_observations = 1,
         reconciled_unique_events = 4\<rparr>))"
  by (simp add: reconcile_slice_def example_slice_def example_event_def paginate_backwards_def
      MAX_PAGES_def numeral_eq_Suc PAGE_LIMIT_def history_page_def three_pages_def at_boundary_def
      from_raw_event_def example_raw_def new_participant_def)


text \<open>
  The documented promise that an unresolved gap raises has a hole: a limited timeline
  that comes without a \<open>prev_batch\<close> token (or with an empty one) is reconciled to its
  direct events alone, with no page fetched, and returned as a success.
\<close>

theorem limited_without_token_passes:
  assumes "slice_limited item" and "\<not> truthy (slice_prev_batch item)"
  shows "\<exists>p' ep. reconcile_slice hs item since trigger p = (p', Inr (merge.taken [] (slice_events item), ep)) \<and>
    sync_limited ep \<and> ep_history_pages_fetched ep = 0 \<and> recovered_from_history ep = 0"
  using assms by (auto simp: reconcile_slice_Inr closes_gap_def episode_of_def)

theorem limited_without_token_passes_witness:
  "\<exists>p' ep. reconcile_slice three_pages (example_slice\<lparr>slice_prev_batch := None\<rparr>) (Some ''t0'') ''startup''
     (new_participant None 0) = (p', Inr (merge.taken [] [example_event ''$3'', example_event ''$4''], ep)) \<and>
     sync_limited ep \<and> ep_history_pages_fetched ep = 0 \<and> recovered_from_history ep = 0"
  using limited_without_token_passes [of "example_slice\<lparr>slice_prev_batch := None\<rparr>" three_pages]
  by (simp add: example_slice_def)

text \<open>
  The two walks over history disagree about their bound. On a room whose pages go on,
  \<open>paginate_backwards\<close> refuses with \<open>RecoveryBoundExceeded\<close>, while \<open>fetch_all_messages\<close>,
  which collects the domain views that are compared for equality, stops at the bound and
  returns what it has as if it were the whole room.
\<close>

theorem bound_raises_or_truncates:
  assumes "\<And>from to. \<exists>chunk t. hs_messages hs room from to page_limit = Inr (chunk, Some t) \<and>
      chunk \<noteq> [] \<and> t \<noteq> [] \<and> Some t \<noteq> boundary"
  shows "paginate_backwards hs room start boundary page_limit n = Inl RecoveryBoundExceeded \<and>
         returns (fetch_all_messages hs room page_limit n)"
proof
  have "paginate_loop (history_page hs room boundary page_limit) boundary n tok evs k =
      Inl RecoveryBoundExceeded" for tok evs k
  proof (induction n arbitrary: tok evs k)
    case (Suc n)
    from assms obtain chunk t where "history_page hs room boundary page_limit tok = Inr (chunk, Some t)"
      "chunk \<noteq> []" "t \<noteq> []" "Some t \<noteq> boundary"
      unfolding history_page_def by blast
    with Suc.IH show ?case by (simp add: at_boundary_def)
  qed simp
  then show "paginate_backwards hs room start boundary page_limit n = Inl RecoveryBoundExceeded"
    by (simp add: paginate_backwards_def)
  have "returns (fetch_all_loop (\<lambda>token. hs_messages hs room (if truthy token then token else None)
      None page_limit) n tok evs)" for tok evs
  proof (induction n arbitrary: tok evs)
    case (Suc n)
    from assms obtain chunk t where "hs_messages hs room (if truthy tok then tok else None) None page_limit =
        Inr (chunk, Some t)" "chunk \<noteq> []" "t \<noteq> []" by blast
    with Suc.IH show ?case by simp
  qed simp
  then show "returns (fetch_all_messages hs room page_limit n)"
    by (simp add: fetch_all_messages_def)
qed

theorem bound_raises_or_truncates_witness:
  "paginate_backwards (three_pages\<lparr>hs_messages := (\<lambda>_ _ _ _. Inr ([example_raw ''$1''], Some ''t''))\<rparr>)
     ''!r'' ''t3'' (Some ''t0'') 100 50 = Inl RecoveryBoundExceeded"
  using bound_raises_or_truncates [of "three_pages\<lparr>hs_messages := (\<lambda>_ _ _ _. Inr ([example_raw ''$1''], Some ''t''))\<rparr>"
      "''!r''" 100 "Some ''t0''" "''t3''" 50] by simp

end
