(* ===== verification/Sync_Loop.thy ===== *)
theory Sync_Loop
  imports Client
begin

text \<open>
  The live sync loop of \<^verbatim>\<open>src/fam/matrix/client.py\<close> (\<open>_sync_loop\<close>): each round syncs from
  the committed token, reconciles limited timelines, dispatches to the handlers, and only
  then commits the new token.
\<close>

section \<open>The sync loop\<close>

text \<open>
  What the owner of a participant plugs in. A callback sees the participant, so that it
  can persist the token, and changes the owner's state \<open>'s\<close>; it may raise.
\<close>

datatype episode_note = Reconciled episode | RecoveryFailed exn "string option"

record 's callbacks =
  handlers :: "(participant \<Rightarrow> timeline_event \<Rightarrow> 's \<Rightarrow> 's effect) list"
  on_recovery_episode :: "(participant \<Rightarrow> episode_note \<Rightarrow> 's \<Rightarrow> 's effect) option"
  on_commit :: "(participant \<Rightarrow> string \<Rightarrow> 's \<Rightarrow> 's effect) option"

fun seq_all :: "('a \<Rightarrow> 's \<Rightarrow> 's effect) \<Rightarrow> 'a list \<Rightarrow> 's \<Rightarrow> 's effect" where
  "seq_all f [] s = (s, None)"
| "seq_all f (x # xs) s =
     (case f x s of (s', None) \<Rightarrow> seq_all f xs s' | (s', Some e) \<Rightarrow> (s', Some e))"

definition call_optional :: "('a \<Rightarrow> 's \<Rightarrow> 's effect) option \<Rightarrow> 'a \<Rightarrow> 's \<Rightarrow> 's effect" where
  "call_optional f x s = (case f of None \<Rightarrow> (s, None) | Some g \<Rightarrow> g x s)"

definition is_tracked :: "participant \<Rightarrow> string \<Rightarrow> bool" where
  "is_tracked p room \<longleftrightarrow> tracked_rooms p = {} \<or> room \<in> tracked_rooms p"

definition dispatch_events ::
  "'s callbacks \<Rightarrow> participant \<Rightarrow> timeline_event list \<Rightarrow> 's \<Rightarrow> 's effect" where
  "dispatch_events cb p events s =
     seq_all (\<lambda>e. seq_all (\<lambda>h. h p e) (handlers cb)) events s"

definition note_episode :: "(nat \<Rightarrow> int) \<Rightarrow> int \<Rightarrow> episode \<Rightarrow> participant \<Rightarrow> participant" where
  "note_episode clk started ep p = p\<lparr>
     limited_syncs_observed := limited_syncs_observed p + 1,
     live_recovery_episodes := live_recovery_episodes p + 1,
     live_history_pages := live_history_pages p + ep_history_pages_fetched ep,
     recovery_episode_log := recovery_episode_log p @
       [\<lparr>log_episode = recovery_episode ep, log_room = ep_room_id ep, log_started_ns = started,
         log_reconciled_ns = clk (clock_readings p), log_pages = ep_history_pages_fetched ep,
         log_from_history = recovered_from_history ep\<rparr>],
     clock_readings := clock_readings p + 1\<rparr>"

text \<open>
  One room of a snapshot: reconcile it if limited, then dispatch. The events of a recovery
  carry the episode for the duration of their dispatch.
\<close>

definition dispatch_room ::
  "'s callbacks \<Rightarrow> nat option \<Rightarrow> participant \<Rightarrow> timeline_event list \<Rightarrow> 's \<Rightarrow> (participant \<times> 's) effect" where
  "dispatch_room cb episode_id p events s =
     (let r = dispatch_events cb (p\<lparr>current_recovery_episode := episode_id\<rparr>) events s
      in ((p\<lparr>current_recovery_episode := None\<rparr>, fst r), snd r))"

definition recover_room ::
  "(nat \<Rightarrow> int) \<Rightarrow> homeserver \<Rightarrow> 's callbacks \<Rightarrow> string option \<Rightarrow> room_sync_slice \<Rightarrow>
   participant \<Rightarrow> 's \<Rightarrow> (participant \<times> 's) effect" where
  "recover_room clk hs cb since item p s =
     (let started = clk (clock_readings p);
          (p1, res) = reconcile_slice hs item since ''live_sync''
                        (p\<lparr>clock_readings := clock_readings p + 1\<rparr>) in
      case res of
        Inl e \<Rightarrow> ((p1, s), Some e)
      | Inr (events, ep) \<Rightarrow>
          (let p2 = note_episode clk started ep p1;
               r = call_optional (map_option (\<lambda>f. f p2) (on_recovery_episode cb)) (Reconciled ep) s in
           if snd r \<noteq> None then ((p2, fst r), snd r)
           else dispatch_room cb (Some (recovery_episode ep)) p2 events (fst r)))"

definition process_room ::
  "(nat \<Rightarrow> int) \<Rightarrow> homeserver \<Rightarrow> 's callbacks \<Rightarrow> string option \<Rightarrow> room_sync_slice \<Rightarrow>
   participant \<times> 's \<Rightarrow> (participant \<times> 's) effect" where
  "process_room clk hs cb since item st =
     (if \<not> is_tracked (fst st) (slice_room item) then (st, None)
      else if slice_limited item \<and> gap_recovery_enabled (fst st)
      then recover_room clk hs cb since item (fst st) (snd st)
      else dispatch_room cb None (fst st) (slice_events item) (snd st))"

datatype loop_outcome = SyncFailed | Retained exn | Committed | LoopDied exn

definition sync_iteration ::
  "(nat \<Rightarrow> int) \<Rightarrow> homeserver \<Rightarrow> 's callbacks \<Rightarrow> participant \<times> 's \<Rightarrow> (participant \<times> 's) \<times> loop_outcome" where
  "sync_iteration clk hs cb st =
     (let (p, s) = st; since = sync_token p in
      case sync_once hs since (timeline_limit p) p of
        (p1, Inl e) \<Rightarrow> ((p1, s), SyncFailed)
      | (p1, Inr snap) \<Rightarrow>
          (case seq_all (process_room clk hs cb since) (snapshot_rooms snap) (p1, s) of
             ((p2, s2), Some e) \<Rightarrow>
               (let p3 = p2\<lparr>live_recovery_failures := live_recovery_failures p2 + 1\<rparr> in
                case call_optional (map_option (\<lambda>f. f p3) (on_recovery_episode cb))
                       (RecoveryFailed e since) s2 of
                  (s3, Some e') \<Rightarrow> ((p3, s3), LoopDied e')
                | (s3, None) \<Rightarrow> ((p3\<lparr>sync_token := since\<rparr>, s3), Retained e))
           | ((p2, s2), None) \<Rightarrow>
               (let p3 = p2\<lparr>sync_token := Some (next_batch snap)\<rparr> in
                case call_optional (map_option (\<lambda>f. f p3) (on_commit cb)) (next_batch snap) s2 of
                  (s3, Some e') \<Rightarrow> ((p3, s3), LoopDied e')
                | (s3, None) \<Rightarrow> ((p3, s3), Committed))))"

text \<open>The loop against a homeserver that may answer differently each time round.\<close>

fun sync_loop ::
  "(nat \<Rightarrow> int) \<Rightarrow> homeserver list \<Rightarrow> 's callbacks \<Rightarrow> participant \<times> 's \<Rightarrow> participant \<times> 's" where
  "sync_loop clk [] cb st = st"
| "sync_loop clk (hs # rest) cb st =
     (case sync_iteration clk hs cb st of
        (st', LoopDied e) \<Rightarrow> st'
      | (st', _) \<Rightarrow> sync_loop clk rest cb st')"

section \<open>What survives a callback, and what a handler achieves\<close>

text \<open>
  A predicate on the owner's state \<open>persists\<close> when no callback ends it, raised or not; a
  handler \<open>establishes\<close> it for an event when it holds after every call that does not raise.
\<close>

definition persists :: "'s callbacks \<Rightarrow> ('s \<Rightarrow> bool) \<Rightarrow> bool" where
  "persists cb Q \<longleftrightarrow>
     (\<forall>h \<in> set (handlers cb). \<forall>p e s. Q s \<longrightarrow> Q (fst (h p e s))) \<and>
     (\<forall>f. on_recovery_episode cb = Some f \<longrightarrow> (\<forall>p n s. Q s \<longrightarrow> Q (fst (f p n s)))) \<and>
     (\<forall>f. on_commit cb = Some f \<longrightarrow> (\<forall>p n s. Q s \<longrightarrow> Q (fst (f p n s))))"

definition establishes :: "'s callbacks \<Rightarrow> timeline_event \<Rightarrow> ('s \<Rightarrow> bool) \<Rightarrow> bool" where
  "establishes cb e Q \<longleftrightarrow>
     (\<exists>h \<in> set (handlers cb). \<forall>p s. snd (h p e s) = None \<longrightarrow> Q (fst (h p e s)))"

lemma seq_all_Cons [simp]:
  "seq_all f (x # xs) s = (if snd (f x s) = None then seq_all f xs (fst (f x s)) else f x s)"
  by (auto split: prod.splits option.splits)

declare seq_all.simps(2) [simp del]

lemma seq_all_stable:
  assumes "\<And>x s. x \<in> set xs \<Longrightarrow> Q s \<Longrightarrow> Q (fst (f x s))" and "Q s"
  shows "Q (fst (seq_all f xs s))"
  using assms by (induction xs arbitrary: s) auto

lemma seq_all_establishes:
  assumes "\<And>x s. x \<in> set xs \<Longrightarrow> Q s \<Longrightarrow> Q (fst (f x s))"
    and "x \<in> set xs" and "\<And>s. snd (f x s) = None \<Longrightarrow> Q (fst (f x s))"
    and "snd (seq_all f xs s) = None"
  shows "Q (fst (seq_all f xs s))"
  using assms
proof (induction xs arbitrary: s)
  case (Cons y xs)
  from Cons.prems(4) have y: "snd (f y s) = None" by (simp split: if_splits)
  show ?case
  proof (cases "x \<in> set xs")
    case True
    with Cons y show ?thesis by simp
  next
    case False
    with Cons.prems(2) have "x = y" by simp
    with Cons.prems(3) y have "Q (fst (f y s))" by blast
    then have "Q (fst (seq_all f xs (fst (f y s))))"
      by (rule seq_all_stable [rotated]) (use Cons.prems(1) in simp)
    with y show ?thesis by simp
  qed
qed simp

lemma seq_all_stops:
  assumes "x \<in> set xs" and "\<And>s. snd (f x s) \<noteq> None"
  shows "snd (seq_all f xs s) \<noteq> None"
  using assms(1)
proof (induction xs arbitrary: s)
  case (Cons y xs)
  show ?case
  proof (cases "snd (f y s) = None")
    case True
    with assms(2) have "x \<noteq> y" by metis
    with Cons True show ?thesis by simp
  qed auto
qed simp

lemma stable_handler: "persists cb Q \<Longrightarrow> h \<in> set (handlers cb) \<Longrightarrow> Q s \<Longrightarrow> Q (fst (h p e s))"
  by (simp add: persists_def)

lemma stable_note:
  "persists cb Q \<Longrightarrow> Q s \<Longrightarrow> Q (fst (call_optional (map_option (\<lambda>f. f p) (on_recovery_episode cb)) n s))"
  by (cases "on_recovery_episode cb") (simp_all add: persists_def call_optional_def)

lemma stable_commit:
  "persists cb Q \<Longrightarrow> Q s \<Longrightarrow> Q (fst (call_optional (map_option (\<lambda>f. f p) (on_commit cb)) n s))"
  by (cases "on_commit cb") (simp_all add: persists_def call_optional_def)

lemma dispatch_one_stable: "persists cb Q \<Longrightarrow> Q s \<Longrightarrow> Q (fst (seq_all (\<lambda>h. h p e) (handlers cb) s))"
  by (rule seq_all_stable [where Q = Q]) (erule stable_handler)

lemma dispatch_stable: "persists cb Q \<Longrightarrow> Q s \<Longrightarrow> Q (fst (dispatch_events cb p es s))"
  unfolding dispatch_events_def by (rule seq_all_stable [where Q = Q]) (erule dispatch_one_stable)

lemma dispatch_establishes:
  assumes "persists cb Q" and "establishes cb e Q" and "e \<in> set es"
    and "snd (dispatch_events cb p es s) = None"
  shows "Q (fst (dispatch_events cb p es s))"
proof -
  from assms(2) obtain h where h: "h \<in> set (handlers cb)" "\<And>p s. snd (h p e s) = None \<Longrightarrow> Q (fst (h p e s))"
    unfolding establishes_def by blast
  have one: "Q (fst (seq_all (\<lambda>h. h p e) (handlers cb) s))"
    if "snd (seq_all (\<lambda>h. h p e) (handlers cb) s) = None" for s
  proof (rule seq_all_establishes [where x = h and Q = Q])
    show "Q (fst (x p e s))" if "x \<in> set (handlers cb)" "Q s" for x s
      using stable_handler [OF assms(1) that] .
  qed (rule h that | assumption)+
  show ?thesis
    unfolding dispatch_events_def
  proof (rule seq_all_establishes [where x = e and Q = Q])
    show "Q (fst (seq_all (\<lambda>h. h p x) (handlers cb) s))" if "Q s" for x s
      using dispatch_one_stable [OF assms(1) that] .
    show "snd (seq_all (\<lambda>e. seq_all (\<lambda>h. h p e) (handlers cb)) es s) = None"
      using assms(4) by (simp add: dispatch_events_def)
  qed (rule one assms | assumption)+
qed

text \<open>What the loop hands on for one slice.\<close>

definition delivered ::
  "homeserver \<Rightarrow> bool \<Rightarrow> string option \<Rightarrow> room_sync_slice \<Rightarrow> exn + timeline_event list" where
  "delivered hs enabled since item =
     (if slice_limited item \<and> enabled
      then rbind (closing_history hs item since)
             (\<lambda>(hist, pages). Inr (merge.taken [] (slice_events item @ hist)))
      else Inr (slice_events item))"

text \<open>\<open>recover_room\<close> with its reconciliation computed.\<close>

lemma recover_room_cases:
  "recover_room clk hs cb since item p s =
     (let p0 = p\<lparr>clock_readings := clock_readings p + 1\<rparr>;
          p1 = p0\<lparr>episode_counter := episode_counter p + 1\<rparr> in
      case closing_history hs item since of
        Inl e \<Rightarrow> ((p1, s), Some e)
      | Inr (hist, pages) \<Rightarrow>
          (let events = merge.taken [] (slice_events item @ hist);
               ep = episode_of p0 item since ''live_sync'' (length hist) (length events) pages;
               p2 = note_episode clk (clk (clock_readings p)) ep p1;
               r = call_optional (map_option (\<lambda>f. f p2) (on_recovery_episode cb)) (Reconciled ep) s in
           if snd r \<noteq> None then ((p2, fst r), snd r)
           else dispatch_room cb (Some (recovery_episode ep)) p2 events (fst r)))"
  by (auto simp: recover_room_def reconcile_slice_eq Let_def split: sum.splits)

lemma dispatch_room_frame:
  "sync_token (fst (fst (dispatch_room cb i p es s))) = sync_token p"
  "tracked_rooms (fst (fst (dispatch_room cb i p es s))) = tracked_rooms p"
  "gap_recovery_enabled (fst (fst (dispatch_room cb i p es s))) = gap_recovery_enabled p"
  by (simp_all add: dispatch_room_def Let_def)

lemma note_episode_frame:
  "sync_token (note_episode clk n ep p) = sync_token p"
  "tracked_rooms (note_episode clk n ep p) = tracked_rooms p"
  "gap_recovery_enabled (note_episode clk n ep p) = gap_recovery_enabled p"
  by (simp_all add: note_episode_def)

lemma recover_room_frame:
  "sync_token (fst (fst (recover_room clk hs cb since item p s))) = sync_token p"
  "tracked_rooms (fst (fst (recover_room clk hs cb since item p s))) = tracked_rooms p"
  "gap_recovery_enabled (fst (fst (recover_room clk hs cb since item p s))) = gap_recovery_enabled p"
  by (simp_all add: recover_room_cases Let_def dispatch_room_frame note_episode_frame
      split: sum.split prod.split)

lemma process_room_frame [step_frame]:
  "sync_token (fst (fst (process_room clk hs cb since item st))) = sync_token (fst st)"
  "tracked_rooms (fst (fst (process_room clk hs cb since item st))) = tracked_rooms (fst st)"
  "gap_recovery_enabled (fst (fst (process_room clk hs cb since item st))) = gap_recovery_enabled (fst st)"
  by (simp_all add: process_room_def recover_room_frame dispatch_room_frame)

lemma dispatch_room_stable:
  "persists cb Q \<Longrightarrow> Q s \<Longrightarrow> Q (snd (fst (dispatch_room cb i p es s)))"
  by (simp add: dispatch_room_def Let_def dispatch_stable)

lemma recover_room_stable:
  assumes "persists cb Q" and "Q s"
  shows "Q (snd (fst (recover_room clk hs cb since item p s)))"
proof (cases "closing_history hs item since")
  case (Inr hp)
  obtain hist pages where "hp = (hist, pages)" by (cases hp)
  with Inr show ?thesis
    using dispatch_room_stable [OF assms(1)] stable_note [OF assms] by (simp add: recover_room_cases Let_def)
qed (simp add: recover_room_cases Let_def assms)

lemma process_room_stable:
  "persists cb Q \<Longrightarrow> Q (snd st) \<Longrightarrow> Q (snd (fst (process_room clk hs cb since item st)))"
  by (simp add: process_room_def dispatch_room_stable recover_room_stable)

lemma process_room_establishes:
  assumes "persists cb Q" and "establishes cb e Q" and "is_tracked (fst st) (slice_room item)"
    and "snd (process_room clk hs cb since item st) = None"
    and "delivered hs (gap_recovery_enabled (fst st)) since item = Inr es" and "e \<in> set es"
  shows "Q (snd (fst (process_room clk hs cb since item st)))"
proof -
  have d: "Q (snd (fst (dispatch_room cb i p es s)))" if "snd (dispatch_room cb i p es s) = None" for i p s
    using dispatch_establishes [OF assms(1,2,6)] that by (simp add: dispatch_room_def Let_def)
  show ?thesis
    using assms(3-5) d
    by (auto simp: process_room_def delivered_def recover_room_cases Let_def rbind_eq_Inr
        split: if_splits sum.splits)
qed

section \<open>One round of the loop\<close>

lemma seq_all_establishes_inv:
  assumes "\<And>x s. x \<in> set xs \<Longrightarrow> I s \<Longrightarrow> I (fst (f x s))"
    and "\<And>x s. x \<in> set xs \<Longrightarrow> Q s \<Longrightarrow> Q (fst (f x s))"
    and "x \<in> set xs" and "\<And>s. I s \<Longrightarrow> snd (f x s) = None \<Longrightarrow> Q (fst (f x s))"
    and "snd (seq_all f xs s) = None" and "I s"
  shows "Q (fst (seq_all f xs s))"
  using assms
proof (induction xs arbitrary: s)
  case (Cons y xs)
  from Cons.prems(5) have y: "snd (f y s) = None" by (simp split: if_splits)
  have I: "I (fst (f y s))" using Cons.prems(1,6) by simp
  show ?case
  proof (cases "x \<in> set xs")
    case True
    with y I Cons.prems(5) have "Q (fst (seq_all f xs (fst (f y s))))"
      by (intro Cons.IH) (use Cons.prems(1,2,4) in simp_all)
    with y show ?thesis by simp
  next
    case False
    with Cons.prems(3) have "x = y" by simp
    with Cons.prems(4,6) y have "Q (fst (f y s))" by blast
    then have "Q (fst (seq_all f xs (fst (f y s))))"
      by (rule seq_all_stable [rotated]) (use Cons.prems(2) in simp)
    with y show ?thesis by simp
  qed
qed simp

lemma seq_all_frame:
  assumes "\<And>x s. g (fst (f x s)) = g s"
  shows "g (fst (seq_all f xs s)) = g s"
  by (induction xs arbitrary: s) (simp_all add: assms)

lemma seq_all_none:
  assumes "x \<in> set xs" and "snd (seq_all f xs s) = None"
    and "\<And>x s. g (fst (f x s)) = g s"
  shows "\<exists>s'. g s' = g s \<and> snd (f x s') = None"
  using assms
proof (induction xs arbitrary: s)
  case (Cons y xs)
  from Cons.prems(2) have y: "snd (f y s) = None" and r: "snd (seq_all f xs (fst (f y s))) = None"
    by (simp_all split: if_splits)
  show ?case
  proof (cases "x = y")
    case False
    with Cons.prems(1) Cons.IH [OF _ r Cons.prems(3)] show ?thesis by (simp add: Cons.prems(3))
  qed (use y in blast)
qed simp

lemma seq_all_no_raise:
  assumes "\<And>x s. x \<in> set xs \<Longrightarrow> I s \<Longrightarrow> snd (f x s) = None \<and> I (fst (f x s))" and "I s"
  shows "snd (seq_all f xs s) = None"
  using assms by (induction xs arbitrary: s) auto

lemma note_slice_frame:
  "sync_token (fold note_slice ts p) = sync_token p"
  "tracked_rooms (fold note_slice ts p) = tracked_rooms p"
  "gap_recovery_enabled (fold note_slice ts p) = gap_recovery_enabled p"
  by (induction ts arbitrary: p) (simp_all add: note_slice_def)

lemma sync_once_frame:
  "sync_token (fst (sync_once hs since l p)) = sync_token p"
  "tracked_rooms (fst (sync_once hs since l p)) = tracked_rooms p"
  "gap_recovery_enabled (fst (sync_once hs since l p)) = gap_recovery_enabled p"
  by (simp_all add: sync_once_def note_slice_frame split: option.split prod.split)

text \<open>The part of the participant a round of processing reads and leaves alone.\<close>

definition settings :: "participant \<times> 's \<Rightarrow> string option \<times> string set \<times> bool" where
  "settings st = (sync_token (fst st), tracked_rooms (fst st), gap_recovery_enabled (fst st))"

lemma process_room_settings: "settings (fst (process_room clk hs cb since item st)) = settings st"
  by (simp add: settings_def process_room_frame)

lemma process_room_delivers:
  assumes "snd (process_room clk hs cb since item st) = None" and "is_tracked (fst st) (slice_room item)"
  shows "\<exists>es. delivered hs (gap_recovery_enabled (fst st)) since item = Inr es"
  using assms
  by (auto simp: process_room_def delivered_def recover_room_cases Let_def split: if_splits sum.splits)

text \<open>All the rooms of a snapshot went through: each tracked one was delivered and handled.\<close>

definition batch_handled ::
  "homeserver \<Rightarrow> 's callbacks \<Rightarrow> participant \<Rightarrow> nio_timeline list \<Rightarrow> 's \<Rightarrow> bool" where
  "batch_handled hs cb p joined s' \<longleftrightarrow>
     (\<forall>t \<in> set joined. is_tracked p (nio_room t) \<longrightarrow>
        (\<exists>es. delivered hs (gap_recovery_enabled p) (sync_token p) (slice_of t) = Inr es \<and>
           (\<forall>e \<in> set es. \<forall>Q. persists cb Q \<longrightarrow> establishes cb e Q \<longrightarrow> Q s')))"

lemma slice_of_room [simp]: "slice_room (slice_of t) = nio_room t"
  by (simp add: slice_of_def)

lemma rooms_handled:
  assumes "seq_all (process_room clk hs cb (sync_token p)) (map slice_of joined) (p1, s) = ((p2, s2), None)"
    and "tracked_rooms p1 = tracked_rooms p" "gap_recovery_enabled p1 = gap_recovery_enabled p"
  shows "batch_handled hs cb p joined s2"
  unfolding batch_handled_def
proof (intro ballI impI)
  fix t assume t: "t \<in> set joined" and tr: "is_tracked p (nio_room t)"
  let ?f = "process_room clk hs cb (sync_token p)" and ?item = "slice_of t"
  have i: "?item \<in> set (map slice_of joined)" using t by simp
  have none: "snd (seq_all ?f (map slice_of joined) (p1, s)) = None" using assms(1) by simp
  from seq_all_none [OF i none, of settings, OF process_room_settings]
  obtain st where st: "settings st = settings (p1, s)" "snd (?f ?item st) = None" by blast
  then have trk: "is_tracked (fst st) (slice_room ?item)" and
    gap: "gap_recovery_enabled (fst st) = gap_recovery_enabled p"
    using tr assms(2,3) by (simp_all add: settings_def is_tracked_def)
  from process_room_delivers [OF st(2) trk] gap obtain es where
    es: "delivered hs (gap_recovery_enabled p) (sync_token p) ?item = Inr es" by auto
  have "Q s2" if e: "e \<in> set es" and q: "persists cb Q" "establishes cb e Q" for e Q
  proof -
    have "(\<lambda>st. Q (snd st)) (fst (seq_all ?f (map slice_of joined) (p1, s)))"
    proof (rule seq_all_establishes_inv [where x = ?item and I = "\<lambda>st. settings st = settings (p1, s)"])
      show "Q (snd (fst (?f x st)))" if "Q (snd st)" for x st
        using q(1) that by (rule process_room_stable)
      show "Q (snd (fst (?f ?item st)))" if "settings st = settings (p1, s)" "snd (?f ?item st) = None" for st
        using that assms(2,3) tr es e
        by (intro process_room_establishes [OF q]) (simp_all add: settings_def is_tracked_def)
    qed (use none i in \<open>simp_all add: process_room_settings\<close>)
    with assms(1) show ?thesis by simp
  qed
  with es show "\<exists>es. delivered hs (gap_recovery_enabled p) (sync_token p) ?item = Inr es \<and>
      (\<forall>e \<in> set es. \<forall>Q. persists cb Q \<longrightarrow> establishes cb e Q \<longrightarrow> Q s2)" by blast
qed

lemma batch_handled_stable:
  assumes "batch_handled hs cb p joined s" and "\<And>Q. persists cb Q \<Longrightarrow> Q s \<Longrightarrow> Q s'"
  shows "batch_handled hs cb p joined s'"
  using assms unfolding batch_handled_def by meson

text \<open>A round either leaves the token or has handled everything before the token it takes.\<close>

lemma sync_iteration_cases:
  assumes "sync_iteration clk hs cb (p, s) = ((p', s'), out)"
  shows "(sync_token p' = sync_token p \<and> out \<noteq> Committed \<or>
      (\<exists>batch joined. hs_sync hs (sync_token p) (timeline_limit p) = Some (batch, joined) \<and>
         sync_token p' = Some batch \<and> batch_handled hs cb p joined s' \<and>
         (out = Committed \<or> (\<exists>e. out = LoopDied e)))) \<and>
    tracked_rooms p' = tracked_rooms p \<and> gap_recovery_enabled p' = gap_recovery_enabled p \<and>
    (\<forall>Q. persists cb Q \<longrightarrow> Q s \<longrightarrow> Q s')"
proof (cases "hs_sync hs (sync_token p) (timeline_limit p)")
  case None
  with assms show ?thesis by (auto simp: sync_iteration_def sync_once_def)
next
  case (Some bj)
  obtain batch joined where bj: "bj = (batch, joined)" by (cases bj)
  let ?f = "process_room clk hs cb (sync_token p)" and ?rooms = "map slice_of joined"
  define p1 where "p1 = fold note_slice joined p"
  have p1: "sync_token p1 = sync_token p" "tracked_rooms p1 = tracked_rooms p"
    "gap_recovery_enabled p1 = gap_recovery_enabled p"
    by (simp_all add: p1_def note_slice_frame)
  obtain p2 s2 x where r: "seq_all ?f ?rooms (p1, s) = ((p2, s2), x)"
    by (metis prod.collapse)
  have "settings (fst (seq_all ?f ?rooms (p1, s))) = settings (p1, s)"
    by (rule seq_all_frame) (rule process_room_settings)
  then have p2: "sync_token p2 = sync_token p" "tracked_rooms p2 = tracked_rooms p"
    "gap_recovery_enabled p2 = gap_recovery_enabled p"
    using r p1 by (simp_all add: settings_def)
  have st2: "Q s2" if "persists cb Q" "Q s" for Q
  proof -
    have "(\<lambda>st. Q (snd st)) (fst (seq_all ?f ?rooms (p1, s)))"
      by (rule seq_all_stable) (use that process_room_stable [OF that(1)] in auto)
    with r show ?thesis by simp
  qed
  show ?thesis
  proof (cases x)
    case None
    let ?p3 = "p2\<lparr>sync_token := Some batch\<rparr>"
    let ?c = "call_optional (map_option (\<lambda>f. f ?p3) (on_commit cb)) batch s2"
    have "fst ?c = s'" "p' = ?p3" "out = Committed \<or> (\<exists>e. out = LoopDied e)"
      using assms Some bj r None
      by (auto simp: sync_iteration_def sync_once_def p1_def [symmetric] Let_def split: prod.splits option.splits)
    then have commit: "Q s'" if "persists cb Q" "Q s2" for Q
      using stable_commit [OF that, of ?p3 batch] by simp
    have st: "Q s'" if "persists cb Q" "Q s" for Q
      by (rule commit [OF that(1) st2 [OF that]])
    have "batch_handled hs cb p joined s2"
      using rooms_handled [of clk hs cb p joined p1 s p2 s2] r None p1 by simp
    then have bh: "batch_handled hs cb p joined s'"
      by (rule batch_handled_stable) (rule commit)
    have "sync_token p' = Some batch" "tracked_rooms p' = tracked_rooms p"
      "gap_recovery_enabled p' = gap_recovery_enabled p"
      using p2 \<open>p' = ?p3\<close> by simp_all
    with Some bj bh \<open>out = Committed \<or> _\<close> have
      "\<exists>batch joined. hs_sync hs (sync_token p) (timeline_limit p) = Some (batch, joined) \<and>
         sync_token p' = Some batch \<and> batch_handled hs cb p joined s' \<and>
         (out = Committed \<or> (\<exists>e. out = LoopDied e))" by simp
    moreover have "\<forall>Q. persists cb Q \<longrightarrow> Q s \<longrightarrow> Q s'" by (intro allI impI) (rule st)
    ultimately show ?thesis using \<open>tracked_rooms p' = _\<close> \<open>gap_recovery_enabled p' = _\<close> by simp
  next
    case (Some e)
    let ?p3 = "p2\<lparr>live_recovery_failures := Suc (live_recovery_failures p2)\<rparr>"
    let ?c = "call_optional (map_option (\<lambda>f. f ?p3) (on_recovery_episode cb)) (RecoveryFailed e (sync_token p)) s2"
    have "sync_iteration clk hs cb (p, s) =
       (case ?c of (s3, Some e') \<Rightarrow> ((?p3, s3), LoopDied e')
        | (s3, None) \<Rightarrow> ((?p3\<lparr>sync_token := sync_token p\<rparr>, s3), Retained e))"
      by (simp add: sync_iteration_def sync_once_def p1_def [symmetric] Let_def \<open>hs_sync _ _ _ = _\<close> bj r Some)
    with assms have out: "fst ?c = s'" "sync_token p' = sync_token p" "tracked_rooms p' = tracked_rooms p2"
      "gap_recovery_enabled p' = gap_recovery_enabled p2" "out \<noteq> Committed"
      using p2(1) by (cases ?c; cases "snd ?c"; auto)+
    have "Q s'" if "persists cb Q" "Q s" for Q
      using stable_note [OF that(1) st2 [OF that], of ?p3 "RecoveryFailed e (sync_token p)"] out(1) by simp
    then have "\<forall>Q. persists cb Q \<longrightarrow> Q s \<longrightarrow> Q s'" by (intro allI impI)
    with out(2-) p2 show ?thesis by simp
  qed
qed

text \<open>
  What callbacks keep while the token is \<open>t\<close>: during a round every callback but the commit
  sees the old token.
\<close>

definition persists_at :: "string option \<Rightarrow> 's callbacks \<Rightarrow> ('s \<Rightarrow> bool) \<Rightarrow> bool" where
  "persists_at t cb Q \<longleftrightarrow>
     (\<forall>h \<in> set (handlers cb). \<forall>p e s. sync_token p = t \<longrightarrow> Q s \<longrightarrow> Q (fst (h p e s))) \<and>
     (\<forall>f. on_recovery_episode cb = Some f \<longrightarrow> (\<forall>p n s. sync_token p = t \<longrightarrow> Q s \<longrightarrow> Q (fst (f p n s))))"

lemma note_at:
  "persists_at t cb Q \<Longrightarrow> sync_token p = t \<Longrightarrow> Q s \<Longrightarrow>
   Q (fst (call_optional (map_option (\<lambda>f. f p) (on_recovery_episode cb)) n s))"
  by (cases "on_recovery_episode cb") (simp_all add: persists_at_def call_optional_def)

lemma dispatch_room_at:
  assumes "persists_at t cb Q" and "sync_token p = t" and "Q s"
  shows "Q (snd (fst (dispatch_room cb i p es s)))"
proof -
  have "Q (fst (h (p\<lparr>current_recovery_episode := i\<rparr>) e s))" if "h \<in> set (handlers cb)" "Q s" for h e s
    using assms(1,2) that by (simp add: persists_at_def)
  then have one: "Q (fst (seq_all (\<lambda>h. h (p\<lparr>current_recovery_episode := i\<rparr>) e) (handlers cb) s))" if "Q s" for e s
    using that by (rule seq_all_stable [where Q = Q])
  have "Q (fst (dispatch_events cb (p\<lparr>current_recovery_episode := i\<rparr>) es s))"
    unfolding dispatch_events_def by (rule seq_all_stable [where Q = Q]) (erule one, rule assms(3))
  then show ?thesis by (simp add: dispatch_room_def Let_def)
qed

lemma process_room_at:
  assumes "persists_at t cb Q" and "sync_token (fst st) = t" and "Q (snd st)"
  shows "Q (snd (fst (process_room clk hs cb since item st)))"
proof -
  obtain p s where st: "st = (p, s)" by (cases st)
  have "Q (snd (fst (recover_room clk hs cb since item p s)))"
  proof (cases "closing_history hs item since")
    case (Inr hp)
    obtain hist pages where "hp = (hist, pages)" by (cases hp)
    with Inr show ?thesis
      using dispatch_room_at [OF assms(1)] note_at [OF assms(1)] assms(2,3)
      by (simp add: recover_room_cases Let_def note_episode_frame st)
  qed (simp add: recover_room_cases Let_def assms(3) [unfolded st, simplified])
  then show ?thesis
    using dispatch_room_at [OF assms] assms(3) by (simp add: process_room_def st)
qed

text \<open>A round split at the commit: what held under the old token holds until then.\<close>

lemma sync_iteration_at:
  assumes it: "sync_iteration clk hs cb (p, s) = ((p', s'), out)"
    and Q: "persists_at (sync_token p) cb Q" "Q s"
  shows "(sync_token p' = sync_token p \<and> out \<noteq> Committed \<and> Q s') \<or>
    (\<exists>batch joined s2. hs_sync hs (sync_token p) (timeline_limit p) = Some (batch, joined) \<and>
       sync_token p' = Some batch \<and> batch_handled hs cb p joined s2 \<and> Q s2 \<and>
       s' = fst (call_optional (map_option (\<lambda>f. f p') (on_commit cb)) batch s2) \<and>
       (\<forall>R. persists cb R \<longrightarrow> R s \<longrightarrow> R s2))"
proof (cases "hs_sync hs (sync_token p) (timeline_limit p)")
  case None
  with it Q show ?thesis by (auto simp: sync_iteration_def sync_once_def)
next
  case (Some bj)
  obtain batch joined where bj: "bj = (batch, joined)" by (cases bj)
  let ?f = "process_room clk hs cb (sync_token p)" and ?rooms = "map slice_of joined"
  define p1 where "p1 = fold note_slice joined p"
  have p1: "sync_token p1 = sync_token p" "tracked_rooms p1 = tracked_rooms p"
    "gap_recovery_enabled p1 = gap_recovery_enabled p"
    by (simp_all add: p1_def note_slice_frame)
  obtain p2 s2 x where r: "seq_all ?f ?rooms (p1, s) = ((p2, s2), x)"
    by (metis prod.collapse)
  have "(\<lambda>st. sync_token (fst st) = sync_token p \<and> Q (snd st)) (fst (seq_all ?f ?rooms (p1, s)))"
    by (rule seq_all_stable) (use process_room_at [OF Q(1)] Q(2) p1 in \<open>auto simp: process_room_frame\<close>)
  then have s2: "sync_token p2 = sync_token p" "Q s2" using r by simp_all
  have st2: "R s2" if "persists cb R" "R s" for R
  proof -
    have "(\<lambda>st. R (snd st)) (fst (seq_all ?f ?rooms (p1, s)))"
      by (rule seq_all_stable) (use that process_room_stable [OF that(1)] in auto)
    with r show ?thesis by simp
  qed
  show ?thesis
  proof (cases x)
    case None
    let ?p3 = "p2\<lparr>sync_token := Some batch\<rparr>"
    have "s' = fst (call_optional (map_option (\<lambda>f. f ?p3) (on_commit cb)) batch s2)" "p' = ?p3"
      using it Some bj r None
      by (auto simp: sync_iteration_def sync_once_def p1_def [symmetric] Let_def split: prod.splits option.splits)
    moreover have "batch_handled hs cb p joined s2"
      using rooms_handled [of clk hs cb p joined p1 s p2 s2] r None p1 by simp
    moreover have "\<forall>R. persists cb R \<longrightarrow> R s \<longrightarrow> R s2" by (intro allI impI) (rule st2)
    ultimately show ?thesis using Some bj s2 by (intro disjI2 exI [of _ batch] exI [of _ joined] exI [of _ s2]) simp
  next
    case (Some e)
    let ?p3 = "p2\<lparr>live_recovery_failures := Suc (live_recovery_failures p2)\<rparr>"
    let ?c = "call_optional (map_option (\<lambda>f. f ?p3) (on_recovery_episode cb)) (RecoveryFailed e (sync_token p)) s2"
    have "sync_iteration clk hs cb (p, s) =
       (case ?c of (s3, Some e') \<Rightarrow> ((?p3, s3), LoopDied e')
        | (s3, None) \<Rightarrow> ((?p3\<lparr>sync_token := sync_token p\<rparr>, s3), Retained e))"
      by (simp add: sync_iteration_def sync_once_def p1_def [symmetric] Let_def \<open>hs_sync _ _ _ = _\<close> bj r Some)
    with it have "fst ?c = s'" "sync_token p' = sync_token p" "out \<noteq> Committed"
      using s2(1) by (cases ?c; cases "snd ?c"; auto)+
    moreover have "Q (fst ?c)" by (rule note_at [OF Q(1)]) (use s2 in simp_all)
    ultimately show ?thesis by simp
  qed
qed

section \<open>A homeserver that keeps its log\<close>

text \<open>
  What Matrix promises of \<open>/sync\<close> and \<open>/messages\<close>, for one room with the message events
  \<open>evlog\<close>: a token \<open>tok k\<close> stands for a position; a sync from it moves to a later position,
  and every event between the two is in the room's timeline or, the timeline being limited,
  in the history between its \<open>prev_batch\<close> and the old token. An event id names one event.
\<close>

definition shown :: "homeserver \<Rightarrow> string option \<Rightarrow> room_sync_slice \<Rightarrow> timeline_event \<Rightarrow> bool" where
  "shown hs since item e \<longleftrightarrow>
     (if slice_limited item
      then \<forall>hist pages. closes_gap hs item since hist pages \<longrightarrow>
             e \<in> set (slice_events item @ hist) \<and>
             (\<forall>x \<in> set (slice_events item @ hist). ev_id x = ev_id e \<longrightarrow> x = e)
      else e \<in> set (slice_events item))"

definition serves :: "(nat \<Rightarrow> string) \<Rightarrow> timeline_event list \<Rightarrow> string \<Rightarrow> homeserver \<Rightarrow> bool" where
  "serves tok evlog room hs \<longleftrightarrow>
     (\<forall>k limit batch joined. k \<le> length evlog \<longrightarrow> hs_sync hs (Some (tok k)) limit = Some (batch, joined) \<longrightarrow>
        (\<exists>q. k \<le> q \<and> q \<le> length evlog \<and> batch = tok q \<and>
           (\<forall>i. k \<le> i \<and> i < q \<longrightarrow>
              (\<exists>t \<in> set joined. nio_room t = room \<and> shown hs (Some (tok k)) (slice_of t) (evlog ! i)))))"

lemma shown_delivered:
  assumes "shown hs since item e" and "delivered hs True since item = Inr es"
  shows "e \<in> set es"
proof (cases "slice_limited item")
  case False
  with assms show ?thesis by (simp add: shown_def delivered_def)
next
  case True
  with assms(2) obtain hist pages where c: "closing_history hs item since = Inr (hist, pages)"
    and es: "es = merge.taken [] (slice_events item @ hist)"
    by (auto simp: delivered_def rbind_eq_Inr)
  with True assms(1) have e: "e \<in> set (slice_events item @ hist)"
    and u: "\<forall>x \<in> set (slice_events item @ hist). ev_id x = ev_id e \<longrightarrow> x = e"
    by (auto simp: shown_def closing_history_iff)
  from e have "ev_id e \<in> ev_id ` set es"
    unfolding es merge_taken_ids by (rule imageI)
  then obtain x where "x \<in> set es" "ev_id x = ev_id e" by auto
  with u merge.taken_subset [of "[]" "slice_events item @ hist"] es show ?thesis by auto
qed

lemma round_keeps_promise:
  assumes serves: "serves tok evlog room hs" and it: "sync_iteration clk hs cb (p, s) = ((p', s'), out)"
    and tok: "sync_token p = Some (tok k)" "k \<le> length evlog"
    and tr: "is_tracked p room" "gap_recovery_enabled p"
    and Q: "\<forall>i < k. Q i s" "\<forall>i < length evlog. persists cb (Q i) \<and> establishes cb (evlog ! i) (Q i)"
  shows "\<exists>k'. k \<le> k' \<and> k' \<le> length evlog \<and> sync_token p' = Some (tok k') \<and> (\<forall>i < k'. Q i s') \<and>
    is_tracked p' room \<and> gap_recovery_enabled p'"
proof -
  note cases = sync_iteration_cases [OF it]
  have old: "Q i s'" if "i < k" for i
    using cases Q that tok(2) by (meson order_less_le_trans)
  have frame: "is_tracked p' room" "gap_recovery_enabled p'"
    using cases tr by (simp_all add: is_tracked_def)
  from cases consider "sync_token p' = sync_token p"
    | batch joined where "hs_sync hs (sync_token p) (timeline_limit p) = Some (batch, joined)"
      "sync_token p' = Some batch" "batch_handled hs cb p joined s'" by blast
  then show ?thesis
  proof cases
    case 1
    with old frame tok show ?thesis by auto
  next
    case 2
    with serves tok obtain q where q: "k \<le> q" "q \<le> length evlog" "batch = tok q"
      and sh: "\<And>i. k \<le> i \<Longrightarrow> i < q \<Longrightarrow> \<exists>t \<in> set joined. nio_room t = room \<and>
        shown hs (Some (tok k)) (slice_of t) (evlog ! i)"
      unfolding serves_def by force
    have "Q i s'" if "k \<le> i" "i < q" for i
    proof -
      from sh [OF that] obtain t where t: "t \<in> set joined" "nio_room t = room"
        "shown hs (Some (tok k)) (slice_of t) (evlog ! i)" by blast
      with 2(3) tr tok(1) obtain es where es: "delivered hs True (Some (tok k)) (slice_of t) = Inr es"
        and h: "\<forall>e \<in> set es. \<forall>Q. persists cb Q \<longrightarrow> establishes cb e Q \<longrightarrow> Q s'"
        unfolding batch_handled_def by auto
      have "i < length evlog" using that q(2) by simp
      with Q(2) have "persists cb (Q i)" "establishes cb (evlog ! i) (Q i)" by simp_all
      with h shown_delivered [OF t(3) es] show ?thesis by blast
    qed
    with old have "\<forall>i < q. Q i s'" by (meson not_le)
    with q frame 2(2) show ?thesis by auto
  qed
qed

lemma loop_keeps_promise:
  assumes "\<forall>hs \<in> set srvs. serves tok evlog room hs"
    and "sync_token p = Some (tok k)" "k \<le> length evlog"
    and "is_tracked p room" "gap_recovery_enabled p"
    and "\<forall>i < k. Q i s" "\<forall>i < length evlog. persists cb (Q i) \<and> establishes cb (evlog ! i) (Q i)"
    and "sync_loop clk srvs cb (p, s) = (p', s')"
  shows "\<exists>k'. k \<le> k' \<and> k' \<le> length evlog \<and> sync_token p' = Some (tok k') \<and> (\<forall>i < k'. Q i s')"
  using assms
proof (induction srvs arbitrary: p s k)
  case Nil
  then show ?case by auto
next
  case (Cons hs srvs)
  obtain p1 s1 out where it: "sync_iteration clk hs cb (p, s) = ((p1, s1), out)"
    by (metis prod.collapse)
  have "serves tok evlog room hs" using Cons.prems(1) by simp
  from round_keeps_promise [OF this it Cons.prems(2-7)] obtain k1 where
    k1: "k \<le> k1" "k1 \<le> length evlog" "sync_token p1 = Some (tok k1)" "\<forall>i < k1. Q i s1"
      "is_tracked p1 room" "gap_recovery_enabled p1" by blast
  show ?case
  proof (cases "\<exists>e. out = LoopDied e")
    case True
    with Cons.prems(8) it k1 show ?thesis by auto
  next
    case False
    with Cons.prems(8) it have "sync_loop clk srvs cb (p1, s1) = (p', s')"
      by (cases out) auto
    with Cons.IH [OF _ k1(3,2,5,6,4) Cons.prems(7)] Cons.prems(1) k1(1) show ?thesis
      by (auto intro: le_trans)
  qed
qed

text \<open>A handler that always raises on an event of the window holds the token for ever.\<close>

definition poisoned :: "'s callbacks \<Rightarrow> participant \<Rightarrow> homeserver \<Rightarrow> bool" where
  "poisoned cb p hs \<longleftrightarrow>
     (\<exists>batch joined t e h. hs_sync hs (sync_token p) (timeline_limit p) = Some (batch, joined) \<and>
        t \<in> set joined \<and> is_tracked p (nio_room t) \<and> \<not> nio_limited t \<and>
        e \<in> set (slice_events (slice_of t)) \<and> h \<in> set (handlers cb) \<and> (\<forall>q s. snd (h q e s) \<noteq> None))"

lemma dispatch_poisoned:
  assumes "e \<in> set es" "h \<in> set (handlers cb)" "\<And>q s. snd (h q e s) \<noteq> None"
  shows "snd (dispatch_events cb p es s) \<noteq> None"
  unfolding dispatch_events_def
  by (rule seq_all_stops [OF assms(1)]) (rule seq_all_stops [OF assms(2)], rule assms(3))

lemma sync_iteration_poisoned:
  assumes "poisoned cb p hs"
  shows "sync_token (fst (fst (sync_iteration clk hs cb (p, s)))) = sync_token p"
proof -
  obtain p' s' out where it: "sync_iteration clk hs cb (p, s) = ((p', s'), out)"
    by (metis prod.collapse)
  from assms obtain batch joined t e h where sync: "hs_sync hs (sync_token p) (timeline_limit p) = Some (batch, joined)"
    and t: "t \<in> set joined" "is_tracked p (nio_room t)" "\<not> nio_limited t" "e \<in> set (slice_events (slice_of t))"
    and h: "h \<in> set (handlers cb)" "\<And>q s. snd (h q e s) \<noteq> None"
    unfolding poisoned_def by blast
  let ?Q = "\<lambda>_ :: 's. False"
  have "establishes cb e ?Q" using h by (auto simp: establishes_def)
  moreover have "persists cb ?Q" by (simp add: persists_def)
  ultimately have "\<not> batch_handled hs cb p joined s'"
    using t by (auto simp: batch_handled_def delivered_def slice_of_def)
  with sync_iteration_cases [OF it] sync it show ?thesis by auto
qed

section \<open>Properties\<close>

text \<open>
  C6: The sync loop advances its token only past a batch that is done: after one round
  either the token is the old one, or it is the token the sync returned and every tracked
  room's timeline was reconciled without an unresolved gap and each of its events went
  through every handler without an exception. A failed round keeps the token.
\<close>

theorem commit_after_dispatch:
  assumes "sync_iteration clk hs cb (p, s) = ((p', s'), out)"
  shows "(sync_token p' = sync_token p \<or>
      (\<exists>batch joined. hs_sync hs (sync_token p) (timeline_limit p) = Some (batch, joined) \<and>
         sync_token p' = Some batch \<and> batch_handled hs cb p joined s')) \<and>
    (out = SyncFailed \<or> (\<exists>e. out = Retained e) \<longrightarrow> sync_token p' = sync_token p) \<and>
    (out = Committed \<longrightarrow> (\<exists>batch joined. hs_sync hs (sync_token p) (timeline_limit p) = Some (batch, joined) \<and>
         sync_token p' = Some batch \<and> batch_handled hs cb p joined s'))"
  using sync_iteration_cases [OF assms] by auto

text \<open>A participant whose handler keeps a list of the bodies it was given.\<close>

definition recording :: "string list callbacks" where
  "recording = \<lparr>handlers = [\<lambda>_ e s. (s @ [ev_id e], None)], on_recovery_episode = None, on_commit = None\<rparr>"

definition limited_server :: homeserver where
  "limited_server = three_pages\<lparr>hs_sync := (\<lambda>_ _. Some (''t5'',
     [\<lparr>nio_room = ''!r'', nio_events = [\<lparr>nio_body = Some ''hello'', nio_source_body = None,
        nio_id = ''$4'', nio_sender = ''@h'', nio_ts = 1\<rparr>],
        nio_limited = True, nio_prev_batch = Some ''t3''\<rparr>]))\<rparr>"

definition example_participant :: participant where
  "example_participant = (new_participant (Some 1) 0)\<lparr>sync_token := Some ''t0''\<rparr>"

lemma example_round:
  "snd (sync_iteration (\<lambda>n. int n) limited_server recording (example_participant, [])) = Committed"
  "snd (fst (sync_iteration (\<lambda>n. int n) limited_server recording (example_participant, []))) =
     [''$4'', ''$3'', ''$2'', ''$1'']"
  by code_simp+

theorem commit_after_dispatch_witness:
  "\<exists>p'. sync_iteration (\<lambda>n. int n) limited_server recording (example_participant, []) =
     ((p', [''$4'', ''$3'', ''$2'', ''$1'']), Committed) \<and> sync_token p' = Some ''t5''"
proof -
  from example_round obtain p' where it: "sync_iteration (\<lambda>n. int n) limited_server recording
      (example_participant, []) = ((p', [''$4'', ''$3'', ''$2'', ''$1'']), Committed)"
    by (metis prod.collapse)
  from commit_after_dispatch [OF it] have "sync_token p' = Some ''t5''"
    by (auto simp: limited_server_def)
  with it show ?thesis by blast
qed


text \<open>
  A homeserver of four messages, the first three only in history: positions \<open>t0\<close> to \<open>t4\<close>.
\<close>

definition log_server :: homeserver where
  "log_server = limited_server\<lparr>hs_sync := (\<lambda>since _.
     if since = Some ''t0'' then map_option (\<lambda>(_, joined). (''t4'', joined)) (hs_sync limited_server None None)
     else None)\<rparr>"

definition log_events :: "timeline_event list" where
  "log_events = map example_event [''$1'', ''$2'', ''$3'', ''$4'']"

definition log_token :: "nat \<Rightarrow> string" where
  "log_token k = (if k = 0 then ''t0'' else if k = 4 then ''t4'' else ''u'')"

lemma log_server_history:
  assumes "closes_gap log_server (slice_of t) (Some ''t0'') hist pages"
    and "t = \<lparr>nio_room = ''!r'', nio_events = [\<lparr>nio_body = Some ''hello'', nio_source_body = None,
        nio_id = ''$4'', nio_sender = ''@h'', nio_ts = 1\<rparr>],
        nio_limited = True, nio_prev_batch = Some ''t3''\<rparr>"
  shows "hist = map example_event [''$3'', ''$2'', ''$1'']"
proof -
  have "closing_history log_server (slice_of t) (Some ''t0'') =
      Inr (map example_event [''$3'', ''$2'', ''$1''], 3)"
    unfolding assms(2) by code_simp
  with assms(1) show ?thesis by (simp add: closing_history_iff [symmetric])
qed

lemma log_server_serves: "serves log_token log_events ''!r'' log_server"
  unfolding serves_def
proof (intro allI impI)
  fix k limit batch joined
  assume k: "k \<le> length log_events" and s: "hs_sync log_server (Some (log_token k)) limit = Some (batch, joined)"
  let ?t = "\<lparr>nio_room = ''!r'', nio_events = [\<lparr>nio_body = Some ''hello'', nio_source_body = None,
        nio_id = ''$4'', nio_sender = ''@h'', nio_ts = 1\<rparr>],
        nio_limited = True, nio_prev_batch = Some ''t3''\<rparr>"
  from s have t: "k = 0" "batch = ''t4''" "joined = [?t]"
    by (auto simp: log_server_def limited_server_def log_token_def split: if_splits)
  have "shown log_server (Some ''t0'') (slice_of ?t) e" if "e \<in> set log_events" for e
  proof -
    have direct: "slice_events (slice_of ?t) = [example_event ''$4'']" "slice_limited (slice_of ?t)"
      by (simp_all add: slice_of_def map_filter_def to_timeline_event_def example_event_def)
    have inj: "example_event i = example_event j \<longleftrightarrow> i = j" "ev_id (example_event i) = i" for i j
      by (auto simp: example_event_def)
    show ?thesis
      unfolding shown_def direct(1) if_P [OF direct(2)]
    proof (intro allI impI)
      fix hist pages assume "closes_gap log_server (slice_of ?t) (Some ''t0'') hist pages"
      then have h: "hist = map example_event [''$3'', ''$2'', ''$1'']"
        by (rule log_server_history) simp
      show "e \<in> set ([example_event ''$4''] @ hist) \<and>
          (\<forall>x \<in> set ([example_event ''$4''] @ hist). ev_id x = ev_id e \<longrightarrow> x = e)"
        using that by (auto simp: h log_events_def inj)
    qed
  qed
  then have "shown log_server (Some ''t0'') (slice_of ?t) (log_events ! i)" if "i < 4" for i
  proof -
    have "i < length log_events" using that by (simp add: log_events_def)
    then show ?thesis by (intro \<open>\<And>e. e \<in> set log_events \<Longrightarrow> _\<close> nth_mem)
  qed
  then show "\<exists>q. k \<le> q \<and> q \<le> length log_events \<and> batch = log_token q \<and>
     (\<forall>i. k \<le> i \<and> i < q \<longrightarrow>
        (\<exists>t \<in> set joined. nio_room t = ''!r'' \<and> shown log_server (Some (log_token k)) (slice_of t) (log_events ! i)))"
    by (intro exI [of _ 4]) (simp add: t log_token_def log_events_def)
qed


text \<open>
  C8: The loop makes progress when nothing goes wrong: if the sync answers, every limited
  timeline of a tracked room can be walked back to the token within the page bound, and
  no handler or callback raises, the round commits the token the sync returned.
\<close>

theorem healthy_round_commits:
  assumes "hs_sync hs (sync_token p) (timeline_limit p) = Some (batch, joined)"
    and "\<forall>t \<in> set joined. is_tracked p (nio_room t) \<longrightarrow>
      returns (delivered hs (gap_recovery_enabled p) (sync_token p) (slice_of t))"
    and "\<forall>h \<in> set (handlers cb). \<forall>q e s. snd (h q e s) = None"
    and "\<forall>f. on_recovery_episode cb = Some f \<longrightarrow> (\<forall>q n s. snd (f q n s) = None)"
    and "\<forall>f. on_commit cb = Some f \<longrightarrow> (\<forall>q n s. snd (f q n s) = None)"
  shows "\<exists>p' s'. sync_iteration clk hs cb (p, s) = ((p', s'), Committed) \<and> sync_token p' = Some batch"
proof -
  have "snd (seq_all (\<lambda>h. h q e) (handlers cb) t) = None" for q e t
    by (rule seq_all_no_raise [where I = "\<lambda>_. True"]) (simp_all add: assms(3))
  then have d: "snd (dispatch_events cb q es t) = None" for q es t
    unfolding dispatch_events_def by (intro seq_all_no_raise [where I = "\<lambda>_. True"]) simp_all
  have n: "snd (call_optional (map_option (\<lambda>f. f q) (on_recovery_episode cb)) m t) = None" for q m t
    using assms(4) by (cases "on_recovery_episode cb") (simp_all add: call_optional_def)
  have c: "snd (call_optional (map_option (\<lambda>f. f q) (on_commit cb)) m t) = None" for q m t
    using assms(5) by (cases "on_commit cb") (simp_all add: call_optional_def)
  have dr: "snd (dispatch_room cb i q es t) = None" for i q es t
    by (simp add: dispatch_room_def Let_def d)
  have room: "snd (process_room clk hs cb (sync_token p) (slice_of t) st) = None"
    if "t \<in> set joined" "tracked_rooms (fst st) = tracked_rooms p"
      "gap_recovery_enabled (fst st) = gap_recovery_enabled p" for t st
    using assms(2) that
    by (auto simp: process_room_def recover_room_cases Let_def dr n delivered_def is_tracked_def
        split: sum.splits if_splits)
  let ?r = "seq_all (process_room clk hs cb (sync_token p)) (map slice_of joined) (fold note_slice joined p, s)"
  have "snd ?r = None"
  proof (rule seq_all_no_raise [where I = "\<lambda>st. settings st = settings (p, s)"])
    fix item and st :: "participant \<times> 'a" assume "item \<in> set (map slice_of joined)" and st: "settings st = settings (p, s)"
    then obtain t where "t \<in> set joined" "item = slice_of t" by auto
    with st room [of t st] show "snd (process_room clk hs cb (sync_token p) item st) = None \<and>
        settings (fst (process_room clk hs cb (sync_token p) item st)) = settings (p, s)"
      by (simp add: process_room_settings) (simp add: settings_def)
  qed (simp add: settings_def note_slice_frame)
  moreover obtain p2 s2 where "fst ?r = (p2, s2)" by (cases "fst ?r")
  ultimately have r: "?r = ((p2, s2), None)" by (metis prod.collapse)
  have "sync_iteration clk hs cb (p, s) =
      ((p2\<lparr>sync_token := Some batch\<rparr>,
        fst (call_optional (map_option (\<lambda>f. f (p2\<lparr>sync_token := Some batch\<rparr>)) (on_commit cb)) batch s2)), Committed)"
    using c [of "p2\<lparr>sync_token := Some batch\<rparr>" batch s2]
    by (auto simp: sync_iteration_def sync_once_def assms(1) r Let_def split: prod.split option.split)
  then show ?thesis by simp
qed

theorem healthy_round_commits_witness:
  "\<exists>p' s'. sync_iteration (\<lambda>n. int n) log_server recording (example_participant, []) = ((p', s'), Committed) \<and>
     sync_token p' = Some ''t4''"
proof (rule healthy_round_commits)
  let ?t = "\<lparr>nio_room = ''!r'', nio_events = [\<lparr>nio_body = Some ''hello'', nio_source_body = None,
        nio_id = ''$4'', nio_sender = ''@h'', nio_ts = 1\<rparr>],
        nio_limited = True, nio_prev_batch = Some ''t3''\<rparr>"
  show "hs_sync log_server (sync_token example_participant) (timeline_limit example_participant) =
      Some (''t4'', [?t])"
    by (simp add: log_server_def limited_server_def example_participant_def)
  have "closing_history log_server (slice_of ?t) (Some ''t0'') =
      Inr (map example_event [''$3'', ''$2'', ''$1''], 3)"
    by code_simp
  then show "\<forall>t \<in> set [?t]. is_tracked example_participant (nio_room t) \<longrightarrow>
      returns (delivered log_server (gap_recovery_enabled example_participant)
        (sync_token example_participant) (slice_of t))"
    by (simp add: delivered_def example_participant_def)
qed (simp_all add: recording_def)

end
