(* ===== verification/Privilege.thy ===== *)
theory Privilege
  imports Py_Text "HOL-Library.Sublist"
begin

text \<open>
  \<^verbatim>\<open>src/fam/common/privilege.py\<close>: the agent's evidence about its own lack of privilege. The
  process environment, the file system and \<open>/proc/mounts\<close> are arguments: the value of a
  variable, whether a path exists, the key files under a directory, the lines of the mounts
  file if it can be read.
\<close>

definition FORBIDDEN_ENV_MARKERS :: "string list" where
  "FORBIDDEN_ENV_MARKERS = [''POSTGRES_PASSWORD'', ''POSTGRES_USER'', ''POSTGRES_A_PASSWORD'',
     ''POSTGRES_B_PASSWORD'', ''REGISTRATION_SHARED_SECRET'', ''SYNAPSE_ADMIN_TOKEN'',
     ''MACAROON_SECRET_KEY'', ''FORM_SECRET'']"

definition FORBIDDEN_PATHS :: "string list" where
  "FORBIDDEN_PATHS = [''/synapse'', ''/synapse/a'', ''/synapse/b'', ''/data/homeserver.yaml'']"

definition ADMIN_PROBE_PATH :: string where
  "ADMIN_PROBE_PATH = ''/_synapse/admin/v2/users?from=0&limit=1''"

record environment =
  env_get :: "string \<Rightarrow> string option"
  path_exists :: "string \<Rightarrow> bool"
  key_files :: "string \<Rightarrow> string list"
  mount_lines :: "string list option"

record evidence =
  no_privileged_env_vars :: bool
  privileged_env_vars_found :: "string list"
  no_server_paths_visible :: bool
  server_paths_found :: "string list"
  no_signing_keys_visible :: bool
  signing_keys_found :: "string list"
  no_synapse_mounts :: bool
  synapse_mounts_found :: "string list"

text \<open>\<open>line.split()\<close>: the runs of characters that are not white space.\<close>

function py_split :: "string \<Rightarrow> string list" where
  "py_split s =
     (let t = dropWhile is_space s in
      if t = [] then []
      else takeWhile (\<lambda>c. \<not> is_space c) t # py_split (dropWhile (\<lambda>c. \<not> is_space c) t))"
  by auto

lemma dropWhile_progress:
  assumes "dropWhile P s \<noteq> []" and "\<And>c. \<not> P c \<Longrightarrow> Q c"
  shows "length (dropWhile Q (dropWhile P s)) < length s"
proof -
  obtain c cs where c: "dropWhile P s = c # cs" using assms(1) by (cases "dropWhile P s") auto
  then have "Q c" using assms(2) dropWhile_head by metis
  with c have "length (dropWhile Q (dropWhile P s)) \<le> length cs" by (simp add: length_dropWhile_le)
  also have "\<dots> < length (dropWhile P s)" using c by simp
  also have "\<dots> \<le> length s" by (rule length_dropWhile_le)
  finally show ?thesis .
qed

termination py_split
  by (relation "measure length") (auto simp: Let_def intro!: dropWhile_progress)

definition mount_targets :: "environment \<Rightarrow> string list" where
  "mount_targets env =
     (case mount_lines env of
        None \<Rightarrow> []
      | Some ls \<Rightarrow> map (\<lambda>l. py_split l ! 1) (filter (\<lambda>l. 2 \<le> length (py_split l)) ls))"

definition signing_keys :: "environment \<Rightarrow> string list" where
  "signing_keys env = concat (map (key_files env) [''/data'', ''/synapse'', ''/tls''])"

definition synapse_mounts :: "environment \<Rightarrow> string list" where
  "synapse_mounts env =
     sort (filter (\<lambda>m. sublist ''synapse'' m \<or> prefix ''/data'' m) (mount_targets env))"

definition environment_evidence :: "environment \<Rightarrow> evidence" where
  "environment_evidence env =
     (let present_env = sort (filter (\<lambda>n. case env_get env n of None \<Rightarrow> False | Some v \<Rightarrow> v \<noteq> [])
                          FORBIDDEN_ENV_MARKERS);
          present_paths = sort (filter (path_exists env) FORBIDDEN_PATHS);
          keys = signing_keys env;
          mounts = synapse_mounts env in
      \<lparr>no_privileged_env_vars = (present_env = []), privileged_env_vars_found = present_env,
       no_server_paths_visible = (present_paths = []), server_paths_found = present_paths,
       no_signing_keys_visible = (keys = []), signing_keys_found = sort keys,
       no_synapse_mounts = (mounts = []), synapse_mounts_found = mounts\<rparr>)"

record c2_summary =
  c2_evidence :: evidence
  admin_probe_path :: string
  admin_probe_status :: "int option"
  admin_probe_denied :: bool
  c2_supporting_evidence_complete :: bool

definition summarize :: "evidence \<Rightarrow> int option \<Rightarrow> c2_summary" where
  "summarize ev probe_status =
     (let denied = (probe_status = Some 401 \<or> probe_status = Some 403) in
      \<lparr>c2_evidence = ev, admin_probe_path = ADMIN_PROBE_PATH, admin_probe_status = probe_status,
       admin_probe_denied = denied,
       c2_supporting_evidence_complete =
         (no_privileged_env_vars ev \<and> no_server_paths_visible ev \<and> no_signing_keys_visible ev \<and>
          no_synapse_mounts ev \<and> denied)\<rparr>)"

lemma sort_empty: "sort xs = [] \<longleftrightarrow> xs = []"
  by (metis set_empty2 set_sort)

text \<open>
  The C2 evidence is complete exactly when the agent process really sees none of it: no
  privileged variable set to a non-empty value, no server path, no signing key, no Synapse
  mount, and the admin probe refused with 401 or 403. A 404 and an absent probe result
  never count as a denial.
\<close>

theorem c2_evidence_exact:
  "c2_supporting_evidence_complete (summarize (environment_evidence env) status) \<longleftrightarrow>
     (\<forall>n \<in> set FORBIDDEN_ENV_MARKERS. env_get env n = None \<or> env_get env n = Some []) \<and>
     (\<forall>p \<in> set FORBIDDEN_PATHS. \<not> path_exists env p) \<and>
     (\<forall>d \<in> {''/data'', ''/synapse'', ''/tls''}. key_files env d = []) \<and>
     (\<forall>m \<in> set (mount_targets env). \<not> sublist ''synapse'' m \<and> \<not> prefix ''/data'' m) \<and>
     status \<in> {Some 401, Some 403}"
  by (auto simp: summarize_def environment_evidence_def Let_def sort_empty filter_empty_conv
      signing_keys_def synapse_mounts_def split: option.splits) (metis not_None_eq)+

theorem c2_evidence_exact_witness:
  "c2_supporting_evidence_complete (summarize (environment_evidence
     \<lparr>env_get = (\<lambda>_. None), path_exists = (\<lambda>_. False), key_files = (\<lambda>_. []),
      mount_lines = Some [''proc /proc proc rw'', ''tmpfs /app tmpfs rw'']\<rparr>) (Some 403)) \<and>
   \<not> c2_supporting_evidence_complete (summarize (environment_evidence
     \<lparr>env_get = (\<lambda>_. None), path_exists = (\<lambda>_. False), key_files = (\<lambda>_. []),
      mount_lines = Some [''proc /proc proc rw'', ''tmpfs /app tmpfs rw'']\<rparr>) (Some 404))"
proof -
  have "mount_targets \<lparr>env_get = (\<lambda>_. None), path_exists = (\<lambda>_. False), key_files = (\<lambda>_. []),
      mount_lines = Some [''proc /proc proc rw'', ''tmpfs /app tmpfs rw'']\<rparr> = [''/proc'', ''/app'']"
    by code_simp
  moreover have "\<not> sublist ''synapse'' ''/proc''" "\<not> sublist ''synapse'' ''/app''"
    "\<not> prefix ''/data'' ''/proc''" "\<not> prefix ''/data'' ''/app''"
    by code_simp+
  ultimately show ?thesis unfolding c2_evidence_exact by simp
qed

end
