(* ===== verification/Runtime.thy ===== *)
theory Runtime
  imports Protocol Recovery Sync_Loop Privilege
begin

text \<open>
  \<^verbatim>\<open>src/fam/agent/runtime.py\<close>: the agent on top of its participant. The state is what
  \<open>AgentRuntime\<close> holds plus its effects in order: the telemetry written, the sends made
  and the checkpoint file. What the agent depends on is the record \<open>agent_env\<close>: the
  protocol's \<open>inbound\<close>, the executor (a call by number, as an LLM may answer differently
  each time), the send (by number likewise) and the clock. The variable part of exception
  texts is left out of notes.
\<close>

section \<open>Configuration, telemetry and state\<close>

record agent_config =
  cfg_user_id :: string
  cfg_password :: string
  cfg_experiment :: string
  cfg_run_id :: string
  cfg_room_id :: string
  cfg_timeline_limit :: "nat option"
  cfg_request_protocol :: string

text \<open>An executor failure, classified as \<open>getattr(exc, "external")\<close> and \<open>"status"\<close> do.\<close>

record exec_failure =
  failure_note :: string
  external :: bool
  failure_status :: "string option"

datatype execution_info =
  NoExecution
  | LastCall string "(string, string) dict"
  | FailedExecution string bool "string option"

record agent_record =
  action :: string
  duplicate_decision :: string
  rec_sender :: string
  request_event_id :: "string option"
  rec_sequence_id :: "int option"
  received_monotonic_ns :: "int option"
  processed_monotonic_ns :: "int option"
  rec_response_txn_id :: "string option"
  rec_response_event_id :: "string option"
  rec_note :: string
  execution_info :: execution_info
  sync_token_present :: bool

datatype telemetry =
  Observation agent_record
  | CheckpointLoaded bool bool "nat option"
  | PrivilegeEvidence bool c2_summary
  | RecoverySkipped
  | PostRestartSync bool bool nat "nat option"
  | LimitedTimelineDetected
  | HistoryPagesReceived nat nat
  | RecoveryComplete "string list" "string list" "string list" ledger_summary
  | RecoveryProcessingComplete ledger_summary
  | LiveRecoveryFailed exn "string option"
  | LiveRecoveryComplete episode
  | LiveSyncSummary nat nat nat nat nat nat nat

record transport_checkpoint =
  ck_access_token :: string
  ck_device_id :: string
  ck_sync_token :: "string option"

record agent_state =
  registry :: processed_registry
  agent_ledger :: recovery_ledger
  checkpoint_token :: "string option"
  resumed_from_checkpoint :: bool
  session :: "string \<times> string"
  stored :: "transport_checkpoint option"
  telemetry_log :: "telemetry list"
  sends :: "(string \<times> string \<times> string) list"
  executor_calls :: nat
  agent_readings :: nat
  live_limited_syncs :: nat
  agent_recovery_episodes :: nat
  agent_history_pages :: nat
  agent_duplicate_observations :: nat
  agent_recovery_failures :: nat
  checkpoint_commits :: nat

record agent_env =
  env_inbound :: "string \<Rightarrow> string \<Rightarrow> string \<Rightarrow> msg_error + inbound_request option"
  env_executor :: "nat \<Rightarrow> execution_request \<Rightarrow> exec_failure + string option"
  env_executor_name :: string
  env_last_call :: "nat \<Rightarrow> (string, string) dict"
  env_send :: "nat \<Rightarrow> string \<Rightarrow> string \<Rightarrow> string \<Rightarrow> exn + string"
  env_clock :: "nat \<Rightarrow> int"

definition new_agent :: "transport_checkpoint option \<Rightarrow> agent_state" where
  "new_agent ck = \<lparr>registry = empty_registry, agent_ledger = empty_ledger, checkpoint_token = None,
     resumed_from_checkpoint = False, session = ([], []), stored = ck, telemetry_log = [], sends = [],
     executor_calls = 0, agent_readings = 0, live_limited_syncs = 0, agent_recovery_episodes = 0,
     agent_history_pages = 0, agent_duplicate_observations = 0, agent_recovery_failures = 0,
     checkpoint_commits = 0\<rparr>"

section \<open>Writing telemetry and checkpoints\<close>

definition log_write :: "telemetry \<Rightarrow> agent_state \<Rightarrow> agent_state" where
  "log_write t s = s\<lparr>telemetry_log := telemetry_log s @ [t]\<rparr>"

text \<open>\<open>_record\<close>, from the fields every caller gives; the others are updated in it.\<close>

definition observation_of :: "participant \<Rightarrow> string \<Rightarrow> string \<Rightarrow> agent_record" where
  "observation_of p act dd = \<lparr>action = act, duplicate_decision = dd, rec_sender = [],
     request_event_id = None, rec_sequence_id = None, received_monotonic_ns = None,
     processed_monotonic_ns = None, rec_response_txn_id = None, rec_response_event_id = None,
     rec_note = [], execution_info = NoExecution, sync_token_present = (sync_token p \<noteq> None)\<rparr>"

definition save_checkpoint :: "participant \<Rightarrow> agent_state \<Rightarrow> agent_state" where
  "save_checkpoint p s = s\<lparr>stored := Some \<lparr>ck_access_token = fst (session s),
     ck_device_id = snd (session s), ck_sync_token = sync_token p\<rparr>\<rparr>"

definition tick :: "agent_state \<Rightarrow> agent_state" where
  "tick s = s\<lparr>agent_readings := agent_readings s + 1\<rparr>"

section \<open>Handling one event\<close>

definition exn_of :: "msg_error \<Rightarrow> exn" where
  "exn_of _ = ValueError"

text \<open>The part of \<open>_handle\<close> after the registry has let the request through.\<close>

definition answer ::
  "agent_config \<Rightarrow> agent_env \<Rightarrow> participant \<Rightarrow> timeline_event \<Rightarrow> int \<Rightarrow> inbound_request \<Rightarrow>
   agent_state \<Rightarrow> agent_state" where
  "answer cfg env p e received i s =
     (let base = (\<lambda>act. (observation_of p act (decision_value PROCESS))
              \<lparr>rec_sender := ev_sender e, request_event_id := Some (ev_id e),
               rec_sequence_id := req_sequence_id i, received_monotonic_ns := Some received,
               processed_monotonic_ns := Some (env_clock env (agent_readings s))\<rparr>);
          call = executor_calls s;
          s1 = tick (s\<lparr>executor_calls := call + 1\<rparr>) in
      case env_executor env call (execution i) of
        Inl f \<Rightarrow>
          log_write (Observation ((base ''execution_failed'')\<lparr>rec_note := failure_note f,
            execution_info := FailedExecution (env_executor_name env) (external f) (failure_status f)\<rparr>)) s1
      | Inr body \<Rightarrow>
          (let info = (if env_last_call env call = [] then NoExecution
                       else LastCall (env_executor_name env) (env_last_call env call)) in
           case body of
             None \<Rightarrow> log_write (Observation ((base ''no_response'')\<lparr>execution_info := info\<rparr>)) s1
           | Some text \<Rightarrow>
               (let txn = response_txn_id i;
                    result = env_send env (length (sends s)) (cfg_room_id cfg) text txn;
                    response = (case result of Inl _ \<Rightarrow> None | Inr event_id \<Rightarrow> Some event_id);
                    failed = (case result of Inl _ \<Rightarrow> ''send failed'' | Inr _ \<Rightarrow> []);
                    s2 = s1\<lparr>sends := sends s1 @ [(cfg_room_id cfg, text, txn)]\<rparr>
                in save_checkpoint p (log_write (Observation
                     ((base (if truthy response then ''responded'' else ''send_failed''))
                       \<lparr>rec_response_txn_id := Some txn, rec_response_event_id := response,
                        rec_note := failed, execution_info := info\<rparr>)) s2))))"

definition handle ::
  "agent_config \<Rightarrow> agent_env \<Rightarrow> participant \<Rightarrow> timeline_event \<Rightarrow> agent_state \<Rightarrow> agent_state effect" where
  "handle cfg env p e s =
     (if ev_room e \<noteq> cfg_room_id cfg then (s, None)
      else if ev_sender e = cfg_user_id cfg then
        (log_write (Observation ((observation_of p ''ignored'' (decision_value SKIP_OWN_EVENT))
           \<lparr>rec_sender := ev_sender e, request_event_id := Some (ev_id e)\<rparr>)) s, None)
      else
        (let received = env_clock env (agent_readings s); s1 = tick s;
             base = (\<lambda>dd. (observation_of p ''ignored'' dd)
               \<lparr>rec_sender := ev_sender e, request_event_id := Some (ev_id e),
                received_monotonic_ns := Some received\<rparr>) in
         case env_inbound env (ev_id e) (ev_sender e) (ev_body e) of
           Inl x \<Rightarrow> (s1, Some (exn_of x))
         | Inr None \<Rightarrow> (log_write (Observation (base (decision_value SKIP_NOT_REQUEST))) s1, None)
         | Inr (Some i) \<Rightarrow>
             (let d = registry_decide (registry s1) (ev_id e) (correlation_key i) in
              if d \<noteq> PROCESS then
                (log_write (Observation ((base (decision_value d))\<lparr>rec_sequence_id := req_sequence_id i,
                   rec_note := ''logical request already processed exactly once''\<rparr>)) s1, None)
              else
                (answer cfg env p e received i
                   (s1\<lparr>registry := registry_commit (registry s1) (ev_id e) (correlation_key i)\<rparr>), None))))"

section \<open>Startup recovery\<close>

definition is_foreign_request ::
  "agent_config \<Rightarrow> agent_env \<Rightarrow> timeline_event \<Rightarrow> exn + bool" where
  "is_foreign_request cfg env e =
     (if ev_room e \<noteq> cfg_room_id cfg \<or> ev_sender e = cfg_user_id cfg then Inr False
      else case env_inbound env (ev_id e) (ev_sender e) (ev_body e) of
        Inl x \<Rightarrow> Inl (exn_of x)
      | Inr i \<Rightarrow> Inr (i \<noteq> None))"

fun foreign_requests ::
  "agent_config \<Rightarrow> agent_env \<Rightarrow> timeline_event list \<Rightarrow> exn + timeline_event list" where
  "foreign_requests cfg env [] = Inr []"
| "foreign_requests cfg env (e # es) =
     rbind (is_foreign_request cfg env e) (\<lambda>b. rbind (foreign_requests cfg env es) (\<lambda>fs.
       Inr (if b then e # fs else fs)))"

definition sequence_of :: "agent_env \<Rightarrow> timeline_event \<Rightarrow> int" where
  "sequence_of env e =
     (case env_inbound env (ev_id e) (ev_sender e) (ev_body e) of
        Inr (Some i) \<Rightarrow> (case req_sequence_id i of Some n \<Rightarrow> n | None \<Rightarrow> 0)
      | _ \<Rightarrow> 0)"

text \<open>The loop that observes the reconciled events and keeps the first sightings.\<close>

fun observe_events ::
  "agent_config \<Rightarrow> agent_env \<Rightarrow> string set \<Rightarrow> timeline_event list \<Rightarrow>
   recovery_ledger \<times> merged \<Rightarrow> (recovery_ledger \<times> merged) \<times> exn option" where
  "observe_events cfg env direct [] st = (st, None)"
| "observe_events cfg env direct (e # es) (l, pending) =
     (case is_foreign_request cfg env e of
        Inl x \<Rightarrow> ((l, pending), Some x)
      | Inr False \<Rightarrow> observe_events cfg env direct es (l, pending)
      | Inr True \<Rightarrow>
          (let (l', first) = observe l (ev_id e) (if ev_id e \<in> direct then SYNC else HISTORY)
           in observe_events cfg env direct es
                (l', if first then AList.update (ev_id e) e pending else pending)))"

definition process_pending ::
  "agent_config \<Rightarrow> agent_env \<Rightarrow> participant \<Rightarrow> timeline_event \<Rightarrow> agent_state \<Rightarrow> agent_state effect" where
  "process_pending cfg env p e s =
     (if \<not> should_process (agent_ledger s) (ev_id e) then (s, None)
      else let r = handle cfg env p e s in
        if snd r \<noteq> None then r
        else ((fst r)\<lparr>agent_ledger := mark_processed (agent_ledger (fst r)) (ev_id e)\<rparr>, None))"

text \<open>From the merged requests on: report, process in sequence order, then commit.\<close>

definition finish_recovery ::
  "agent_config \<Rightarrow> agent_env \<Rightarrow> participant \<Rightarrow> string \<Rightarrow> merged \<Rightarrow> agent_state \<Rightarrow>
   (participant \<times> agent_state) effect" where
  "finish_recovery cfg env p batch pending s =
     (let l = agent_ledger s;
          s1 = log_write (RecoveryComplete (sorted_list_of_set (recovered_event_ids l))
                 (sorted_list_of_set (from_sync l)) (sorted_list_of_set (from_history l)) (summary l)) s;
          r = seq_all (process_pending cfg env p) (sort_key (sequence_of env) (map snd pending)) s1 in
      if snd r \<noteq> None then ((p, fst r), snd r)
      else let p' = p\<lparr>sync_token := Some batch\<rparr>; s2 = save_checkpoint p' (fst r)
           in ((p', log_write (RecoveryProcessingComplete (summary (agent_ledger s2))) s2), None))"

definition recover_slice ::
  "agent_config \<Rightarrow> agent_env \<Rightarrow> homeserver \<Rightarrow> participant \<Rightarrow> string \<Rightarrow> room_sync_slice \<Rightarrow>
   agent_state \<Rightarrow> (participant \<times> agent_state) effect" where
  "recover_slice cfg env hs p batch item s =
     (let s1 = (if slice_limited item then log_write LimitedTimelineDetected s else s) in
      case reconcile_slice hs item (checkpoint_token s) ''startup'' p of
        (p', Inl x) \<Rightarrow> ((p', s1), Some x)
      | (p', Inr (evs, ep)) \<Rightarrow>
          (let pages = ep_history_pages_fetched ep;
               s2 = (if pages \<noteq> 0
                     then log_write (HistoryPagesReceived pages (reconciled_unique_events ep))
                            (s1\<lparr>agent_ledger := note_pagination (agent_ledger s1) pages\<rparr>)
                     else s1) in
           case foreign_requests cfg env (slice_events item) of
             Inl x \<Rightarrow> ((p', s2), Some x)
           | Inr fs \<Rightarrow>
               (let ((l, pending), x) = observe_events cfg env (ev_id ` set fs) evs (agent_ledger s2, []);
                    s3 = s2\<lparr>agent_ledger := l\<rparr> in
                if x \<noteq> None then ((p', s3), x)
                else finish_recovery cfg env p' batch pending s3)))"

definition recover ::
  "agent_config \<Rightarrow> agent_env \<Rightarrow> homeserver \<Rightarrow> participant \<times> agent_state \<Rightarrow>
   (participant \<times> agent_state) effect" where
  "recover cfg env hs st =
     (let (p, s) = st in
      if \<not> truthy (checkpoint_token s) then ((p, log_write RecoverySkipped s), None)
      else case sync_once hs (checkpoint_token s) (timeline_limit p) p of
        (p1, Inl x) \<Rightarrow> ((p1, s), Some x)
      | (p1, Inr snap) \<Rightarrow>
          (let item = snapshot_room snap (cfg_room_id cfg);
               limited = (case item of None \<Rightarrow> False | Some t \<Rightarrow> slice_limited t);
               prev = (case item of None \<Rightarrow> None | Some t \<Rightarrow> slice_prev_batch t);
               s1 = s\<lparr>agent_ledger := (agent_ledger s)\<lparr>limited_timeline := limited,
                        ledger_prev_batch := prev\<rparr>\<rparr> in
           case foreign_requests cfg env (case item of None \<Rightarrow> [] | Some t \<Rightarrow> slice_events t) of
             Inl x \<Rightarrow> ((p1, s1), Some x)
           | Inr fs \<Rightarrow>
               (let s2 = log_write (PostRestartSync limited (prev \<noteq> None) (length fs) (cfg_timeline_limit cfg)) s1 in
                case item of
                  None \<Rightarrow> finish_recovery cfg env p1 (next_batch snap) [] s2
                | Some t \<Rightarrow> recover_slice cfg env hs p1 (next_batch snap) t s2)))"

section \<open>Connecting, live episodes, shutdown\<close>

text \<open>
  \<open>login_result\<close> and \<open>whoami\<close> are what the homeserver answers to a password login and to
  a restored session; \<open>probe\<close> is the process environment and the status of the admin
  probe, absent where the probe raised.
\<close>

definition connect ::
  "agent_config \<Rightarrow> homeserver \<Rightarrow> exn + (string \<times> string) \<Rightarrow> (string \<times> string \<Rightarrow> exn + string) \<Rightarrow>
   environment \<times> int option \<Rightarrow> participant \<times> agent_state \<Rightarrow> (participant \<times> agent_state) effect" where
  "connect cfg hs login_result whoami probe st =
     (let (p, s) = st;
          ck = (case stored s of
                  None \<Rightarrow> \<lparr>ck_access_token = [], ck_device_id = [], ck_sync_token = None\<rparr>
                | Some ck \<Rightarrow> ck);
          restored = (ck_access_token ck, ck_device_id ck);
          credentials =
            (if ck_access_token ck \<noteq> [] \<and> ck_device_id ck \<noteq> [] then
               rbind (whoami restored) (\<lambda>observed.
                 if observed \<noteq> cfg_user_id cfg
                 then rbind login_result (\<lambda>fresh. Inr (fresh, False))
                 else Inr (restored, True))
             else rbind login_result (\<lambda>fresh. Inr (fresh, False))) in
      case credentials of
        Inl x \<Rightarrow> (st, Some x)
      | Inr (sess, resumed) \<Rightarrow>
          (let s1 = s\<lparr>session := sess, resumed_from_checkpoint := resumed\<rparr> in
           case join_room hs (cfg_room_id cfg) 12 of
             Inl x \<Rightarrow> ((p, s1), Some x)
           | Inr _ \<Rightarrow>
               (let s2 = s1\<lparr>checkpoint_token := ck_sync_token ck\<rparr>;
                    (p1, x) = (if truthy (ck_sync_token ck)
                               then (p\<lparr>sync_token := ck_sync_token ck\<rparr>, None)
                               else prime_sync hs p) in
                if x \<noteq> None then ((p1, s2), x)
                else let s3 = log_write (CheckpointLoaded (ck_sync_token ck \<noteq> None) resumed
                                       (cfg_timeline_limit cfg)) s2;
                         s4 = log_write (Observation ((observation_of p1 ''connected'' ''n/a'')
                                \<lparr>rec_note := (if resumed then ''resumed from transport checkpoint''
                                          else ''fresh login'')\<rparr>)) s3;
                         s5 = log_write (PrivilegeEvidence resumed
                                (summarize (environment_evidence (fst probe)) (snd probe))) s4
                     in ((p1, save_checkpoint p1 s5), None))))"

definition record_live_episode :: "participant \<Rightarrow> episode_note \<Rightarrow> agent_state \<Rightarrow> agent_state effect" where
  "record_live_episode p n s =
     (case n of
        RecoveryFailed x retained \<Rightarrow>
          (log_write (LiveRecoveryFailed x retained)
             (s\<lparr>agent_recovery_failures := agent_recovery_failures s + 1\<rparr>), None)
      | Reconciled ep \<Rightarrow>
          (log_write (LiveRecoveryComplete ep) (s\<lparr>live_limited_syncs := live_limited_syncs s + 1,
             agent_recovery_episodes := agent_recovery_episodes s + 1,
             agent_history_pages := agent_history_pages s + ep_history_pages_fetched ep,
             agent_duplicate_observations := agent_duplicate_observations s + duplicate_observations ep\<rparr>), None))"

definition commit_checkpoint :: "participant \<Rightarrow> string \<Rightarrow> agent_state \<Rightarrow> agent_state effect" where
  "commit_checkpoint p token s =
     (save_checkpoint p (s\<lparr>checkpoint_commits := checkpoint_commits s + 1\<rparr>), None)"

text \<open>\<open>run\<close>: the callbacks the agent plugs into its participant, and the rooms it tracks.\<close>

definition agent_callbacks :: "agent_config \<Rightarrow> agent_env \<Rightarrow> agent_state callbacks" where
  "agent_callbacks cfg env = \<lparr>handlers = [handle cfg env],
     on_recovery_episode = Some record_live_episode, on_commit = Some commit_checkpoint\<rparr>"

definition start_run :: "agent_config \<Rightarrow> participant \<Rightarrow> participant" where
  "start_run cfg p = p\<lparr>tracked_rooms := {cfg_room_id cfg}\<rparr>"

definition shutdown :: "participant \<Rightarrow> agent_state \<Rightarrow> agent_state" where
  "shutdown p s = log_write (Observation (observation_of p ''shutdown'' ''n/a''))
     (log_write (LiveSyncSummary (live_limited_syncs s) (agent_recovery_episodes s) (agent_history_pages s)
        (agent_duplicate_observations s) (agent_recovery_failures s) (checkpoint_commits s)
        (processed_count (registry s))) (save_checkpoint p s))"

text \<open>\<open>serve\<close>: connect, recover, then the sync loop.\<close>

definition serve ::
  "agent_config \<Rightarrow> agent_env \<Rightarrow> homeserver \<Rightarrow> exn + (string \<times> string) \<Rightarrow>
   (string \<times> string \<Rightarrow> exn + string) \<Rightarrow> environment \<times> int option \<Rightarrow> homeserver list \<Rightarrow> participant \<times> agent_state \<Rightarrow>
   (participant \<times> agent_state) effect" where
  "serve cfg env hs login_result whoami probe srvs st =
     (case connect cfg hs login_result whoami probe st of
        (st1, Some x) \<Rightarrow> (st1, Some x)
      | (st1, None) \<Rightarrow>
          (case recover cfg env hs st1 of
             (st2, Some x) \<Rightarrow> (st2, Some x)
           | ((p, s), None) \<Rightarrow>
               (let (p', s') = sync_loop (env_clock env) srvs (agent_callbacks cfg env) (start_run cfg p, s)
                in ((p', shutdown p' s'), None))))"

text \<open>\<open>_slug\<close> and the supervisor's own copy of it in \<open>ready_file\<close>.\<close>

definition replace_char :: "char \<Rightarrow> string \<Rightarrow> string" where
  "replace_char c s = map (\<lambda>x. if x = c then CHR ''_'' else x) s"

definition lstrip_at :: "string \<Rightarrow> string" where
  "lstrip_at s = dropWhile (\<lambda>c. c = CHR ''@'') s"

definition slug :: "string \<Rightarrow> string" where
  "slug user_id = replace_char (CHR ''/'') (replace_char (CHR '':'') (lstrip_at user_id))"

definition ready_slug :: "string \<Rightarrow> string" where
  "ready_slug user_id = replace_char (CHR '':'') (lstrip_at user_id)"

end
