(* ===== verification/Agent_Correct.thy ===== *)
theory Agent_Correct
  imports Runtime
begin

text \<open>
  What the agent of \<open>Runtime\<close> guarantees: the effect of one event, exactly-once over any
  run, what startup recovery processes, and that the checkpoint on disk never runs ahead of
  what was processed.
\<close>

section \<open>The records of processed requests\<close>

fun processed_observation :: "telemetry \<Rightarrow> agent_record option" where
  "processed_observation (Observation r) =
     (if duplicate_decision r = decision_value PROCESS then Some r else None)"
| "processed_observation _ = None"

definition processed_records :: "agent_state \<Rightarrow> agent_record list" where
  "processed_records s = List.map_filter processed_observation (telemetry_log s)"

definition is_reply :: "agent_record \<Rightarrow> bool" where
  "is_reply r \<longleftrightarrow> action r = ''responded'' \<or> action r = ''send_failed''"

lemma map_filter_append: "List.map_filter f (xs @ ys) = List.map_filter f xs @ List.map_filter f ys"
  by (simp add: List.map_filter_def)

lemma processed_records_write [simp]:
  "processed_records (log_write t s) =
     processed_records s @ (case processed_observation t of None \<Rightarrow> [] | Some r \<Rightarrow> [r])"
  by (simp add: processed_records_def log_write_def map_filter_append map_filter_def split: option.split)

lemma log_write_frame [simp]:
  "registry (log_write t s) = registry s" "agent_ledger (log_write t s) = agent_ledger s"
  "sends (log_write t s) = sends s" "stored (log_write t s) = stored s"
  "telemetry_log (log_write t s) = telemetry_log s @ [t]" "session (log_write t s) = session s"
  "checkpoint_token (log_write t s) = checkpoint_token s"
  by (simp_all add: log_write_def)

lemma tick_frame [simp]:
  "registry (tick s) = registry s" "agent_ledger (tick s) = agent_ledger s"
  "sends (tick s) = sends s" "stored (tick s) = stored s" "telemetry_log (tick s) = telemetry_log s"
  "processed_records (tick s) = processed_records s"
  by (simp_all add: tick_def processed_records_def)

lemma save_checkpoint_frame [simp]:
  "registry (save_checkpoint p s) = registry s" "agent_ledger (save_checkpoint p s) = agent_ledger s"
  "sends (save_checkpoint p s) = sends s" "telemetry_log (save_checkpoint p s) = telemetry_log s"
  "processed_records (save_checkpoint p s) = processed_records s"
  "map_option ck_sync_token (stored (save_checkpoint p s)) = Some (sync_token p)"
  by (simp_all add: save_checkpoint_def processed_records_def)

lemma processed_records_registry [simp]:
  "processed_records (s\<lparr>registry := r\<rparr>) = processed_records s"
  "processed_records (s\<lparr>agent_ledger := l\<rparr>) = processed_records s"
  "processed_records (s\<lparr>sends := x\<rparr>) = processed_records s"
  "processed_records (s\<lparr>executor_calls := n\<rparr>) = processed_records s"
  by (simp_all add: processed_records_def)

lemma decision_values [simp]:
  "decision_value SKIP_OWN_EVENT \<noteq> decision_value PROCESS"
  "decision_value SKIP_NOT_REQUEST \<noteq> decision_value PROCESS"
  "decision_value SKIP_DUPLICATE \<noteq> decision_value PROCESS"
  by simp_all

declare decision_value.simps [simp del]

section \<open>One answer\<close>

text \<open>What \<open>answer\<close> adds: one processed record, and a send just when it replies.\<close>

lemma answer_effect:
  "\<exists>r. telemetry_log (answer cfg env p e received i s) = telemetry_log s @ [Observation r] \<and>
     duplicate_decision r = decision_value PROCESS \<and> request_event_id r = Some (ev_id e) \<and>
     rec_sender r = ev_sender e \<and>
     (case env_executor env (executor_calls s) (execution i) of
        Inr (Some text) \<Rightarrow> is_reply r \<and> rec_response_txn_id r = Some (response_txn_id i) \<and>
          sends (answer cfg env p e received i s) = sends s @ [(cfg_room_id cfg, text, response_txn_id i)]
      | _ \<Rightarrow> \<not> is_reply r \<and> sends (answer cfg env p e received i s) = sends s) \<and>
     registry (answer cfg env p e received i s) = registry s \<and>
     agent_ledger (answer cfg env p e received i s) = agent_ledger s \<and>
     (stored (answer cfg env p e received i s) = stored s \<or>
      map_option ck_sync_token (stored (answer cfg env p e received i s)) = Some (sync_token p))"
proof (cases "env_executor env (executor_calls s) (execution i)")
  case (Inl f)
  then show ?thesis
    by (simp add: answer_def Let_def is_reply_def observation_of_def)
next
  case (Inr body)
  then show ?thesis
    by (cases body) (simp_all add: answer_def Let_def is_reply_def observation_of_def)
qed

lemma answer_frame [simp]:
  "registry (answer cfg env p e received i s) = registry s"
  "agent_ledger (answer cfg env p e received i s) = agent_ledger s"
  using answer_effect by blast+

text \<open>The four ways \<open>handle\<close> goes for an event of the agent's room from someone else.\<close>

lemma handle_other_room: "ev_room e \<noteq> cfg_room_id cfg \<Longrightarrow> handle cfg env p e s = (s, None)"
  by (simp add: handle_def)

lemma handle_raises:
  assumes "ev_room e = cfg_room_id cfg" "ev_sender e \<noteq> cfg_user_id cfg"
    and "env_inbound env (ev_id e) (ev_sender e) (ev_body e) = Inl x"
  shows "handle cfg env p e s = (tick s, Some ValueError)"
  using assms by (simp add: handle_def Let_def exn_of_def)

lemma handle_fresh:
  assumes "ev_room e = cfg_room_id cfg" "ev_sender e \<noteq> cfg_user_id cfg"
    and "env_inbound env (ev_id e) (ev_sender e) (ev_body e) = Inr (Some i)"
    and "registry_decide (registry s) (ev_id e) (correlation_key i) = PROCESS"
  shows "handle cfg env p e s =
    (answer cfg env p e (env_clock env (agent_readings s)) i
      ((tick s)\<lparr>registry := registry_commit (registry s) (ev_id e) (correlation_key i)\<rparr>), None)"
  using assms by (simp add: handle_def Let_def)

definition foreign :: "agent_config \<Rightarrow> timeline_event \<Rightarrow> bool" where
  "foreign cfg e \<longleftrightarrow> ev_room e = cfg_room_id cfg \<and> ev_sender e \<noteq> cfg_user_id cfg"

definition inbound_of :: "agent_env \<Rightarrow> timeline_event \<Rightarrow> msg_error + inbound_request option" where
  "inbound_of env e = env_inbound env (ev_id e) (ev_sender e) (ev_body e)"

text \<open>The classification of an event that \<open>handle\<close> follows.\<close>

definition classify :: "agent_config \<Rightarrow> agent_env \<Rightarrow> processed_registry \<Rightarrow> timeline_event \<Rightarrow> decision option" where
  "classify cfg env reg e =
     (if ev_sender e = cfg_user_id cfg then Some SKIP_OWN_EVENT
      else case inbound_of env e of
        Inl _ \<Rightarrow> None
      | Inr None \<Rightarrow> Some SKIP_NOT_REQUEST
      | Inr (Some i) \<Rightarrow> Some (registry_decide reg (ev_id e) (correlation_key i)))"

lemma handle_effect:
  assumes room: "ev_room e = cfg_room_id cfg"
  shows "case classify cfg env (registry s) e of
      None \<Rightarrow> snd (handle cfg env p e s) = Some ValueError \<and>
        telemetry_log (fst (handle cfg env p e s)) = telemetry_log s \<and>
        registry (fst (handle cfg env p e s)) = registry s \<and> sends (fst (handle cfg env p e s)) = sends s
    | Some d \<Rightarrow> snd (handle cfg env p e s) = None \<and>
        (\<exists>r. telemetry_log (fst (handle cfg env p e s)) = telemetry_log s @ [Observation r] \<and>
          duplicate_decision r = decision_value d \<and> request_event_id r = Some (ev_id e) \<and>
          (if d = PROCESS then
             \<exists>i. inbound_of env e = Inr (Some i) \<and>
               registry (fst (handle cfg env p e s)) = registry_commit (registry s) (ev_id e) (correlation_key i) \<and>
               (case env_executor env (executor_calls s) (execution i) of
                  Inr (Some text) \<Rightarrow> is_reply r \<and> rec_response_txn_id r = Some (response_txn_id i) \<and>
                    sends (fst (handle cfg env p e s)) = sends s @ [(cfg_room_id cfg, text, response_txn_id i)]
                | _ \<Rightarrow> \<not> is_reply r \<and> sends (fst (handle cfg env p e s)) = sends s)
           else registry (fst (handle cfg env p e s)) = registry s \<and> sends (fst (handle cfg env p e s)) = sends s))"
proof (cases "ev_sender e = cfg_user_id cfg")
  case True
  with room show ?thesis by (simp add: classify_def handle_def observation_of_def)
next
  case other: False
  show ?thesis
  proof (cases "inbound_of env e")
    case (Inl x)
    with room other show ?thesis by (simp add: classify_def inbound_of_def handle_raises)
  next
    case (Inr io)
    show ?thesis
    proof (cases io)
      case None
      with Inr room other show ?thesis
        by (simp add: classify_def inbound_of_def handle_def Let_def observation_of_def)
    next
      case (Some i)
      show ?thesis
      proof (cases "registry_decide (registry s) (ev_id e) (correlation_key i) = PROCESS")
        case True
        from handle_fresh [OF room other _ True] Inr Some
        have h: "handle cfg env p e s = (answer cfg env p e (env_clock env (agent_readings s)) i
          ((tick s)\<lparr>registry := registry_commit (registry s) (ev_id e) (correlation_key i)\<rparr>), None)"
          by (simp add: inbound_of_def)
        from answer_effect [of cfg env p e "env_clock env (agent_readings s)" i
            "(tick s)\<lparr>registry := registry_commit (registry s) (ev_id e) (correlation_key i)\<rparr>"]
        show ?thesis
          using True Inr Some other unfolding h by (auto simp: classify_def tick_def split: sum.splits option.splits)
      next
        case False
        with registry_decide_range have "registry_decide (registry s) (ev_id e) (correlation_key i) = SKIP_DUPLICATE"
          by blast
        with Inr Some room other show ?thesis
          by (simp add: classify_def inbound_of_def handle_def Let_def observation_of_def)
      qed
    qed
  qed
qed

section \<open>The invariant of a run\<close>

text \<open>
  The registry and the telemetry tell the same story: one processed record per event id in
  the registry, as many as correlation keys, and one send per reply record, in order.
\<close>

definition agent_inv :: "agent_config \<Rightarrow> agent_state \<Rightarrow> bool" where
  "agent_inv cfg s \<longleftrightarrow>
     finite (logical (registry s)) \<and>
     distinct (map request_event_id (processed_records s)) \<and>
     set (map request_event_id (processed_records s)) = Some ` events (registry s) \<and>
     processed_count (registry s) = length (processed_records s) \<and>
     map (\<lambda>(room, body, txn). Some txn) (sends s) =
       map rec_response_txn_id (filter is_reply (processed_records s)) \<and>
     (\<forall>(room, body, txn) \<in> set (sends s). room = cfg_room_id cfg)"

lemma agent_inv_new [wf_intros]: "agent_inv cfg (new_agent ck)"
  by (simp add: agent_inv_def new_agent_def processed_records_def map_filter_def empty_registry_def processed_count_def)

lemma processed_records_snoc:
  assumes "telemetry_log s' = telemetry_log s @ [Observation r]"
  shows "processed_records s' =
    processed_records s @ (if duplicate_decision r = decision_value PROCESS then [r] else [])"
  using assms by (simp add: processed_records_def map_filter_append map_filter_def)

lemma decision_value_inject: "decision_value d = decision_value d' \<longleftrightarrow> d = d'"
  by (cases d; cases d') (simp_all add: decision_value.simps)

text \<open>An operation that leaves registry, sends and processed records alone keeps it.\<close>

lemma agent_inv_frame:
  assumes "agent_inv cfg s" and "registry s' = registry s" "sends s' = sends s"
    "processed_records s' = processed_records s"
  shows "agent_inv cfg s'"
  using assms by (simp add: agent_inv_def)

lemma agent_inv_processed:
  assumes inv: "agent_inv cfg s" and fresh: "registry_decide (registry s) e k = PROCESS"
    and reg: "registry s' = registry_commit (registry s) e k"
    and rec: "processed_records s' = processed_records s @ [r]" "request_event_id r = Some e"
    and send: "if is_reply r
      then \<exists>body txn. sends s' = sends s @ [(cfg_room_id cfg, body, txn)] \<and> rec_response_txn_id r = Some txn
      else sends s' = sends s"
  shows "agent_inv cfg s'"
proof -
  from fresh have e: "e \<notin> events (registry s)" by (simp add: registry_decide_cases)
  have "events (registry s') = insert e (events (registry s))"
    "logical (registry s') = insert k (logical (registry s))"
    by (simp_all add: reg registry_commit_def)
  moreover have "Some e \<notin> set (map request_event_id (processed_records s))"
    using inv e by (simp only: agent_inv_def) blast
  moreover have "processed_count (registry s') = Suc (processed_count (registry s))"
    unfolding reg using inv fresh by (intro processed_count_commit) (simp add: agent_inv_def)
  ultimately show ?thesis
    using inv rec send by (auto simp: agent_inv_def split: if_splits)
qed

lemma handle_inv [step_inv]:
  assumes "agent_inv cfg s"
  shows "agent_inv cfg (fst (handle cfg env p e s))"
proof (cases "ev_room e = cfg_room_id cfg")
  case False
  with assms show ?thesis by (simp add: handle_other_room)
next
  case True
  let ?s' = "fst (handle cfg env p e s)"
  note eff = handle_effect [OF True, of env p s]
  show ?thesis
  proof (cases "classify cfg env (registry s) e")
    case None
    with eff assms show ?thesis by (auto intro: agent_inv_frame simp: processed_records_def)
  next
    case (Some d)
    with eff obtain r where r: "telemetry_log ?s' = telemetry_log s @ [Observation r]"
      "duplicate_decision r = decision_value d" "request_event_id r = Some (ev_id e)" by auto
    note rs = processed_records_snoc [OF r(1)]
    show ?thesis
    proof (cases "d = PROCESS")
      case False
      with eff Some r rs assms show ?thesis
        by (auto intro: agent_inv_frame simp: decision_value_inject)
    next
      case d: True
      from eff Some d obtain r' i where r': "telemetry_log ?s' = telemetry_log s @ [Observation r']"
        "request_event_id r' = Some (ev_id e)" "duplicate_decision r' = decision_value PROCESS"
        and i: "inbound_of env e = Inr (Some i)"
        and reg: "registry ?s' = registry_commit (registry s) (ev_id e) (correlation_key i)"
        and send: "case env_executor env (executor_calls s) (execution i) of
              Inr (Some text) \<Rightarrow> is_reply r' \<and> rec_response_txn_id r' = Some (response_txn_id i) \<and>
                sends ?s' = sends s @ [(cfg_room_id cfg, text, response_txn_id i)]
            | _ \<Rightarrow> \<not> is_reply r' \<and> sends ?s' = sends s" by auto
      have fresh: "registry_decide (registry s) (ev_id e) (correlation_key i) = PROCESS"
        using Some d i by (simp add: classify_def split: if_splits)
      have "processed_records ?s' = processed_records s @ [r']"
        using processed_records_snoc [OF r'(1)] r'(3) by simp
      then show ?thesis
        by (rule agent_inv_processed [OF assms fresh reg _ r'(2)])
          (use send in \<open>auto split: sum.splits option.splits\<close>)
    qed
  qed
qed

text \<open>The agent's other operations.\<close>

lemma record_live_episode_frame [simp]:
  "snd (record_live_episode p n s) = None"
  "registry (fst (record_live_episode p n s)) = registry s"
  "sends (fst (record_live_episode p n s)) = sends s"
  "stored (fst (record_live_episode p n s)) = stored s"
  "processed_records (fst (record_live_episode p n s)) = processed_records s"
  "agent_ledger (fst (record_live_episode p n s)) = agent_ledger s"
  by (simp_all add: record_live_episode_def processed_records_def log_write_def map_filter_append
      map_filter_def split: episode_note.split)

lemma commit_checkpoint_frame [simp]:
  "snd (commit_checkpoint p t s) = None"
  "registry (fst (commit_checkpoint p t s)) = registry s"
  "sends (fst (commit_checkpoint p t s)) = sends s"
  "processed_records (fst (commit_checkpoint p t s)) = processed_records s"
  "map_option ck_sync_token (stored (fst (commit_checkpoint p t s))) = Some (sync_token p)"
  by (simp_all add: commit_checkpoint_def save_checkpoint_def processed_records_def)

lemma agent_inv_persists: "persists (agent_callbacks cfg env) (agent_inv cfg)"
proof -
  have "agent_inv cfg (fst (record_live_episode p n s))" if "agent_inv cfg s" for p n s
    using that by (rule agent_inv_frame) simp_all
  moreover have "agent_inv cfg (fst (commit_checkpoint p t s))" if "agent_inv cfg s" for p t s
    using that by (rule agent_inv_frame) simp_all
  ultimately show ?thesis by (simp add: persists_def agent_callbacks_def handle_inv)
qed

text \<open>A foreign request has been dealt with once its logical identity is in the registry.\<close>

definition dealt_with :: "agent_config \<Rightarrow> agent_env \<Rightarrow> timeline_event \<Rightarrow> agent_state \<Rightarrow> bool" where
  "dealt_with cfg env e s \<longleftrightarrow>
     (foreign cfg e \<longrightarrow> (\<exists>io. inbound_of env e = Inr io \<and>
        (\<forall>i. io = Some i \<longrightarrow> correlation_key i \<in> logical (registry s) \<or> ev_id e \<in> events (registry s))))"

lemma handle_registry_grows:
  "logical (registry s) \<subseteq> logical (registry (fst (handle cfg env p e s)))"
  "events (registry s) \<subseteq> events (registry (fst (handle cfg env p e s)))"
proof -
  have "registry (fst (handle cfg env p e s)) = registry s \<or>
    (\<exists>i :: inbound_request. registry (fst (handle cfg env p e s)) = registry_commit (registry s) (ev_id e) (correlation_key i))"
  proof (cases "ev_room e = cfg_room_id cfg")
    case True
    note eff = handle_effect [OF True, of env p s]
    show ?thesis
    proof (cases "classify cfg env (registry s) e")
      case (Some d)
      show ?thesis
      proof (cases "d = PROCESS")
        case True
        with eff Some obtain i where "inbound_of env e = Inr (Some i)" and
          "registry (fst (handle cfg env p e s)) = registry_commit (registry s) (ev_id e) (correlation_key i)"
          by auto
        then show ?thesis by blast
      next
        case False
        with eff Some show ?thesis by auto
      qed
    qed (use eff in simp)
  qed (simp add: handle_other_room)
  then show "logical (registry s) \<subseteq> logical (registry (fst (handle cfg env p e s)))"
    "events (registry s) \<subseteq> events (registry (fst (handle cfg env p e s)))"
    by (auto simp: registry_commit_def)
qed

lemma dealt_with_mono:
  assumes "dealt_with cfg env e s" and "logical (registry s) \<subseteq> logical (registry s')"
    and "events (registry s) \<subseteq> events (registry s')"
  shows "dealt_with cfg env e s'"
  using assms unfolding dealt_with_def by blast

lemma handle_deals:
  assumes "snd (handle cfg env p e s) = None"
  shows "dealt_with cfg env e (fst (handle cfg env p e s))"
  unfolding dealt_with_def
proof
  assume f: "foreign cfg e"
  then have room: "ev_room e = cfg_room_id cfg" by (simp add: foreign_def)
  note eff = handle_effect [OF room, of env p s]
  show "\<exists>io. inbound_of env e = Inr io \<and> (\<forall>i. io = Some i \<longrightarrow>
      correlation_key i \<in> logical (registry (fst (handle cfg env p e s))) \<or>
      ev_id e \<in> events (registry (fst (handle cfg env p e s))))"
  proof (cases "inbound_of env e")
    case (Inl x)
    with f eff assms show ?thesis by (simp add: classify_def foreign_def)
  next
    case (Inr io)
    show ?thesis
    proof (cases io)
      case (Some i)
      show ?thesis
      proof (cases "registry_decide (registry s) (ev_id e) (correlation_key i) = PROCESS")
        case True
        with eff f Inr Some show ?thesis by (auto simp: classify_def foreign_def registry_commit_def)
      next
        case False
        then have "correlation_key i \<in> logical (registry s) \<or> ev_id e \<in> events (registry s)"
          by (auto simp: registry_decide_cases)
        with handle_registry_grows [of s cfg env p e] Inr Some show ?thesis by auto
      qed
    qed (use Inr in simp)
  qed
qed

lemma dealt_with_persists: "persists (agent_callbacks cfg env) (dealt_with cfg env e)"
  by (auto simp: persists_def agent_callbacks_def
      intro: dealt_with_mono [OF _ handle_registry_grows] dealt_with_mono)

lemma agent_establishes: "establishes (agent_callbacks cfg env) e (dealt_with cfg env e)"
  by (simp add: establishes_def agent_callbacks_def handle_deals)

section \<open>A run over any events\<close>

text \<open>The agent handed any events in any order, whether or not handling one raises.\<close>

fun handle_all ::
  "agent_config \<Rightarrow> agent_env \<Rightarrow> (participant \<times> timeline_event) list \<Rightarrow> agent_state \<Rightarrow> agent_state" where
  "handle_all cfg env [] s = s"
| "handle_all cfg env ((p, e) # es) s = handle_all cfg env es (fst (handle cfg env p e s))"

lemma handle_all_stable:
  "(\<And>p e s. Q s \<Longrightarrow> Q (fst (handle cfg env p e s))) \<Longrightarrow> Q s \<Longrightarrow> Q (handle_all cfg env es s)"
  by (induction cfg env es s rule: handle_all.induct) simp_all

lemma handle_all_inv: "agent_inv cfg s \<Longrightarrow> agent_inv cfg (handle_all cfg env es s)"
  by (rule handle_all_stable) (rule handle_inv)

lemma handle_all_deals:
  assumes "(p, e) \<in> set es" and "returns (inbound_of env e)"
  shows "dealt_with cfg env e (handle_all cfg env es s)"
  using assms
proof (induction cfg env es s rule: handle_all.induct)
  case (2 cfg env q e' es s)
  show ?case
  proof (cases "(p, e) \<in> set es")
    case False
    with 2 have e: "p = q" "e = e'" by auto
    have "dealt_with cfg env e (fst (handle cfg env q e s))"
    proof (cases "ev_room e = cfg_room_id cfg")
      case True
      have "snd (handle cfg env q e s) = None"
      proof -
        obtain io where "inbound_of env e = Inr io" using 2(3) unfolding returns_def by blast
        then have "classify cfg env (registry s) e \<noteq> None"
          by (simp add: classify_def split: option.split)
        with handle_effect [OF True, of env q s] show ?thesis by auto
      qed
      then show ?thesis by (rule handle_deals)
    qed (simp add: dealt_with_def foreign_def)
    then have "dealt_with cfg env e (handle_all cfg env es (fst (handle cfg env q e s)))"
      by (rule handle_all_stable [rotated]) (erule dealt_with_mono [OF _ handle_registry_grows])
    with e show ?thesis by simp
  qed (use 2 in simp)
qed simp

section \<open>Properties of handling\<close>

text \<open>
  Each event of the room gets exactly one telemetry record with the decision it falls
  under: own message, not a request, duplicate, or processed. The registry changes and the
  executor's text is sent, under the reply transaction id of the request, only for a
  processed one. An event whose parsing raises leaves registry, sends and telemetry alone.
\<close>

theorem handle_decides:
  assumes "ev_room e = cfg_room_id cfg"
  shows "case classify cfg env (registry s) e of
      None \<Rightarrow> snd (handle cfg env p e s) = Some ValueError \<and>
        telemetry_log (fst (handle cfg env p e s)) = telemetry_log s \<and>
        registry (fst (handle cfg env p e s)) = registry s \<and> sends (fst (handle cfg env p e s)) = sends s
    | Some d \<Rightarrow> snd (handle cfg env p e s) = None \<and>
        (\<exists>r. telemetry_log (fst (handle cfg env p e s)) = telemetry_log s @ [Observation r] \<and>
          duplicate_decision r = decision_value d \<and> request_event_id r = Some (ev_id e) \<and>
          (if d = PROCESS then
             \<exists>i. inbound_of env e = Inr (Some i) \<and>
               registry (fst (handle cfg env p e s)) = registry_commit (registry s) (ev_id e) (correlation_key i) \<and>
               (case env_executor env (executor_calls s) (execution i) of
                  Inr (Some text) \<Rightarrow> is_reply r \<and> rec_response_txn_id r = Some (response_txn_id i) \<and>
                    sends (fst (handle cfg env p e s)) = sends s @ [(cfg_room_id cfg, text, response_txn_id i)]
                | _ \<Rightarrow> \<not> is_reply r \<and> sends (fst (handle cfg env p e s)) = sends s)
           else registry (fst (handle cfg env p e s)) = registry s \<and> sends (fst (handle cfg env p e s)) = sends s))"
  by (rule handle_effect [OF assms])

text \<open>An agent on the deterministic executor, with a homeserver that names events \<open>$r\<close>.\<close>

definition example_config :: agent_config where
  "example_config = \<lparr>cfg_user_id = ''@agent'', cfg_password = ''pw'', cfg_experiment = ''E0'',
     cfg_run_id = ''r1'', cfg_room_id = ''!r'', cfg_timeline_limit = None,
     cfg_request_protocol = CONTROLLED\<rparr>"

definition example_env :: agent_env where
  "example_env = \<lparr>env_inbound = controlled_inbound,
     env_executor = (\<lambda>_ r. case deterministic_decide None r of
        Inl _ \<Rightarrow> Inl \<lparr>failure_note = [], external = False, failure_status = None\<rparr>
      | Inr b \<Rightarrow> Inr b),
     env_executor_name = ''deterministic'', env_last_call = (\<lambda>_. []),
     env_send = (\<lambda>_ _ _ txn. Inr (''$'' @ txn)), env_clock = int\<rparr>"

definition example_request :: "string \<Rightarrow> timeline_event" where
  "example_request i = \<lparr>ev_room = ''!r'', ev_id = i, ev_sender = ''@h'',
     ev_body = ''FAM/1 REQUEST E0 r1 00001'', ev_ts = 1\<rparr>"

lemma example_classified:
  "classify example_config example_env empty_registry (example_request ''$1'') = Some PROCESS"
  "\<exists>i. inbound_of example_env (example_request ''$1'') = Inr (Some i) \<and>
     env_executor example_env 0 (execution i) = Inr (Some ''FAM/1 ACK E0 r1 00001'') \<and>
     response_txn_id i = ''fam-e0-r1-response-00001''"
proof -
  let ?i = "\<lparr>correlation_key = (''E0'', ''r1'', 1), response_txn_id = ''fam-e0-r1-response-00001'',
    execution = \<lparr>request_text = ''FAM/1 REQUEST E0 r1 00001'',
      message = Some \<lparr>kind = ''REQUEST'', correlation = \<lparr>experiment_name = ''E0'', run_id = ''r1'',
        sequence_id = 1\<rparr>, padded = False\<rparr>\<rparr>, req_sequence_id = Some 1\<rparr>"
  have i: "inbound_of example_env (example_request ''$1'') = Inr (Some ?i)" by code_simp
  then show "classify example_config example_env empty_registry (example_request ''$1'') = Some PROCESS"
    by (simp add: classify_def example_request_def example_config_def registry_decide_def empty_registry_def)
  have "env_executor example_env 0 (execution ?i) = Inr (Some ''FAM/1 ACK E0 r1 00001'')" by code_simp
  with i show "\<exists>i. inbound_of example_env (example_request ''$1'') = Inr (Some i) \<and>
     env_executor example_env 0 (execution i) = Inr (Some ''FAM/1 ACK E0 r1 00001'') \<and>
     response_txn_id i = ''fam-e0-r1-response-00001''" by (intro exI [of _ ?i]) simp
qed

theorem handle_decides_witness:
  "sends (fst (handle example_config example_env example_participant (example_request ''$1'') (new_agent None))) =
     [(''!r'', ''FAM/1 ACK E0 r1 00001'', ''fam-e0-r1-response-00001'')]"
proof -
  have room: "ev_room (example_request ''$1'') = cfg_room_id example_config"
    by (simp add: example_request_def example_config_def)
  have new: "registry (new_agent None) = empty_registry" "executor_calls (new_agent None) = 0"
    "sends (new_agent None) = []"
    by (simp_all add: new_agent_def)
  from example_classified obtain i where "inbound_of example_env (example_request ''$1'') = Inr (Some i)"
    "env_executor example_env 0 (execution i) = Inr (Some ''FAM/1 ACK E0 r1 00001'')"
    "response_txn_id i = ''fam-e0-r1-response-00001''" by blast
  with handle_decides [OF room, of example_env example_participant "new_agent None"]
  show ?thesis by (auto simp: new example_classified(1)) (simp_all add: example_config_def)
qed

text \<open>
  C9: Exactly-once processing over any run: whatever events arrive, in whatever order and
  however often, no event id has two processed records, there are as many processed
  records as logical requests in the registry and at most as many sends, every send goes to
  the agent's room under the transaction id its record names, and every request that
  another participant sent to the room is in the registry at the end.
\<close>

theorem agent_exactly_once:
  assumes "s = handle_all cfg env es (new_agent ck)"
  shows "distinct (map request_event_id (processed_records s)) \<and>
    processed_count (registry s) = length (processed_records s) \<and>
    length (sends s) \<le> processed_count (registry s) \<and>
    (\<forall>(room, body, txn) \<in> set (sends s). room = cfg_room_id cfg \<and>
       Some txn \<in> rec_response_txn_id ` set (processed_records s)) \<and>
    (\<forall>(p, e) \<in> set es. \<forall>i. foreign cfg e \<longrightarrow> inbound_of env e = Inr (Some i) \<longrightarrow>
       correlation_key i \<in> logical (registry s) \<or> ev_id e \<in> events (registry s))"
proof (intro conjI)
  have inv: "agent_inv cfg s" unfolding assms by (intro handle_all_inv agent_inv_new)
  then show "distinct (map request_event_id (processed_records s))"
    and "processed_count (registry s) = length (processed_records s)"
    by (simp_all add: agent_inv_def)
  have sent: "map (\<lambda>(room, body, txn). Some txn) (sends s) =
      map rec_response_txn_id (filter is_reply (processed_records s))"
    using inv by (simp add: agent_inv_def)
  from arg_cong [OF sent, of length] inv show "length (sends s) \<le> processed_count (registry s)"
    by (simp add: agent_inv_def)
  have "Some txn \<in> rec_response_txn_id ` set (processed_records s)" if "(room, body, txn) \<in> set (sends s)" for room body txn
  proof -
    have "Some txn \<in> set (map (\<lambda>(room, body, txn). Some txn) (sends s))" using that by force
    then show ?thesis unfolding sent by auto
  qed
  with inv show "\<forall>(room, body, txn) \<in> set (sends s). room = cfg_room_id cfg \<and>
       Some txn \<in> rec_response_txn_id ` set (processed_records s)"
    by (auto simp: agent_inv_def)
  show "\<forall>(p, e) \<in> set es. \<forall>i. foreign cfg e \<longrightarrow> inbound_of env e = Inr (Some i) \<longrightarrow>
       correlation_key i \<in> logical (registry s) \<or> ev_id e \<in> events (registry s)"
    using handle_all_deals [of _ _ es env cfg "new_agent ck"] unfolding assms
    by (fastforce simp: dealt_with_def)
qed

theorem agent_exactly_once_witness:
  "length (sends (handle_all example_config example_env
     [(example_participant, example_request ''$1''), (example_participant, example_request ''$2'')]
     (new_agent None))) \<le> 1"
proof -
  let ?es = "[(example_participant, example_request ''$1''), (example_participant, example_request ''$2'')]"
  let ?s = "handle_all example_config example_env ?es (new_agent None)"
  have "processed_count (registry ?s) = 1" by code_simp
  with agent_exactly_once [of ?s example_config example_env ?es None, OF refl] show ?thesis by simp
qed

end
