(* ===== verification/Crash_Safe.thy ===== *)
theory Crash_Safe
  imports Agent_Correct
begin

text \<open>
  The agent over crashes. Its registry lives in memory and dies with the process; what a
  restart has is the checkpoint file. Shown here: wherever the process is killed, the token
  on disk stands at a position before which this life has dealt with every event since its
  own start, so a chain of lives deals with every event.
\<close>

section \<open>Positions\<close>

text \<open>The checkpoint file names position \<open>j\<close> of the log.\<close>

definition parked :: "(nat \<Rightarrow> string) \<Rightarrow> nat \<Rightarrow> agent_state \<Rightarrow> bool" where
  "parked tok j s \<longleftrightarrow> map_option ck_sync_token (stored s) = Some (Some (tok j))"

definition covered ::
  "agent_config \<Rightarrow> agent_env \<Rightarrow> timeline_event list \<Rightarrow> nat \<Rightarrow> nat \<Rightarrow> agent_state \<Rightarrow> bool" where
  "covered cfg env evlog k j s \<longleftrightarrow> (\<forall>i. k \<le> i \<and> i < j \<longrightarrow> dealt_with cfg env (evlog ! i) s)"

definition crash_safe ::
  "agent_config \<Rightarrow> agent_env \<Rightarrow> (nat \<Rightarrow> string) \<Rightarrow> timeline_event list \<Rightarrow> nat \<Rightarrow> agent_state \<Rightarrow> bool" where
  "crash_safe cfg env tok evlog k s \<longleftrightarrow>
     (\<exists>j. k \<le> j \<and> j \<le> length evlog \<and> parked tok j s \<and> covered cfg env evlog k j s)"

lemma crash_safe_at:
  "k \<le> j \<Longrightarrow> j \<le> length evlog \<Longrightarrow> parked tok j s \<Longrightarrow> covered cfg env evlog k j s \<Longrightarrow>
   crash_safe cfg env tok evlog k s"
  unfolding crash_safe_def by blast

lemma covered_start [simp]: "covered cfg env evlog k k s"
  by (auto simp: covered_def)

lemma covered_mono:
  "covered cfg env evlog k j s \<Longrightarrow> logical (registry s) \<subseteq> logical (registry s') \<Longrightarrow>
   events (registry s) \<subseteq> events (registry s') \<Longrightarrow> covered cfg env evlog k j s'"
  unfolding covered_def using dealt_with_mono by meson

text \<open>A step that keeps the file, or writes the position reached, keeps the promise.\<close>

lemma crash_safe_step:
  assumes "crash_safe cfg env tok evlog k s" and "covered cfg env evlog k j s" "k \<le> j" "j \<le> length evlog"
    and "logical (registry s) \<subseteq> logical (registry s')" "events (registry s) \<subseteq> events (registry s')"
    and "stored s' = stored s \<or> map_option ck_sync_token (stored s') = Some (Some (tok j))"
  shows "crash_safe cfg env tok evlog k s' \<and> covered cfg env evlog k j s'"
proof
  show cov: "covered cfg env evlog k j s'" using assms(2,5,6) by (rule covered_mono)
  from assms(1) obtain i where i: "k \<le> i" "i \<le> length evlog" "parked tok i s" "covered cfg env evlog k i s"
    unfolding crash_safe_def by blast
  from assms(7) show "crash_safe cfg env tok evlog k s'"
  proof
    assume "stored s' = stored s"
    with i(3) have "parked tok i s'" by (simp add: parked_def)
    with i(1,2) covered_mono [OF i(4) assms(5,6)] show ?thesis by (intro crash_safe_at)
  next
    assume "map_option ck_sync_token (stored s') = Some (Some (tok j))"
    then have "parked tok j s'" by (simp add: parked_def)
    with assms(3,4) cov show ?thesis by (intro crash_safe_at)
  qed
qed

lemma handle_stored:
  "stored (fst (handle cfg env p e s)) = stored s \<or>
   map_option ck_sync_token (stored (fst (handle cfg env p e s))) = Some (sync_token p)"
proof -
  have a: "stored (answer cfg env p e r i s) = stored s \<or>
      map_option ck_sync_token (stored (answer cfg env p e r i s)) = Some (sync_token p)" for r i s
    using answer_effect [of cfg env p e r i s] by auto
  show ?thesis
  proof (cases "ev_room e \<noteq> cfg_room_id cfg \<or> ev_sender e = cfg_user_id cfg")
    case True
    then show ?thesis by (auto simp: handle_def)
  next
    case False
    show ?thesis
    proof (cases "env_inbound env (ev_id e) (ev_sender e) (ev_body e)")
      case (Inr io)
      with False show ?thesis
        using a [of "env_clock env (agent_readings s)" "the io"
            "(tick s)\<lparr>registry := registry_commit (registry s) (ev_id e) (correlation_key (the io))\<rparr>"]
        by (cases io) (simp_all add: handle_def Let_def)
    qed (use False in \<open>simp add: handle_def Let_def\<close>)
  qed
qed

section \<open>Between two commits\<close>

text \<open>
  What the process does while its participant holds the token \<open>t\<close>: it handles events,
  records episodes, and writes telemetry and ledger. A round that is not at its commit, or
  a startup recovery before its last step, has made such steps only.
\<close>

inductive mid_round :: "agent_config \<Rightarrow> agent_env \<Rightarrow> string option \<Rightarrow> agent_state \<Rightarrow> agent_state \<Rightarrow> bool"
  for cfg env t s where
  mid_start: "mid_round cfg env t s s"
| mid_handle: "mid_round cfg env t s s' \<Longrightarrow> sync_token p = t \<Longrightarrow> mid_round cfg env t s (fst (handle cfg env p e s'))"
| mid_episode: "mid_round cfg env t s s' \<Longrightarrow> mid_round cfg env t s (fst (record_live_episode p n s'))"
| mid_log: "mid_round cfg env t s s' \<Longrightarrow> mid_round cfg env t s (log_write x s')"
| mid_ledger: "mid_round cfg env t s s' \<Longrightarrow> mid_round cfg env t s (s'\<lparr>agent_ledger := l\<rparr>)"

lemma mid_round_safe:
  assumes "mid_round cfg env t s s'" and "t = Some (tok j)"
    and "crash_safe cfg env tok evlog k s" "covered cfg env evlog k j s" "k \<le> j" "j \<le> length evlog"
  shows "crash_safe cfg env tok evlog k s' \<and> covered cfg env evlog k j s'"
  using assms(1)
proof (induction rule: mid_round.induct)
  case mid_start
  with assms show ?case by simp
next
  case (mid_handle s' p e)
  with handle_stored [of cfg env p e s'] show ?case
    by (intro crash_safe_step [of cfg env tok evlog k s' j] handle_registry_grows) (use assms in auto)
next
  case (mid_episode s' p n)
  then show ?case by (intro crash_safe_step [of cfg env tok evlog k s' j]) (use assms in auto)
next
  case (mid_log s' x)
  then show ?case by (intro crash_safe_step [of cfg env tok evlog k s' j]) (use assms in auto)
next
  case (mid_ledger s' l)
  then show ?case by (intro crash_safe_step [of cfg env tok evlog k s' j]) (use assms in auto)
qed

lemma agent_persists_at:
  assumes "k \<le> j" "j \<le> length evlog"
  shows "persists_at (Some (tok j)) (agent_callbacks cfg env)
    (\<lambda>s. crash_safe cfg env tok evlog k s \<and> covered cfg env evlog k j s)"
proof -
  let ?safe = "\<lambda>s. crash_safe cfg env tok evlog k s \<and> covered cfg env evlog k j s"
  have mid: "?safe s'" if "?safe s" "mid_round cfg env (Some (tok j)) s s'" for s s'
    using mid_round_safe [where tok = tok and j = j, OF that(2) refl] that(1) assms by simp
  have "?safe (fst (handle cfg env p e s))" if "sync_token p = Some (tok j)" "?safe s" for p :: participant and e s
    using that(2) by (rule mid) (rule mid_handle [OF mid_start that(1)])
  moreover have "?safe (fst (record_live_episode p n s))" if "?safe s" for p n s
    using that by (rule mid) (rule mid_episode [OF mid_start])
  ultimately show ?thesis
    unfolding persists_at_def by (simp add: agent_callbacks_def)
qed

section \<open>The loop\<close>

lemma persists_or: "persists cb Q \<Longrightarrow> persists cb (\<lambda>s. b \<or> Q s)"
  unfolding persists_def by blast

lemma establishes_or: "establishes cb e Q \<Longrightarrow> establishes cb e (\<lambda>s. b \<or> Q s)"
  unfolding establishes_def by blast

lemma round_crash_safe:
  assumes "serves tok evlog (cfg_room_id cfg) hs"
    and it: "sync_iteration clk hs (agent_callbacks cfg env) (p, s) = ((p', s'), out)"
    and tok: "sync_token p = Some (tok j)" "k \<le> j" "j \<le> length evlog"
    and tr: "is_tracked p (cfg_room_id cfg)" "gap_recovery_enabled p"
    and s: "crash_safe cfg env tok evlog k s" "covered cfg env evlog k j s"
  shows "\<exists>j'. j \<le> j' \<and> j' \<le> length evlog \<and> sync_token p' = Some (tok j') \<and>
    crash_safe cfg env tok evlog k s' \<and> covered cfg env evlog k j' s' \<and>
    is_tracked p' (cfg_room_id cfg) \<and> gap_recovery_enabled p'"
proof -
  let ?Q = "\<lambda>i s. i < k \<or> dealt_with cfg env (evlog ! i) s"
  have Q0: "\<forall>i < j. ?Q i s" using s(2) unfolding covered_def by (meson not_le)
  have QP: "\<forall>i < length evlog. persists (agent_callbacks cfg env) (?Q i) \<and>
      establishes (agent_callbacks cfg env) (evlog ! i) (?Q i)"
    by (intro allI impI conjI persists_or establishes_or dealt_with_persists agent_establishes)
  from round_keeps_promise [OF assms(1) it tok(1,3) tr Q0 QP] obtain j' where
    j': "j \<le> j'" "j' \<le> length evlog" "sync_token p' = Some (tok j')" "\<forall>i < j'. ?Q i s'"
      "is_tracked p' (cfg_room_id cfg)" "gap_recovery_enabled p'" by blast
  then have cov: "covered cfg env evlog k j' s'" unfolding covered_def by (meson not_le)
  have "persists_at (sync_token p) (agent_callbacks cfg env)
      (\<lambda>s. crash_safe cfg env tok evlog k s \<and> covered cfg env evlog k j s)"
    unfolding tok(1) using tok(2,3) by (rule agent_persists_at)
  from sync_iteration_at [OF it this] s have "crash_safe cfg env tok evlog k s' \<or>
      (\<exists>batch s2. s' = fst (commit_checkpoint p' batch s2))"
    by (auto simp: agent_callbacks_def call_optional_def)
  then have "crash_safe cfg env tok evlog k s'"
  proof (elim disjE exE)
    fix batch s2 assume "s' = fst (commit_checkpoint p' batch s2)"
    then have "parked tok j' s'" using j'(3) by (simp add: parked_def)
    with j' tok(2) cov show ?thesis by (intro crash_safe_at [of k j']) auto
  qed
  with j' cov show ?thesis by blast
qed

lemma loop_crash_safe:
  assumes "\<forall>hs \<in> set srvs. serves tok evlog (cfg_room_id cfg) hs"
    and "sync_token p = Some (tok j)" "k \<le> j" "j \<le> length evlog"
    and "is_tracked p (cfg_room_id cfg)" "gap_recovery_enabled p"
    and "crash_safe cfg env tok evlog k s" "covered cfg env evlog k j s"
    and "sync_loop clk srvs (agent_callbacks cfg env) (p, s) = (p', s')"
  shows "\<exists>j'. j \<le> j' \<and> j' \<le> length evlog \<and> sync_token p' = Some (tok j') \<and>
    crash_safe cfg env tok evlog k s' \<and> covered cfg env evlog k j' s'"
  using assms
proof (induction srvs arbitrary: p s j)
  case Nil
  then show ?case by auto
next
  case (Cons hs srvs)
  obtain p1 s1 out where it: "sync_iteration clk hs (agent_callbacks cfg env) (p, s) = ((p1, s1), out)"
    by (metis prod.collapse)
  have "serves tok evlog (cfg_room_id cfg) hs" using Cons.prems(1) by simp
  from round_crash_safe [OF this it Cons.prems(2-8)] obtain j1 where
    j1: "j \<le> j1" "j1 \<le> length evlog" "sync_token p1 = Some (tok j1)"
      "crash_safe cfg env tok evlog k s1" "covered cfg env evlog k j1 s1"
      "is_tracked p1 (cfg_room_id cfg)" "gap_recovery_enabled p1" by blast
  show ?case
  proof (cases "\<exists>e. out = LoopDied e")
    case True
    with Cons.prems(9) it j1 show ?thesis by auto
  next
    case False
    with Cons.prems(9) it have rest: "sync_loop clk srvs (agent_callbacks cfg env) (p1, s1) = (p', s')"
      by (cases out) auto
    have "k \<le> j1" using j1(1) Cons.prems(3) by simp
    with Cons.IH [OF _ j1(3) _ j1(2,6,7,4,5) rest] Cons.prems(1) j1(1) show ?thesis
      by (auto intro: le_trans)
  qed
qed

section \<open>Startup recovery\<close>

text \<open>
  The rooms of a sync are the keys of an object, so each is there once; an event id names
  one event.
\<close>

definition names_events :: "homeserver \<Rightarrow> bool" where
  "names_events hs \<longleftrightarrow> (\<forall>since limit batch joined. hs_sync hs since limit = Some (batch, joined) \<longrightarrow>
     distinct (map nio_room joined) \<and>
     (\<forall>t \<in> set joined. \<forall>x \<in> set (slice_events (slice_of t)). \<forall>y \<in> set (slice_events (slice_of t)).
        ev_id x = ev_id y \<longrightarrow> x = y))"

lemma not_request_dealt: "is_foreign_request cfg env e = Inr False \<Longrightarrow> dealt_with cfg env e s"
  by (auto simp: is_foreign_request_def dealt_with_def foreign_def inbound_of_def split: sum.splits if_splits)

text \<open>Observing events with new ids keeps every request, under its id.\<close>

lemma observe_events_keep:
  assumes "observe_events cfg env direct es (l, pend) = ((l', pend'), None)"
    and "distinct (map ev_id es)" "ev_id ` set es \<inter> recovered_event_ids l = {}"
    and "\<forall>q \<in> set pend. ev_id (snd q) = fst q \<and> fst q \<in> recovered_event_ids l" "dict_ok pend"
  shows "processed l' = processed l \<and> dict_ok pend' \<and> (\<forall>q \<in> set pend'. ev_id (snd q) = fst q) \<and>
    set pend \<subseteq> set pend' \<and>
    (\<forall>e \<in> set es. is_foreign_request cfg env e = Inr False \<or> (ev_id e, e) \<in> set pend')"
  using assms
proof (induction es arbitrary: l pend)
  case (Cons e es)
  show ?case
  proof (cases "is_foreign_request cfg env e")
    case (Inl x)
    with Cons.prems(1) show ?thesis by simp
  next
    case (Inr b)
    show ?thesis
    proof (cases b)
      case False
      with Inr Cons.prems have "observe_events cfg env direct es (l, pend) = ((l', pend'), None)" by simp
      with Cons.IH [OF this] Cons.prems False Inr show ?thesis by auto
    next
      case True
      define src where "src = (if ev_id e \<in> direct then SYNC else HISTORY)"
      define l1 where "l1 = fst (observe l (ev_id e) src)"
      have new: "ev_id e \<notin> recovered_event_ids l" using Cons.prems(3) by auto
      then have ob: "observe l (ev_id e) src = (l1, True)"
        using observe_snd [of l "ev_id e" src] by (simp add: l1_def prod_eq_iff)
      have ids: "recovered_event_ids l1 = insert (ev_id e) (recovered_event_ids l)"
        by (simp add: l1_def observe_ids)
      have "ev_id e \<notin> fst ` set pend" using new Cons.prems(4) by auto
      then have up: "AList.update (ev_id e) e pend = pend @ [(ev_id e, e)]" by (simp add: update_new)
      have "observe_events cfg env direct es (l1, pend @ [(ev_id e, e)]) = ((l', pend'), None)"
        using Cons.prems(1) Inr True ob up by (simp add: src_def [symmetric] Let_def)
      moreover have "dict_ok (pend @ [(ev_id e, e)])"
        using Cons.prems(5) \<open>ev_id e \<notin> fst ` set pend\<close> by (simp add: dict_ok_def)
      ultimately show ?thesis
        using Cons.IH [of l1 "pend @ [(ev_id e, e)]"] Cons.prems(2,3,4) ids
        by (auto simp: l1_def observe_frame)
    qed
  qed
qed simp

text \<open>Processing them leaves each one dealt with.\<close>

lemma process_pending_grows:
  "logical (registry s) \<subseteq> logical (registry (fst (process_pending cfg env p e s)))"
  "events (registry s) \<subseteq> events (registry (fst (process_pending cfg env p e s)))"
  using handle_registry_grows [of s cfg env p e] by (auto simp: process_pending_def Let_def)

lemma process_pending_deals:
  assumes "\<And>e. e \<in> set es \<Longrightarrow> ev_id e \<in> processed (agent_ledger s) \<Longrightarrow> dealt_with cfg env e s"
    and "\<And>x y. x \<in> set es \<Longrightarrow> y \<in> set es \<Longrightarrow> ev_id x = ev_id y \<Longrightarrow> x = y"
    and "snd (seq_all (process_pending cfg env p) es s) = None" and "e \<in> set es"
  shows "dealt_with cfg env e (fst (seq_all (process_pending cfg env p) es s))"
proof (rule seq_all_establishes_inv
    [where x = e and I = "\<lambda>s. ev_id e \<in> processed (agent_ledger s) \<longrightarrow> dealt_with cfg env e s"])
  have led: "agent_ledger (fst (handle cfg env p x s)) = agent_ledger s" for x s
    by (auto simp: handle_def Let_def split: sum.splits option.splits)
  show keep: "dealt_with cfg env e (fst (process_pending cfg env p x s))" if "dealt_with cfg env e s" for x s
    using that process_pending_grows by (rule dealt_with_mono)
  show "ev_id e \<in> processed (agent_ledger (fst (process_pending cfg env p x s))) \<longrightarrow>
      dealt_with cfg env e (fst (process_pending cfg env p x s))"
    if "x \<in> set es" "ev_id e \<in> processed (agent_ledger s) \<longrightarrow> dealt_with cfg env e s" for x s
  proof (cases "x = e")
    case True
    with handle_deals [of cfg env p e s] that(2) led show ?thesis
      by (auto simp: process_pending_def Let_def should_process_def mark_processed_def dealt_with_def)
  next
    case False
    with assms(2) that(1) assms(4) have "ev_id x \<noteq> ev_id e" by blast
    with that(2) led keep [of s x] show ?thesis
      by (auto simp: process_pending_def Let_def should_process_def mark_processed_def)
  qed
  show "dealt_with cfg env e (fst (process_pending cfg env p e s))"
    if "ev_id e \<in> processed (agent_ledger s) \<longrightarrow> dealt_with cfg env e s"
      "snd (process_pending cfg env p e s) = None" for s
    using that handle_deals [of cfg env p e s]
    by (auto simp: process_pending_def Let_def should_process_def dealt_with_def split: if_splits)
qed (use assms in auto)

lemma mid_pending:
  assumes "mid_round cfg env t s0 s" and "sync_token p = t"
  shows "mid_round cfg env t s0 (fst (process_pending cfg env p e s))"
  using mid_handle [OF assms] assms(1) by (simp add: process_pending_def Let_def mid_ledger)

text \<open>A recovery that fails has only made such steps; one that returns ends with the commit.\<close>

definition recovered ::
  "agent_config \<Rightarrow> agent_env \<Rightarrow> agent_state \<Rightarrow> string \<Rightarrow> timeline_event set \<Rightarrow> participant \<Rightarrow>
   (participant \<times> agent_state) effect \<Rightarrow> bool" where
  "recovered cfg env s0 batch es p r \<longleftrightarrow>
     gap_recovery_enabled (fst (fst r)) = gap_recovery_enabled p \<and>
     (if snd r \<noteq> None then mid_round cfg env (sync_token p) s0 (snd (fst r))
      else sync_token (fst (fst r)) = Some batch \<and>
        map_option ck_sync_token (stored (snd (fst r))) = Some (Some batch) \<and>
        (\<exists>s2. mid_round cfg env (sync_token p) s0 s2 \<and> registry (snd (fst r)) = registry s2) \<and>
        (\<forall>e \<in> es. dealt_with cfg env e (snd (fst r))))"

lemma finish_recovery_effect:
  assumes "mid_round cfg env (sync_token p) s0 s" and "processed (agent_ledger s) = {}"
    and "dict_ok pend" "\<forall>q \<in> set pend. ev_id (snd q) = fst q"
  shows "recovered cfg env s0 batch (snd ` set pend) p (finish_recovery cfg env p batch pend s)"
proof -
  let ?es = "sort_key (sequence_of env) (map snd pend)"
  define s1 where "s1 = log_write (RecoveryComplete (sorted_list_of_set (recovered_event_ids (agent_ledger s)))
      (sorted_list_of_set (from_sync (agent_ledger s))) (sorted_list_of_set (from_history (agent_ledger s)))
      (summary (agent_ledger s))) s"
  define r where "r = seq_all (process_pending cfg env p) ?es s1"
  have "mid_round cfg env (sync_token p) s0 s1" unfolding s1_def using assms(1) by (rule mid_log)
  then have mid: "mid_round cfg env (sync_token p) s0 (fst r)"
    unfolding r_def by (rule seq_all_stable [rotated]) (rule mid_pending [OF _ refl])
  have uniq: "x = y" if "x \<in> set ?es" "y \<in> set ?es" "ev_id x = ev_id y" for x y
  proof -
    from that obtain i j where "(i, x) \<in> set pend" "(j, y) \<in> set pend" by auto
    with assms(3,4) that(3) show ?thesis
      by (metis dict_ok_def distinct_map inj_onD fst_conv snd_conv)
  qed
  have deals: "dealt_with cfg env e (fst r)" if "e \<in> snd ` set pend" "snd r = None" for e
    unfolding r_def
    by (rule process_pending_deals) (use uniq that assms(2) in \<open>auto simp: s1_def r_def\<close>)
  show ?thesis
  proof (cases "snd r")
    case (Some x)
    with mid show ?thesis
      by (simp add: recovered_def finish_recovery_def Let_def s1_def [symmetric] r_def [symmetric])
  next
    case None
    let ?s2 = "save_checkpoint (p\<lparr>sync_token := Some batch\<rparr>) (fst r)"
    have "finish_recovery cfg env p batch pend s = ((p\<lparr>sync_token := Some batch\<rparr>,
        log_write (RecoveryProcessingComplete (summary (agent_ledger ?s2))) ?s2), None)"
      by (simp add: finish_recovery_def Let_def s1_def [symmetric] r_def [symmetric] None)
    moreover have "\<forall>e \<in> snd ` set pend. dealt_with cfg env e (log_write y ?s2)" for y
      using deals None by (auto simp: dealt_with_def)
    ultimately show ?thesis using mid by (auto simp: recovered_def)
  qed
qed

lemma recover_slice_effect:
  assumes "mid_round cfg env (sync_token p) s0 s" and "observations (agent_ledger s) = []"
    and "processed (agent_ledger s) = {}"
  shows "\<exists>es. recovered cfg env s0 batch es p (recover_slice cfg env hs p batch item s) \<and>
    (snd (recover_slice cfg env hs p batch item s) = None \<longrightarrow>
       (\<exists>hist pages. closes_gap hs item (checkpoint_token s) hist pages \<and>
          es = set (merge.taken [] (slice_events item @ hist))))"
proof -
  define s1 where "s1 = (if slice_limited item then log_write LimitedTimelineDetected s else s)"
  have s1: "mid_round cfg env (sync_token p) s0 s1" "agent_ledger s1 = agent_ledger s"
    using assms(1) by (simp_all add: s1_def mid_round.mid_log)
  obtain p' res where rec: "reconcile_slice hs item (checkpoint_token s) ''startup'' p = (p', res)" by fastforce
  then have p': "sync_token p' = sync_token p" "gap_recovery_enabled p' = gap_recovery_enabled p"
    by (auto simp: reconcile_slice_eq)
  show ?thesis
  proof (cases res)
    case (Inl x)
    with rec s1 p' show ?thesis
      by (intro exI [of _ "{}"]) (simp add: recovered_def recover_slice_def Let_def s1_def [symmetric])
  next
    case (Inr ee)
    obtain evs ep where ee: "ee = (evs, ep)" by (cases ee)
    with rec Inr obtain hist pages where gap: "closes_gap hs item (checkpoint_token s) hist pages"
      and evs: "evs = merge.taken [] (slice_events item @ hist)"
      by (auto simp: reconcile_slice_Inr)
    define s2 where "s2 = (if ep_history_pages_fetched ep \<noteq> 0
      then log_write (HistoryPagesReceived (ep_history_pages_fetched ep) (reconciled_unique_events ep))
             (s1\<lparr>agent_ledger := note_pagination (agent_ledger s1) (ep_history_pages_fetched ep)\<rparr>) else s1)"
    have s2: "mid_round cfg env (sync_token p) s0 s2" "observations (agent_ledger s2) = []"
      "processed (agent_ledger s2) = {}"
      using s1 assms by (simp_all add: s2_def mid_round.mid_log mid_round.mid_ledger note_pagination_def)
    have step: "recover_slice cfg env hs p batch item s = (case foreign_requests cfg env (slice_events item) of
        Inl x \<Rightarrow> ((p', s2), Some x)
      | Inr fs \<Rightarrow>
          (let ((l, pend), x) = observe_events cfg env (ev_id ` set fs) evs (agent_ledger s2, []) in
           if x \<noteq> None then ((p', s2\<lparr>agent_ledger := l\<rparr>), x)
           else finish_recovery cfg env p' batch pend (s2\<lparr>agent_ledger := l\<rparr>)))"
      by (simp only: recover_slice_def Let_def s1_def [symmetric] rec Inr ee prod.case sum.case s2_def)
    show ?thesis
    proof (cases "foreign_requests cfg env (slice_events item)")
      case (Inl x)
      with step s2 p' show ?thesis by (intro exI [of _ "{}"]) (simp add: recovered_def)
    next
      case (Inr fs)
      obtain l pend x where ob: "observe_events cfg env (ev_id ` set fs) evs (agent_ledger s2, []) = ((l, pend), x)"
        by (metis prod.collapse)
      have step: "recover_slice cfg env hs p batch item s =
          (if x \<noteq> None then ((p', s2\<lparr>agent_ledger := l\<rparr>), x)
           else finish_recovery cfg env p' batch pend (s2\<lparr>agent_ledger := l\<rparr>))"
        using step Inr ob by simp
      show ?thesis
      proof (cases x)
        case (Some y)
        with step p' s2 show ?thesis by (intro exI [of _ "{}"]) (simp add: recovered_def mid_ledger)
      next
        case None
        have "distinct (map ev_id evs)" unfolding evs by (rule merge.taken_names_distinct)
        from observe_events_keep [OF ob [unfolded None] this] s2
        have keep: "processed l = {}" "dict_ok pend" "\<forall>q \<in> set pend. ev_id (snd q) = fst q"
          "\<forall>e \<in> set evs. is_foreign_request cfg env e = Inr False \<or> (ev_id e, e) \<in> set pend"
          by (simp_all add: recovered_event_ids_def dict_ok_def)
        have "recovered cfg env s0 batch (snd ` set pend) p' (finish_recovery cfg env p' batch pend (s2\<lparr>agent_ledger := l\<rparr>))"
          by (rule finish_recovery_effect) (use s2 keep p' in \<open>simp_all add: mid_ledger\<close>)
        then have "recovered cfg env s0 batch (set evs) p (recover_slice cfg env hs p batch item s)"
          using keep(4) step None p' by (force simp: recovered_def not_request_dealt)
        with gap evs show ?thesis by blast
      qed
    qed
  qed
qed

text \<open>What the log shows in a room reaches the merge of its timeline with its history.\<close>

lemma shown_taken:
  assumes "shown hs since item e" and "closes_gap hs item since hist pages"
    and "\<And>x y. x \<in> set (slice_events item) \<Longrightarrow> y \<in> set (slice_events item) \<Longrightarrow> ev_id x = ev_id y \<Longrightarrow> x = y"
  shows "e \<in> set (merge.taken [] (slice_events item @ hist))"
proof -
  let ?es = "slice_events item @ hist"
  have "e \<in> set ?es \<and> (\<forall>x \<in> set ?es. ev_id x = ev_id e \<longrightarrow> x = e)"
  proof (cases "slice_limited item")
    case True
    with assms(1,2) show ?thesis unfolding shown_def if_P [OF True] by blast
  next
    case False
    with assms(2) have "hist = []" by (simp add: closes_gap_def)
    with False assms(1,3) show ?thesis by (auto simp: shown_def)
  qed
  then have e: "e \<in> set ?es" and u: "\<forall>x \<in> set ?es. ev_id x = ev_id e \<longrightarrow> x = e" by auto
  from e have "ev_id e \<in> ev_id ` set (merge.taken [] ?es)"
    unfolding merge_taken_ids by (rule imageI)
  then obtain x where "x \<in> set (merge.taken [] ?es)" "ev_id x = ev_id e" by auto
  with u merge.taken_subset [of "[]" ?es] show ?thesis by auto
qed

lemma recovered_crash_safe:
  assumes rec: "recovered cfg env s0 (tok q) es p r" and tok: "sync_token p = Some (tok k)"
    and "parked tok k s0" "k \<le> q" "q \<le> length evlog"
    and es: "\<And>i. snd r = None \<Longrightarrow> k \<le> i \<Longrightarrow> i < q \<Longrightarrow> evlog ! i \<in> es"
  shows "crash_safe cfg env tok evlog k (snd (fst r)) \<and> gap_recovery_enabled (fst (fst r)) = gap_recovery_enabled p \<and>
    (snd r = None \<longrightarrow> sync_token (fst (fst r)) = Some (tok q) \<and> covered cfg env evlog k q (snd (fst r)))"
proof -
  have start: "crash_safe cfg env tok evlog k s0"
    by (rule crash_safe_at [of k k]) (use assms in auto)
  show ?thesis
  proof (cases "snd r")
    case None
    with rec have r: "parked tok q (snd (fst r))" "\<forall>e \<in> es. dealt_with cfg env e (snd (fst r))"
      by (simp_all add: recovered_def parked_def)
    with es None have "covered cfg env evlog k q (snd (fst r))" by (simp add: covered_def)
    with r assms(4,5) have "crash_safe cfg env tok evlog k (snd (fst r))" by (intro crash_safe_at [of k q])
    with \<open>covered cfg env evlog k q (snd (fst r))\<close> rec None show ?thesis by (simp add: recovered_def)
  next
    case (Some x)
    with rec tok have m: "mid_round cfg env (Some (tok k)) s0 (snd (fst r))" by (simp add: recovered_def)
    have "crash_safe cfg env tok evlog k (snd (fst r))"
      using mid_round_safe [where tok = tok and j = k, OF m refl start] assms(4,5) by simp
    with rec Some show ?thesis by (simp add: recovered_def)
  qed
qed

text \<open>The whole of \<open>recover\<close> against a homeserver that keeps its log.\<close>

lemma recover_cases:
  assumes "truthy (checkpoint_token s)" and "sync_token p = checkpoint_token s"
    and "observations (agent_ledger s) = []" "processed (agent_ledger s) = {}"
  shows "(\<exists>x. recover cfg env hs (p, s) = ((p, s), Some x)) \<or>
    (\<exists>batch joined es. hs_sync hs (checkpoint_token s) (timeline_limit p) = Some (batch, joined) \<and>
       recovered cfg env s batch es p (recover cfg env hs (p, s)) \<and>
       (snd (recover cfg env hs (p, s)) = None \<longrightarrow>
          (case find (\<lambda>t. nio_room t = cfg_room_id cfg) joined of
             None \<Rightarrow> True
           | Some t \<Rightarrow> \<exists>hist pages. closes_gap hs (slice_of t) (checkpoint_token s) hist pages \<and>
               es = set (merge.taken [] (slice_events (slice_of t) @ hist)))))"
proof (cases "hs_sync hs (checkpoint_token s) (timeline_limit p)")
  case None
  with assms(1) show ?thesis by (simp add: recover_def sync_once_def)
next
  case (Some bj)
  obtain batch joined where bj: "bj = (batch, joined)" by (cases bj)
  define p1 where "p1 = fold note_slice joined p"
  have p1: "sync_token p1 = sync_token p" "gap_recovery_enabled p1 = gap_recovery_enabled p"
    by (simp_all add: p1_def note_slice_frame)
  let ?f = "find (\<lambda>t. nio_room t = cfg_room_id cfg) joined"
  define item where "item = map_option slice_of ?f"
  have find: "find (\<lambda>x. slice_room x = cfg_room_id cfg) (map slice_of joined) = item"
    unfolding item_def by (induction joined) simp_all
  define l where "l = (agent_ledger s)\<lparr>limited_timeline := (case item of None \<Rightarrow> False | Some t \<Rightarrow> slice_limited t),
    ledger_prev_batch := (case item of None \<Rightarrow> None | Some t \<Rightarrow> slice_prev_batch t)\<rparr>"
  define s1 where "s1 = s\<lparr>agent_ledger := l\<rparr>"
  have s1: "mid_round cfg env (sync_token p1) s s1"
    unfolding s1_def by (intro mid_round.mid_ledger mid_start)
  let ?dir = "foreign_requests cfg env (case item of None \<Rightarrow> [] | Some t \<Rightarrow> slice_events t)"
  have step: "recover cfg env hs (p, s) = (case ?dir of
      Inl x \<Rightarrow> ((p1, s1), Some x)
    | Inr fs \<Rightarrow>
        (let s2 = log_write (PostRestartSync (limited_timeline l) (ledger_prev_batch l \<noteq> None) (length fs)
                   (cfg_timeline_limit cfg)) s1 in
         case item of
           None \<Rightarrow> finish_recovery cfg env p1 batch [] s2
         | Some t \<Rightarrow> recover_slice cfg env hs p1 batch t s2))"
    using assms(1) find
    by (simp add: recover_def sync_once_def Some bj snapshot_room_def Let_def p1_def [symmetric] s1_def l_def
        split: option.split sum.split)
  have "\<exists>es. recovered cfg env s batch es p1 (recover cfg env hs (p, s)) \<and>
    (snd (recover cfg env hs (p, s)) = None \<longrightarrow>
       (case item of None \<Rightarrow> True | Some t \<Rightarrow> \<exists>hist pages. closes_gap hs t (checkpoint_token s) hist pages \<and>
               es = set (merge.taken [] (slice_events t @ hist))))"
  proof (cases ?dir)
    case (Inl x)
    with step s1 show ?thesis by (intro exI [of _ "{}"]) (simp add: recovered_def)
  next
    case (Inr fs)
    define s2 where "s2 = log_write (PostRestartSync (limited_timeline l) (ledger_prev_batch l \<noteq> None) (length fs)
                   (cfg_timeline_limit cfg)) s1"
    have s2: "mid_round cfg env (sync_token p1) s s2" "observations (agent_ledger s2) = []"
      "processed (agent_ledger s2) = {}" "checkpoint_token s2 = checkpoint_token s"
      using s1 assms(3,4) by (simp_all add: s2_def s1_def l_def mid_round.mid_log)
    note step = step [unfolded Inr sum.case Let_def s2_def [symmetric]]
    show ?thesis
    proof (cases item)
      case None
      have "recovered cfg env s batch (snd ` set ([] :: merged)) p1 (finish_recovery cfg env p1 batch [] s2)"
        by (rule finish_recovery_effect) (use s2 in \<open>simp_all add: dict_ok_def\<close>)
      moreover have "recover cfg env hs (p, s) = finish_recovery cfg env p1 batch [] s2"
        using step None by simp
      ultimately show ?thesis using None by (intro exI [of _ "{}"]) simp
    next
      case (Some t)
      with step have "recover cfg env hs (p, s) = recover_slice cfg env hs p1 batch t s2" by simp
      with recover_slice_effect [OF s2(1-3), of batch hs t] Some s2(4) show ?thesis by simp
    qed
  qed
  then obtain es where es: "recovered cfg env s batch es p1 (recover cfg env hs (p, s))"
    "snd (recover cfg env hs (p, s)) = None \<longrightarrow>
       (case item of None \<Rightarrow> True | Some t \<Rightarrow> \<exists>hist pages. closes_gap hs t (checkpoint_token s) hist pages \<and>
               es = set (merge.taken [] (slice_events t @ hist)))"
    by (elim exE conjE) (rule that)
  from es(1) have "recovered cfg env s batch es p (recover cfg env hs (p, s))"
    unfolding recovered_def p1 .
  moreover have "snd (recover cfg env hs (p, s)) = None \<longrightarrow> (case ?f of
      None \<Rightarrow> True
    | Some t \<Rightarrow> \<exists>hist pages. closes_gap hs (slice_of t) (checkpoint_token s) hist pages \<and>
        es = set (merge.taken [] (slice_events (slice_of t) @ hist)))"
  proof (cases ?f)
    case (Some t)
    with es(2) show ?thesis unfolding item_def by (simp only: option.map option.case simp_thms)
  qed (simp only: option.case simp_thms)
  moreover have "hs_sync hs (checkpoint_token s) (timeline_limit p) = Some (batch, joined)" using Some bj by simp
  ultimately show ?thesis by (intro disjI2 exI conjI)
qed

lemma recover_crash_safe:
  assumes serves: "serves tok evlog (cfg_room_id cfg) hs" and names: "names_events hs"
    and tok: "sync_token p = Some (tok k)" "checkpoint_token s = Some (tok k)" "tok k \<noteq> []" "k \<le> length evlog"
    and fresh: "observations (agent_ledger s) = []" "processed (agent_ledger s) = {}" and "parked tok k s"
    and rec: "recover cfg env hs (p, s) = ((p', s'), x)"
  shows "crash_safe cfg env tok evlog k s' \<and> gap_recovery_enabled p' = gap_recovery_enabled p \<and>
    (x = None \<longrightarrow> (\<exists>q. k \<le> q \<and> q \<le> length evlog \<and> sync_token p' = Some (tok q) \<and> covered cfg env evlog k q s'))"
proof -
  have start: "crash_safe cfg env tok evlog k s" by (rule crash_safe_at [of k k]) (use assms in auto)
  have "truthy (checkpoint_token s)" "sync_token p = checkpoint_token s" using tok by simp_all
  from recover_cases [OF this fresh, of cfg env hs] show ?thesis
  proof
    assume "\<exists>x. recover cfg env hs (p, s) = ((p, s), Some x)"
    with rec start show ?thesis by auto
  next
    assume "\<exists>batch joined es. hs_sync hs (checkpoint_token s) (timeline_limit p) = Some (batch, joined) \<and>
       recovered cfg env s batch es p (recover cfg env hs (p, s)) \<and>
       (snd (recover cfg env hs (p, s)) = None \<longrightarrow>
          (case find (\<lambda>t. nio_room t = cfg_room_id cfg) joined of
             None \<Rightarrow> True
           | Some t \<Rightarrow> \<exists>hist pages. closes_gap hs (slice_of t) (checkpoint_token s) hist pages \<and>
               es = set (merge.taken [] (slice_events (slice_of t) @ hist))))"
    then obtain batch joined es where sync: "hs_sync hs (Some (tok k)) (timeline_limit p) = Some (batch, joined)"
      and r: "recovered cfg env s batch es p ((p', s'), x)"
      and es: "x = None \<Longrightarrow> case find (\<lambda>t. nio_room t = cfg_room_id cfg) joined of
             None \<Rightarrow> True
           | Some t \<Rightarrow> \<exists>hist pages. closes_gap hs (slice_of t) (Some (tok k)) hist pages \<and>
               es = set (merge.taken [] (slice_events (slice_of t) @ hist))"
      unfolding tok(2) rec by auto
    from serves tok(4) sync obtain q where q: "k \<le> q" "q \<le> length evlog" "batch = tok q"
      and sh: "\<And>i. k \<le> i \<Longrightarrow> i < q \<Longrightarrow> \<exists>t \<in> set joined. nio_room t = cfg_room_id cfg \<and>
        shown hs (Some (tok k)) (slice_of t) (evlog ! i)"
      unfolding serves_def by force
    from names sync have nm: "distinct (map nio_room joined)"
      "\<And>t x y. t \<in> set joined \<Longrightarrow> x \<in> set (slice_events (slice_of t)) \<Longrightarrow>
        y \<in> set (slice_events (slice_of t)) \<Longrightarrow> ev_id x = ev_id y \<Longrightarrow> x = y"
      unfolding names_events_def by blast+
    have "evlog ! i \<in> es" if "x = None" "k \<le> i" "i < q" for i
    proof -
      from sh [OF that(2,3)] obtain t where t: "t \<in> set joined" "nio_room t = cfg_room_id cfg"
        "shown hs (Some (tok k)) (slice_of t) (evlog ! i)" by blast
      have "find (\<lambda>t. nio_room t = cfg_room_id cfg) joined = Some t"
        using nm(1) t(1,2) by (induction joined) (auto simp: image_iff)
      with es [OF that(1)] obtain hist pages where "closes_gap hs (slice_of t) (Some (tok k)) hist pages"
        "es = set (merge.taken [] (slice_events (slice_of t) @ hist))" by auto
      with shown_taken [OF t(3)] nm(2) [OF t(1)] show ?thesis by blast
    qed
    then show ?thesis
      using recovered_crash_safe [of cfg env s tok q es p "((p', s'), x)" k evlog] r q tok(1) assms(9) by auto
  qed
qed

section \<open>A life of the process\<close>

lemma connect_effect:
  assumes "connect cfg hs login who probe (p, s) = ((p', s'), x)"
    and "map_option ck_sync_token (stored s) = Some (Some t)" "t \<noteq> []"
  shows "map_option ck_sync_token (stored s') = Some (Some t) \<and> registry s' = registry s \<and>
    agent_ledger s' = agent_ledger s \<and>
    (x = None \<longrightarrow> sync_token p' = Some t \<and> checkpoint_token s' = Some t \<and>
       gap_recovery_enabled p' = gap_recovery_enabled p)"
proof -
  from assms(2) obtain ck where ck: "stored s = Some ck" "ck_sync_token ck = Some t" by auto
  with assms(3) have tr: "truthy (ck_sync_token ck)" by simp
  from assms(1) ck tr show ?thesis
    by (auto simp: connect_def Let_def save_checkpoint_def log_write_def split: sum.splits)
qed

text \<open>What one life of the process meets: its participant, homeserver and host.\<close>

record incarnation =
  inc_participant :: participant
  inc_homeserver :: homeserver
  inc_login :: "exn + (string \<times> string)"
  inc_whoami :: "string \<times> string \<Rightarrow> exn + string"
  inc_probe :: "environment \<times> int option"
  inc_rounds :: "homeserver list"

definition inc_connect ::
  "agent_config \<Rightarrow> incarnation \<Rightarrow> transport_checkpoint option \<Rightarrow> (participant \<times> agent_state) effect" where
  "inc_connect cfg w ck = connect cfg (inc_homeserver w) (inc_login w) (inc_whoami w) (inc_probe w)
     (inc_participant w, new_agent ck)"

text \<open>
  The states in which a life can end: after \<open>serve\<close>, whether it returned or raised, in the
  middle of startup recovery, or in the middle of any round of the loop.
\<close>

inductive killed ::
  "agent_config \<Rightarrow> agent_env \<Rightarrow> incarnation \<Rightarrow> transport_checkpoint option \<Rightarrow> agent_state \<Rightarrow> bool"
  for cfg env w ck where
  at_exit: "serve cfg env (inc_homeserver w) (inc_login w) (inc_whoami w) (inc_probe w) (inc_rounds w)
      (inc_participant w, new_agent ck) = ((p, s), x) \<Longrightarrow> killed cfg env w ck s"
| in_recovery: "inc_connect cfg w ck = ((p, s), None) \<Longrightarrow> mid_round cfg env (sync_token p) s s' \<Longrightarrow>
    killed cfg env w ck s'"
| in_loop: "inc_connect cfg w ck = (st, None) \<Longrightarrow> recover cfg env (inc_homeserver w) st = ((p, s), None) \<Longrightarrow>
    sync_loop (env_clock env) (take n (inc_rounds w)) (agent_callbacks cfg env) (start_run cfg p, s) = (p', s') \<Longrightarrow>
    mid_round cfg env (sync_token p') s' s'' \<Longrightarrow> killed cfg env w ck s''"

definition keeps_log :: "(nat \<Rightarrow> string) \<Rightarrow> timeline_event list \<Rightarrow> string \<Rightarrow> incarnation \<Rightarrow> bool" where
  "keeps_log tok evlog room w \<longleftrightarrow> gap_recovery_enabled (inc_participant w) \<and>
     serves tok evlog room (inc_homeserver w) \<and> names_events (inc_homeserver w) \<and>
     (\<forall>hs \<in> set (inc_rounds w). serves tok evlog room hs)"

lemma connected:
  assumes "inc_connect cfg w (Some ck) = ((p, s), x)" and "ck_sync_token ck = Some (tok k)" "tok k \<noteq> []"
  shows "parked tok k s \<and> observations (agent_ledger s) = [] \<and> processed (agent_ledger s) = {} \<and>
    (x = None \<longrightarrow> sync_token p = Some (tok k) \<and> checkpoint_token s = Some (tok k) \<and>
       gap_recovery_enabled p = gap_recovery_enabled (inc_participant w))"
proof -
  have "map_option ck_sync_token (stored (new_agent (Some ck))) = Some (Some (tok k))"
    by (simp add: new_agent_def assms(2))
  from connect_effect [OF assms(1) [unfolded inc_connect_def] this assms(3)] show ?thesis
    by (simp add: parked_def new_agent_def empty_ledger_def)
qed

lemma looped:
  assumes w: "keeps_log tok evlog (cfg_room_id cfg) w" and ck: "ck_sync_token ck = Some (tok k)" "tok k \<noteq> []"
    and k: "k \<le> length evlog" and c: "inc_connect cfg w (Some ck) = (st, None)"
    and r: "recover cfg env (inc_homeserver w) st = ((p, s), None)"
    and l: "sync_loop clk srvs (agent_callbacks cfg env) (start_run cfg p, s) = (p', s')"
    and sub: "set srvs \<subseteq> set (inc_rounds w)"
  shows "\<exists>j. k \<le> j \<and> j \<le> length evlog \<and> sync_token p' = Some (tok j) \<and>
    crash_safe cfg env tok evlog k s' \<and> covered cfg env evlog k j s'"
proof -
  obtain p0 s0 where st: "st = (p0, s0)" by (cases st)
  from connected [where tok = tok and k = k, OF c [unfolded st] ck] have st0: "parked tok k s0" "observations (agent_ledger s0) = []"
    "processed (agent_ledger s0) = {}" "sync_token p0 = Some (tok k)" "checkpoint_token s0 = Some (tok k)"
    "gap_recovery_enabled p0 = gap_recovery_enabled (inc_participant w)" by simp_all
  from w have hs: "serves tok evlog (cfg_room_id cfg) (inc_homeserver w)" "names_events (inc_homeserver w)"
    "\<forall>hs \<in> set srvs. serves tok evlog (cfg_room_id cfg) hs" "gap_recovery_enabled (inc_participant w)"
    using sub by (auto simp: keeps_log_def)
  from recover_crash_safe [OF hs(1,2) st0(4,5) ck(2) k st0(2,3,1) r [unfolded st]] obtain q where
    q: "crash_safe cfg env tok evlog k s" "k \<le> q" "q \<le> length evlog" "sync_token p = Some (tok q)"
      "covered cfg env evlog k q s" "gap_recovery_enabled p" using st0(6) hs(4) by auto
  then have p: "sync_token (start_run cfg p) = Some (tok q)" "is_tracked (start_run cfg p) (cfg_room_id cfg)"
    "gap_recovery_enabled (start_run cfg p)" by (simp_all add: start_run_def is_tracked_def)
  from loop_crash_safe [OF hs(3) p(1) q(2,3) p(2,3) q(1,5) l] q(2) show ?thesis by (meson le_trans)
qed

lemma killed_crash_safe:
  assumes "killed cfg env w (Some ck) s" and w: "keeps_log tok evlog (cfg_room_id cfg) w"
    and ck: "ck_sync_token ck = Some (tok k)" "tok k \<noteq> []" and k: "k \<le> length evlog"
  shows "crash_safe cfg env tok evlog k s"
  using assms(1)
proof cases
  case (in_recovery p s0)
  from connected [where tok = tok and k = k, OF in_recovery(1) ck] have "parked tok k s0"
    and t: "sync_token p = Some (tok k)" by simp_all
  then have "crash_safe cfg env tok evlog k s0" using k by (intro crash_safe_at [of k k]) simp_all
  with mid_round_safe [where tok = tok and j = k, OF in_recovery(2) t] k show ?thesis by simp
next
  case (in_loop st p s0 n p' s')
  from looped [OF w ck k in_loop(1-3)] set_take_subset obtain j where j: "k \<le> j" "j \<le> length evlog"
    "sync_token p' = Some (tok j)" "crash_safe cfg env tok evlog k s'" "covered cfg env evlog k j s'" by metis
  with mid_round_safe [where tok = tok and j = j, OF in_loop(4) j(3)] show ?thesis by simp
next
  case (at_exit p x)
  obtain st y where c: "inc_connect cfg w (Some ck) = (st, y)" by fastforce
  obtain p0 s0 where st: "st = (p0, s0)" by (cases st)
  from connected [where tok = tok and k = k, OF c [unfolded st] ck] have s0: "parked tok k s0"
    "observations (agent_ledger s0) = []" "processed (agent_ledger s0) = {}"
    "y = None \<Longrightarrow> sync_token p0 = Some (tok k) \<and> checkpoint_token s0 = Some (tok k)" by simp_all
  then have safe0: "crash_safe cfg env tok evlog k s0" using k by (intro crash_safe_at [of k k]) simp_all
  note at_exit = at_exit [unfolded serve_def c [unfolded inc_connect_def]]
  show ?thesis
  proof (cases y)
    case (Some z)
    with at_exit st safe0 show ?thesis by simp
  next
    case None
    obtain p1 s1 z where r: "recover cfg env (inc_homeserver w) st = ((p1, s1), z)"
      by (metis prod.collapse)
    from w have hs: "serves tok evlog (cfg_room_id cfg) (inc_homeserver w)" "names_events (inc_homeserver w)"
      by (simp_all add: keeps_log_def)
    from s0(4) [OF None] recover_crash_safe [OF hs _ _ ck(2) k s0(2,3,1) r [unfolded st]]
    have safe1: "crash_safe cfg env tok evlog k s1" by simp
    show ?thesis
    proof (cases z)
      case (Some u)
      with at_exit None r safe1 show ?thesis by simp
    next
      case z: None
      obtain p2 s2 where l: "sync_loop (env_clock env) (inc_rounds w) (agent_callbacks cfg env) (start_run cfg p1, s1) = (p2, s2)"
        by fastforce
      from looped [OF w ck k c [unfolded None] r [unfolded z] l] obtain j where
        j: "k \<le> j" "j \<le> length evlog" "sync_token p2 = Some (tok j)" "covered cfg env evlog k j s2" by auto
      from at_exit None r z l have s: "s = shutdown p2 s2" by auto
      have "registry s = registry s2" "map_option ck_sync_token (stored s) = Some (sync_token p2)"
        unfolding s by (simp_all add: shutdown_def)
      with j have "parked tok j s" "covered cfg env evlog k j s"
        by (simp_all add: parked_def covered_def dealt_with_def)
      with j show ?thesis by (intro crash_safe_at [of k j])
    qed
  qed
qed

text \<open>A chain of lives, each starting from the checkpoint file the last one left.\<close>

fun lives ::
  "agent_config \<Rightarrow> agent_env \<Rightarrow> transport_checkpoint option \<Rightarrow> (incarnation \<times> agent_state) list \<Rightarrow> bool" where
  "lives cfg env ck [] \<longleftrightarrow> True"
| "lives cfg env ck ((w, s) # ls) \<longleftrightarrow> killed cfg env w ck s \<and> lives cfg env (stored s) ls"

section \<open>Properties\<close>


text \<open>
  A homeserver with one request in its log, and a process that is killed as soon as it has
  connected, then started again.
\<close>

definition request_server :: homeserver where
  "request_server = three_pages\<lparr>hs_sync := (\<lambda>since _.
     if since = Some ''t0'' then Some (''t1'', [\<lparr>nio_room = ''!r'', nio_events = [\<lparr>nio_body =
       Some ''FAM/1 REQUEST E0 r1 00001'', nio_source_body = None, nio_id = ''$1'', nio_sender = ''@h'', nio_ts = 1\<rparr>],
       nio_limited = False, nio_prev_batch = None\<rparr>])
     else None)\<rparr>"

definition request_token :: "nat \<Rightarrow> string" where
  "request_token k = (if k = 0 then ''t0'' else if k = 1 then ''t1'' else ''u'')"

definition quiet_host :: environment where
  "quiet_host = \<lparr>env_get = (\<lambda>_. None), path_exists = (\<lambda>_. False), key_files = (\<lambda>_. []), mount_lines = None\<rparr>"

definition request_life :: incarnation where
  "request_life = \<lparr>inc_participant = new_participant None 0, inc_homeserver = request_server,
     inc_login = Inr (''tok'', ''dev''), inc_whoami = (\<lambda>_. Inr ''@agent''), inc_probe = (quiet_host, Some 403),
     inc_rounds = [request_server]\<rparr>"

definition request_checkpoint :: transport_checkpoint where
  "request_checkpoint = \<lparr>ck_access_token = ''tok'', ck_device_id = ''dev'', ck_sync_token = Some ''t0''\<rparr>"

definition first_end :: agent_state where
  "first_end = snd (fst (inc_connect example_config request_life (Some request_checkpoint)))"

definition second_end :: agent_state where
  "second_end = snd (fst (serve example_config example_env (inc_homeserver request_life) (inc_login request_life)
     (inc_whoami request_life) (inc_probe request_life) (inc_rounds request_life)
     (inc_participant request_life, new_agent (stored first_end))))"

lemma request_life_keeps_log: "keeps_log request_token [example_request ''$1''] ''!r'' request_life"
proof -
  have slice: "slice_events (slice_of \<lparr>nio_room = ''!r'', nio_events = [\<lparr>nio_body =
       Some ''FAM/1 REQUEST E0 r1 00001'', nio_source_body = None, nio_id = ''$1'', nio_sender = ''@h'', nio_ts = 1\<rparr>],
       nio_limited = False, nio_prev_batch = None\<rparr>) = [example_request ''$1'']"
    by (simp add: slice_of_def map_filter_def to_timeline_event_def example_request_def)
  have "serves request_token [example_request ''$1''] ''!r'' request_server"
    unfolding serves_def
    by (auto simp: request_server_def request_token_def shown_def slice slice_of_def [THEN arg_cong [where f = slice_limited]]
        split: if_splits intro!: exI [of _ 1])
  moreover have "names_events request_server"
    by (auto simp: names_events_def request_server_def slice split: if_splits)
  ultimately show ?thesis by (simp add: keeps_log_def request_life_def new_participant_def)
qed

lemma first_stored: "stored first_end = Some request_checkpoint"
  by code_simp

abbreviation second_life :: "(participant \<times> agent_state) effect" where
  "second_life \<equiv> serve example_config example_env (inc_homeserver request_life) (inc_login request_life)
     (inc_whoami request_life) (inc_probe request_life) (inc_rounds request_life)
     (inc_participant request_life, new_agent (Some request_checkpoint))"

lemma second_life_ends:
  "case second_life of ((_, s), x) \<Rightarrow> x = None \<and> map_option ck_sync_token (stored s) = Some (Some ''t1'') \<and>
     map fst (observations (agent_ledger s)) = [''$1'']"
  by code_simp

lemma request_ends:
  "map_option ck_sync_token (stored second_end) = Some (Some ''t1'')"
  using second_life_ends by (auto simp: second_end_def first_stored split: prod.splits)


end
