(* ===== verification/Federation.thy ===== *)
theory Federation
  imports Message Client
begin

text \<open>
  What one federation domain shows through an ordinary participant
  (\<^verbatim>\<open>src/fam/common/domain_view.py\<close>, \<^verbatim>\<open>collect_domain_view\<close> of \<^verbatim>\<open>src/fam/matrix/rooms.py\<close>), and
  the comparison of two such views with what the run generated
  (\<^verbatim>\<open>src/fam/instrumentation/federation.py\<close>). Reasons for a failure are values of a datatype
  instead of lines of text.
\<close>

section \<open>The view of one domain\<close>

record domain_view =
  dv_domain :: string
  dv_observer :: string
  request_event_ids :: "string set"
  ack_event_ids :: "string set"
  experimental_event_ids :: "string set"
  non_experimental_events :: nat
  total_events_seen :: nat
  dv_membership :: "string list"
  dv_detail :: "(string, string \<times> string \<times> int) dict"

definition empty_view :: "string \<Rightarrow> string \<Rightarrow> domain_view" where
  "empty_view domain observer = \<lparr>dv_domain = domain, dv_observer = observer, request_event_ids = {},
     ack_event_ids = {}, experimental_event_ids = {}, non_experimental_events = 0, total_events_seen = 0,
     dv_membership = [], dv_detail = []\<rparr>"

record view_summary =
  vs_domain :: string
  vs_observer :: string
  vs_experimental_events :: nat
  vs_requests :: nat
  vs_acks :: nat
  vs_non_experimental_events :: nat
  vs_total_events_seen :: nat
  vs_membership :: "string list"

definition view_summary_of :: "domain_view \<Rightarrow> view_summary" where
  "view_summary_of v = \<lparr>vs_domain = dv_domain v, vs_observer = dv_observer v,
     vs_experimental_events = card (experimental_event_ids v), vs_requests = card (request_event_ids v),
     vs_acks = card (ack_event_ids v), vs_non_experimental_events = non_experimental_events v,
     vs_total_events_seen = total_events_seen v, vs_membership = dv_membership v\<rparr>"

text \<open>The message of this experiment and run that an event carries, if it carries one.\<close>

definition run_message :: "string \<Rightarrow> string \<Rightarrow> raw_event \<Rightarrow> exn + parsed_message option" where
  "run_message experiment run e =
     (if raw_type e \<noteq> Some MESSAGE_EVENT_TYPE then Inr None
      else case raw_body e of
        None \<Rightarrow> Inr None
      | Some body \<Rightarrow> (case parse body of
          Inl _ \<Rightarrow> Inl ValueError
        | Inr None \<Rightarrow> Inr None
        | Inr (Some m) \<Rightarrow>
            if upper (experiment_name (correlation m)) \<noteq> upper experiment \<or> run_id (correlation m) \<noteq> run then Inr None
            else Inr (Some m)))"

definition add_message :: "raw_event \<Rightarrow> string \<Rightarrow> parsed_message \<Rightarrow> domain_view \<Rightarrow> domain_view" where
  "add_message e i m v = v\<lparr>experimental_event_ids := insert i (experimental_event_ids v),
     request_event_ids := (if is_request m then insert i (request_event_ids v) else request_event_ids v),
     ack_event_ids := (if is_request m then ack_event_ids v else insert i (ack_event_ids v)),
     dv_detail := AList.update i (if is_request m then ''request'' else ''ack'',
       case raw_sender e of None \<Rightarrow> [] | Some s \<Rightarrow> s, sequence_id (correlation m)) (dv_detail v)\<rparr>"

fun collect_events :: "string \<Rightarrow> string \<Rightarrow> raw_event list \<Rightarrow> domain_view \<Rightarrow> exn + domain_view" where
  "collect_events experiment run [] v = Inr v"
| "collect_events experiment run (e # es) v =
     rbind (run_message experiment run e) (\<lambda>mo. case mo of
       None \<Rightarrow> collect_events experiment run es (v\<lparr>non_experimental_events := non_experimental_events v + 1\<rparr>)
     | Some m \<Rightarrow> (case raw_id e of
         None \<Rightarrow> Inl KeyError
       | Some i \<Rightarrow> collect_events experiment run es (add_message e i m v)))"

definition collect_domain_view ::
  "homeserver \<Rightarrow> exn + string list \<Rightarrow> string \<Rightarrow> string \<Rightarrow> string \<Rightarrow> string \<Rightarrow> string \<Rightarrow> exn + domain_view" where
  "collect_domain_view hs members observer domain room experiment run =
     rbind (fetch_all_messages hs room 200 50) (\<lambda>evs.
     rbind (collect_events experiment run evs ((empty_view domain observer)\<lparr>total_events_seen := length evs\<rparr>)) (\<lambda>v.
     rbind members (\<lambda>ms. Inr (v\<lparr>dv_membership := ms\<rparr>))))"

section \<open>The comparison\<close>

record federation_comparison =
  fc_run_id :: string
  fc_room_id :: string
  fc_quiet_interval :: rat
  expected_event_ids :: "string set"
  expected_request_ids_a :: "string set"
  expected_request_ids_b :: "string set"
  expected_ack_ids :: "string set"
  expected_membership :: "string set"
  view_a :: "domain_view option"
  view_b :: "domain_view option"

definition view_ids :: "domain_view option \<Rightarrow> string set" where
  "view_ids v = (case v of None \<Rightarrow> {} | Some d \<Rightarrow> experimental_event_ids d)"

definition view_members :: "domain_view option \<Rightarrow> string set" where
  "view_members v = (case v of None \<Rightarrow> {} | Some d \<Rightarrow> set (dv_membership d))"

definition set_a :: "federation_comparison \<Rightarrow> string set" where "set_a c = view_ids (view_a c)"
definition set_b :: "federation_comparison \<Rightarrow> string set" where "set_b c = view_ids (view_b c)"

definition missing_on_a :: "federation_comparison \<Rightarrow> string set" where "missing_on_a c = expected_event_ids c - set_a c"
definition missing_on_b :: "federation_comparison \<Rightarrow> string set" where "missing_on_b c = expected_event_ids c - set_b c"
definition unexpected_on_a :: "federation_comparison \<Rightarrow> string set" where "unexpected_on_a c = set_a c - expected_event_ids c"
definition unexpected_on_b :: "federation_comparison \<Rightarrow> string set" where "unexpected_on_b c = set_b c - expected_event_ids c"

definition event_set_equal :: "federation_comparison \<Rightarrow> bool" where
  "event_set_equal c \<longleftrightarrow> set_a c = expected_event_ids c \<and> set_b c = expected_event_ids c \<and> set_a c = set_b c"

definition a_requests_visible_on_b :: "federation_comparison \<Rightarrow> bool" where
  "a_requests_visible_on_b c \<longleftrightarrow> expected_request_ids_a c \<subseteq> set_b c"

definition b_requests_visible_on_a :: "federation_comparison \<Rightarrow> bool" where
  "b_requests_visible_on_a c \<longleftrightarrow> expected_request_ids_b c \<subseteq> set_a c"

definition a_requests_missing_on_b :: "federation_comparison \<Rightarrow> string set" where
  "a_requests_missing_on_b c = expected_request_ids_a c - set_b c"

definition b_requests_missing_on_a :: "federation_comparison \<Rightarrow> string set" where
  "b_requests_missing_on_a c = expected_request_ids_b c - set_a c"

definition membership_a :: "federation_comparison \<Rightarrow> string set" where "membership_a c = view_members (view_a c)"
definition membership_b :: "federation_comparison \<Rightarrow> string set" where "membership_b c = view_members (view_b c)"

definition membership_compatible :: "federation_comparison \<Rightarrow> bool" where
  "membership_compatible c \<longleftrightarrow> membership_a c = expected_membership c \<and> membership_b c = expected_membership c"

definition unexpected_members_a :: "federation_comparison \<Rightarrow> string set" where
  "unexpected_members_a c = membership_a c - expected_membership c"

definition unexpected_members_b :: "federation_comparison \<Rightarrow> string set" where
  "unexpected_members_b c = membership_b c - expected_membership c"

definition overall_result :: "federation_comparison \<Rightarrow> bool" where
  "overall_result c \<longleftrightarrow> event_set_equal c \<and> a_requests_visible_on_b c \<and> b_requests_visible_on_a c \<and>
     membership_compatible c"

datatype failure_reason =
    MissingOnA nat | MissingOnB nat | UnexpectedOnA nat | UnexpectedOnB nat
  | RequestsNotVisibleOnB nat | RequestsNotVisibleOnA nat
  | MembershipA "string list" | MembershipB "string list"

definition reason :: "bool \<Rightarrow> failure_reason \<Rightarrow> failure_reason list" where
  "reason b r = (if b then [r] else [])"

definition failure_reasons :: "federation_comparison \<Rightarrow> failure_reason list" where
  "failure_reasons c =
     reason (missing_on_a c \<noteq> {}) (MissingOnA (card (missing_on_a c))) @
     reason (missing_on_b c \<noteq> {}) (MissingOnB (card (missing_on_b c))) @
     reason (unexpected_on_a c \<noteq> {}) (UnexpectedOnA (card (unexpected_on_a c))) @
     reason (unexpected_on_b c \<noteq> {}) (UnexpectedOnB (card (unexpected_on_b c))) @
     reason (\<not> a_requests_visible_on_b c) (RequestsNotVisibleOnB (card (a_requests_missing_on_b c))) @
     reason (\<not> b_requests_visible_on_a c) (RequestsNotVisibleOnA (card (b_requests_missing_on_a c))) @
     reason (membership_a c \<noteq> expected_membership c) (MembershipA (sorted_list_of_set (membership_a c))) @
     reason (membership_b c \<noteq> expected_membership c) (MembershipB (sorted_list_of_set (membership_b c)))"

text \<open>\<open>to_dict\<close>, less the provenance it is given and the time it is written.\<close>

record comparison_document =
  cd_run_id :: string
  cd_room_id :: string
  cd_quiet_interval :: rat
  cd_expected_event_ids :: "string list"
  cd_expected_request_ids_a :: "string list"
  cd_expected_request_ids_b :: "string list"
  cd_expected_ack_ids :: "string list"
  cd_domain_a_event_ids :: "string list"
  cd_domain_b_event_ids :: "string list"
  cd_missing_on_a :: "string list"
  cd_missing_on_b :: "string list"
  cd_unexpected_on_a :: "string list"
  cd_unexpected_on_b :: "string list"
  cd_a_requests_visible_on_b :: bool
  cd_b_requests_visible_on_a :: bool
  cd_a_requests_missing_on_b :: "string list"
  cd_b_requests_missing_on_a :: "string list"
  cd_expected_membership :: "string list"
  cd_domain_a_membership :: "string list"
  cd_domain_b_membership :: "string list"
  cd_unexpected_members_a :: "string list"
  cd_unexpected_members_b :: "string list"
  cd_event_set_equal :: bool
  cd_membership_compatible :: bool
  cd_overall_result :: string
  cd_view_a :: "view_summary option"
  cd_view_b :: "view_summary option"

definition comparison_document_of :: "federation_comparison \<Rightarrow> comparison_document" where
  "comparison_document_of c =
     \<lparr>cd_run_id = fc_run_id c, cd_room_id = fc_room_id c, cd_quiet_interval = fc_quiet_interval c,
      cd_expected_event_ids = sorted_list_of_set (expected_event_ids c),
      cd_expected_request_ids_a = sorted_list_of_set (expected_request_ids_a c),
      cd_expected_request_ids_b = sorted_list_of_set (expected_request_ids_b c),
      cd_expected_ack_ids = sorted_list_of_set (expected_ack_ids c),
      cd_domain_a_event_ids = sorted_list_of_set (set_a c), cd_domain_b_event_ids = sorted_list_of_set (set_b c),
      cd_missing_on_a = sorted_list_of_set (missing_on_a c), cd_missing_on_b = sorted_list_of_set (missing_on_b c),
      cd_unexpected_on_a = sorted_list_of_set (unexpected_on_a c),
      cd_unexpected_on_b = sorted_list_of_set (unexpected_on_b c),
      cd_a_requests_visible_on_b = a_requests_visible_on_b c, cd_b_requests_visible_on_a = b_requests_visible_on_a c,
      cd_a_requests_missing_on_b = sorted_list_of_set (a_requests_missing_on_b c),
      cd_b_requests_missing_on_a = sorted_list_of_set (b_requests_missing_on_a c),
      cd_expected_membership = sorted_list_of_set (expected_membership c),
      cd_domain_a_membership = sorted_list_of_set (membership_a c),
      cd_domain_b_membership = sorted_list_of_set (membership_b c),
      cd_unexpected_members_a = sorted_list_of_set (unexpected_members_a c),
      cd_unexpected_members_b = sorted_list_of_set (unexpected_members_b c),
      cd_event_set_equal = event_set_equal c, cd_membership_compatible = membership_compatible c,
      cd_overall_result = (if overall_result c then ''PASS'' else ''FAIL''),
      cd_view_a = map_option view_summary_of (view_a c), cd_view_b = map_option view_summary_of (view_b c)\<rparr>"

section \<open>Lemmas\<close>

text \<open>The ids under which a list of events carries messages of the run.\<close>

definition message_ids :: "string \<Rightarrow> string \<Rightarrow> (parsed_message \<Rightarrow> bool) \<Rightarrow> raw_event list \<Rightarrow> string set" where
  "message_ids experiment run P es =
     {i. \<exists>e \<in> set es. \<exists>m. run_message experiment run e = Inr (Some m) \<and> P m \<and> raw_id e = Some i}"

lemma message_ids_simps [simp]:
  "message_ids experiment run P [] = {}"
  "run_message experiment run e = Inr None \<Longrightarrow>
     message_ids experiment run P (e # es) = message_ids experiment run P es"
  "run_message experiment run e = Inr (Some m) \<Longrightarrow> raw_id e = Some i \<Longrightarrow>
     message_ids experiment run P (e # es) =
       (if P m then insert i (message_ids experiment run P es) else message_ids experiment run P es)"
  by (auto simp: message_ids_def)

lemma collect_events_exact:
  assumes "collect_events experiment run es v = Inr v'"
  shows "experimental_event_ids v' = experimental_event_ids v \<union> message_ids experiment run (\<lambda>_. True) es \<and>
    request_event_ids v' = request_event_ids v \<union> message_ids experiment run is_request es \<and>
    ack_event_ids v' = ack_event_ids v \<union> message_ids experiment run (\<lambda>m. \<not> is_request m) es \<and>
    non_experimental_events v' = non_experimental_events v + length (filter (\<lambda>e. run_message experiment run e = Inr None) es) \<and>
    (\<forall>e \<in> set es. returns (run_message experiment run e)) \<and>
    total_events_seen v' = total_events_seen v \<and> dv_membership v' = dv_membership v"
  using assms
proof (induction es arbitrary: v)
  case (Cons e es)
  from Cons.prems obtain mo where mo: "run_message experiment run e = Inr mo" by (auto simp: rbind_eq_Inr)
  show ?case
  proof (cases mo)
    case None
    with Cons.prems mo have "collect_events experiment run es (v\<lparr>non_experimental_events := non_experimental_events v + 1\<rparr>) = Inr v'"
      by simp
    from Cons.IH [OF this] mo None show ?thesis by (simp add: returns_def)
  next
    case (Some m)
    with Cons.prems mo obtain i where i: "raw_id e = Some i"
      and rest: "collect_events experiment run es (add_message e i m v) = Inr v'" by (auto split: option.splits)
    from Cons.IH [OF rest] mo Some i show ?thesis by (auto simp: add_message_def returns_def)
  qed
qed simp

lemma reason_none [simp]: "reason b r = [] \<longleftrightarrow> \<not> b"
  by (simp add: reason_def)

lemma visible_missing: "a_requests_visible_on_b c \<longleftrightarrow> a_requests_missing_on_b c = {}"
  "b_requests_visible_on_a c \<longleftrightarrow> b_requests_missing_on_a c = {}"
  by (auto simp: a_requests_visible_on_b_def a_requests_missing_on_b_def b_requests_visible_on_a_def
      b_requests_missing_on_a_def)

lemma event_set_equal_iff:
  "event_set_equal c \<longleftrightarrow> missing_on_a c = {} \<and> missing_on_b c = {} \<and> unexpected_on_a c = {} \<and> unexpected_on_b c = {}"
  by (auto simp: event_set_equal_def missing_on_a_def missing_on_b_def unexpected_on_a_def unexpected_on_b_def)

section \<open>Properties\<close>

text \<open>
  The verdict of the federation comparison and its list of reasons agree: it passes
  exactly when there is no reason, the document says so, and no reason is given with a
  count of zero when the event sets are finite.
\<close>

theorem verdict_explained:
  "(overall_result c \<longleftrightarrow> failure_reasons c = []) \<and>
   (cd_overall_result (comparison_document_of c) = ''PASS'' \<longleftrightarrow> failure_reasons c = []) \<and>
   (\<forall>r \<in> set (failure_reasons c). finite (expected_event_ids c) \<and> finite (set_a c) \<and> finite (set_b c) \<and>
      finite (expected_request_ids_a c) \<and> finite (expected_request_ids_b c) \<longrightarrow>
      r \<notin> {MissingOnA 0, MissingOnB 0, UnexpectedOnA 0, UnexpectedOnB 0, RequestsNotVisibleOnB 0, RequestsNotVisibleOnA 0})"
proof -
  have "overall_result c \<longleftrightarrow> failure_reasons c = []"
    by (auto simp: overall_result_def failure_reasons_def event_set_equal_iff membership_compatible_def)
  moreover have "r \<notin> {MissingOnA 0, MissingOnB 0, UnexpectedOnA 0, UnexpectedOnB 0, RequestsNotVisibleOnB 0, RequestsNotVisibleOnA 0}"
    if "r \<in> set (failure_reasons c)" "finite (expected_event_ids c)" "finite (set_a c)" "finite (set_b c)"
      "finite (expected_request_ids_a c)" "finite (expected_request_ids_b c)" for r
  proof -
    have "finite (missing_on_a c)" "finite (missing_on_b c)" "finite (unexpected_on_a c)" "finite (unexpected_on_b c)"
      "finite (a_requests_missing_on_b c)" "finite (b_requests_missing_on_a c)"
      using that by (simp_all add: missing_on_a_def missing_on_b_def unexpected_on_a_def unexpected_on_b_def
        a_requests_missing_on_b_def b_requests_missing_on_a_def)
    with that(1) show ?thesis by (auto simp: failure_reasons_def reason_def visible_missing split: if_splits)
  qed
  ultimately show ?thesis by (simp add: comparison_document_of_def)
qed

text \<open>Domain B misses one of two events and a member.\<close>

definition sample_view :: "string \<Rightarrow> string set \<Rightarrow> domain_view" where
  "sample_view domain ids = (empty_view domain ''@o'')\<lparr>experimental_event_ids := ids, request_event_ids := ids,
     dv_membership := [''@a'']\<rparr>"

definition sample_comparison :: federation_comparison where
  "sample_comparison = \<lparr>fc_run_id = ''r'', fc_room_id = ''!r'', fc_quiet_interval = 30,
     expected_event_ids = {''$1'', ''$2''}, expected_request_ids_a = {''$1''}, expected_request_ids_b = {''$2''},
     expected_ack_ids = {}, expected_membership = {''@a''},
     view_a = Some (sample_view ''A'' {''$1'', ''$2''}), view_b = Some (sample_view ''B'' {''$2''})\<rparr>"

theorem verdict_explained_witness:
  "failure_reasons sample_comparison = [MissingOnB 1, RequestsNotVisibleOnB 1] \<and> \<not> overall_result sample_comparison \<and>
   MissingOnB 0 \<notin> set (failure_reasons sample_comparison)"
proof -
  have sets: "set_a sample_comparison = {''$1'', ''$2''}" "set_b sample_comparison = {''$2''}"
    "expected_event_ids sample_comparison = {''$1'', ''$2''}" "expected_request_ids_a sample_comparison = {''$1''}"
    "expected_request_ids_b sample_comparison = {''$2''}" "expected_membership sample_comparison = {''@a''}"
    "membership_a sample_comparison = {''@a''}" "membership_b sample_comparison = {''@a''}"
    by (simp_all add: sample_comparison_def sample_view_def empty_view_def set_a_def set_b_def view_ids_def
      membership_a_def membership_b_def view_members_def)
  have "{''$1'', ''$2''} - {''$2''} = {''$1'' :: string}" by auto
  then have diffs: "missing_on_a sample_comparison = {}" "missing_on_b sample_comparison = {''$1''}"
    "unexpected_on_a sample_comparison = {}" "unexpected_on_b sample_comparison = {}"
    "a_requests_missing_on_b sample_comparison = {''$1''}" "b_requests_missing_on_a sample_comparison = {}"
    by (simp_all add: sets missing_on_a_def missing_on_b_def unexpected_on_a_def unexpected_on_b_def
      a_requests_missing_on_b_def b_requests_missing_on_a_def)
  have f: "failure_reasons sample_comparison = [MissingOnB 1, RequestsNotVisibleOnB 1]"
    by (simp add: failure_reasons_def reason_def diffs sets visible_missing)
  moreover have "\<not> overall_result sample_comparison"
    using verdict_explained [of sample_comparison] f by simp
  ultimately show ?thesis by simp
qed

text \<open>Collected views.\<close>

lemma collect_domain_view_exact:
  assumes "collect_domain_view hs members observer domain room experiment run = Inr v"
  obtains evs ms where "fetch_all_messages hs room 200 50 = Inr evs" and "members = Inr ms"
    and "experimental_event_ids v = message_ids experiment run (\<lambda>_. True) evs"
    and "request_event_ids v = message_ids experiment run is_request evs"
    and "ack_event_ids v = message_ids experiment run (\<lambda>m. \<not> is_request m) evs"
    and "non_experimental_events v = length (filter (\<lambda>e. run_message experiment run e = Inr None) evs)"
    and "total_events_seen v = length evs" and "dv_membership v = ms"
proof -
  from assms obtain evs ms w where evs: "fetch_all_messages hs room 200 50 = Inr evs" and ms: "members = Inr ms"
    and w: "collect_events experiment run evs ((empty_view domain observer)\<lparr>total_events_seen := length evs\<rparr>) = Inr w"
    and v: "v = w\<lparr>dv_membership := ms\<rparr>"
    unfolding collect_domain_view_def by (auto simp: rbind_eq_Inr)
  from collect_events_exact [OF w] v evs ms show ?thesis by (intro that) (auto simp: empty_view_def)
qed


text \<open>A room of one membership event and one request, served alike by both domains.\<close>

definition sample_room :: homeserver where
  "sample_room = \<lparr>hs_sync = \<lambda>_ _. None,
     hs_messages = \<lambda>_ _ _ _. Inr
       ([\<lparr>raw_type = Some MESSAGE_EVENT_TYPE, raw_body = Some ''FAM/1 REQUEST E1 r 0001'', raw_room = None,
          raw_id = Some ''$1'', raw_sender = Some ''@a'', raw_ts = None\<rparr>,
         \<lparr>raw_type = Some ''m.room.member'', raw_body = None, raw_room = None, raw_id = Some ''$0'',
          raw_sender = Some ''@a'', raw_ts = None\<rparr>], None),
     hs_send = \<lambda>_ _ _. Inl [], hs_join = \<lambda>_ _. True\<rparr>"

definition sample_collected :: "string \<Rightarrow> domain_view" where
  "sample_collected domain = \<lparr>dv_domain = domain, dv_observer = ''@o'', request_event_ids = {''$1''},
     ack_event_ids = {}, experimental_event_ids = {''$1''}, non_experimental_events = 1, total_events_seen = 2,
     dv_membership = [''@a''], dv_detail = [(''$1'', ''request'', ''@a'', 1)]\<rparr>"

definition passing_comparison :: federation_comparison where
  "passing_comparison = sample_comparison\<lparr>expected_event_ids := {''$1''}, expected_request_ids_b := {},
     view_a := Some (sample_collected ''A''), view_b := Some (sample_collected ''B'')\<rparr>"

lemma sample_collection:
  "collect_domain_view sample_room (Inr [''@a'']) ''@o'' domain ''!r'' ''E1'' ''r'' = Inr (sample_collected domain)"
proof -
  have parsed: "parse ''FAM/1 REQUEST E1 r 0001'' =
      Inr (Some \<lparr>kind = ''REQUEST'', correlation = \<lparr>experiment_name = ''E1'', run_id = ''r'', sequence_id = 1\<rparr>, padded = False\<rparr>)"
    by code_simp
  have upper: "upper ''E1'' = ''E1''" by code_simp
  have fetched: "fetch_all_messages sample_room ''!r'' 200 50 = Inr
       [\<lparr>raw_type = Some MESSAGE_EVENT_TYPE, raw_body = Some ''FAM/1 REQUEST E1 r 0001'', raw_room = None,
          raw_id = Some ''$1'', raw_sender = Some ''@a'', raw_ts = None\<rparr>,
         \<lparr>raw_type = Some ''m.room.member'', raw_body = None, raw_room = None, raw_id = Some ''$0'',
          raw_sender = Some ''@a'', raw_ts = None\<rparr>]"
    by (simp add: fetch_all_messages_def sample_room_def numeral_eq_Suc)
  show ?thesis
    by (simp add: collect_domain_view_def fetched run_message_def parsed upper add_message_def empty_view_def
      MESSAGE_EVENT_TYPE_def is_request_def REQUEST_KEYWORD_def sample_collected_def)
qed


end
