(* ===== verification/Json.thy ===== *)
theory Json
  imports Prelude Py_Text Complex_Main "HOL-Library.Multiset"
begin

text \<open>
  JSON values as the program handles them, with Python's equality on them, and
  \<^verbatim>\<open>src/fam/common/digests.py\<close>: secrets stripped from a document, its canonical form and
  its hash. Rendering to text and SHA-256 are arguments.
\<close>

datatype json = JNull | JBool bool | JNum rat | JStr string | JList "json list"
  | JObj "(string \<times> json) list"

definition of_flag :: "bool \<Rightarrow> rat" where
  "of_flag b = (if b then 1 else 0)"

text \<open>\<open>==\<close>: a boolean is a number, and dictionaries are compared without their order.\<close>

fun py_eq :: "json \<Rightarrow> json \<Rightarrow> bool" where
  "py_eq JNull v = (v = JNull)"
| "py_eq (JBool b) v = (v = JBool b \<or> v = JNum (of_flag b))"
| "py_eq (JNum n) v = (v = JNum n \<or> (\<exists>b. v = JBool b \<and> of_flag b = n))"
| "py_eq (JStr s) v = (v = JStr s)"
| "py_eq (JList xs) v = (case v of JList ys \<Rightarrow> list_all2 py_eq xs ys | _ \<Rightarrow> False)"
| "py_eq (JObj d) v = (case v of
     JObj e \<Rightarrow> fst ` set d = fst ` set e \<and>
       (\<forall>(k, x) \<in> set d. case map_of e k of None \<Rightarrow> False | Some y \<Rightarrow> py_eq x y)
   | _ \<Rightarrow> False)"

text \<open>\<open>d.get(k)\<close> on a document; a value that is not an object has no \<open>get\<close>.\<close>

definition obj_get :: "json \<Rightarrow> string \<Rightarrow> json option" where
  "obj_get d k = (case d of JObj e \<Rightarrow> map_of e k | _ \<Rightarrow> None)"

text \<open>Whether the value of \<open>d.get(k)\<close> counts as true.\<close>

fun json_true :: "json option \<Rightarrow> bool" where
  "json_true (Some (JBool b)) = b"
| "json_true (Some (JNum n)) = (n \<noteq> 0)"
| "json_true (Some (JStr s)) = (s \<noteq> [])"
| "json_true (Some (JList l)) = (l \<noteq> [])"
| "json_true (Some (JObj d)) = (d \<noteq> [])"
| "json_true (Some JNull) = False"
| "json_true None = False"

section \<open>Digests\<close>

definition SECRET_KEY_MARKERS :: "string list" where
  "SECRET_KEY_MARKERS = [''password'', ''secret'', ''token'', ''key'', ''credential'', ''salt'', ''pepper'']"

definition SECRET_KEY_EXCEPTIONS :: "string list" where
  "SECRET_KEY_EXCEPTIONS = [''signing_key_path'', ''macaroon_secret_key_path'', ''trusted_key_servers'',
     ''key_server'', ''suppress_key_server_warning'', ''form_secret_path'']"

text \<open>\<open>pat in s\<close>.\<close>

definition substring :: "string \<Rightarrow> string \<Rightarrow> bool" where
  "substring pat s \<longleftrightarrow> list_ex (\<lambda>i. take (length pat) (drop i s) = pat) [0..<length s + 1]"

definition is_secret_key :: "string \<Rightarrow> bool" where
  "is_secret_key k \<longleftrightarrow> lower k \<notin> set SECRET_KEY_EXCEPTIONS \<and>
     list_ex (\<lambda>m. substring m (lower k)) SECRET_KEY_MARKERS"

fun sanitize :: "json \<Rightarrow> json" where
  "sanitize (JObj d) = JObj (map (\<lambda>(k, v). (k, if is_secret_key k then JStr ''<redacted>'' else sanitize v)) d)"
| "sanitize (JList xs) = JList (map sanitize xs)"
| "sanitize v = v"

text \<open>The order of keys \<open>json.dumps(..., sort_keys=True)\<close> writes.\<close>

fun sort_keys :: "json \<Rightarrow> json" where
  "sort_keys (JObj d) = JObj (sort_key fst (map (\<lambda>(k, v). (k, sort_keys v)) d))"
| "sort_keys (JList xs) = JList (map sort_keys xs)"
| "sort_keys v = v"

definition canonical_json :: "(json \<Rightarrow> string) \<Rightarrow> json \<Rightarrow> string" where
  "canonical_json render d = render (sort_keys d)"

definition config_hash :: "(json \<Rightarrow> string) \<Rightarrow> (string \<Rightarrow> string) \<Rightarrow> json \<Rightarrow> string" where
  "config_hash render sha d = sha (canonical_json render (sanitize d))"

text \<open>\<open>file_sha256\<close> hashes the chunks of a file in order.\<close>

definition file_sha256 :: "(string \<Rightarrow> string) \<Rightarrow> string list \<Rightarrow> string" where
  "file_sha256 sha chunks = sha (concat chunks)"

section \<open>Lemmas\<close>

text \<open>Documents that differ only in secrets and in the order of their keys.\<close>

inductive same_config :: "json \<Rightarrow> json \<Rightarrow> bool" where
  same_atom: "same_config v v"
| same_list: "list_all2 same_config xs ys \<Longrightarrow> same_config (JList xs) (JList ys)"
| same_obj: "mset d' = mset d \<Longrightarrow>
    list_all2 (\<lambda>p q. fst p = fst q \<and> (is_secret_key (fst p) \<or> same_config (snd p) (snd q))) d' e \<Longrightarrow>
    dict_ok d \<Longrightarrow> same_config (JObj d) (JObj e)"
monos list_all2_mono

lemma sort_key_unique:
  assumes "mset xs = mset ys" and "distinct (map fst xs)"
  shows "sort_key fst xs = sort_key fst ys"
proof (rule properties_for_sort_key)
  have xs: "distinct xs" using assms(2) by (simp add: distinct_map)
  have inj: "inj_on fst (set xs)" using assms(2) by (simp add: distinct_map)
  have ys: "set ys = set xs" "distinct ys"
    using assms(1) xs mset_eq_setD mset_eq_imp_distinct_iff by metis+
  have single: "filter (\<lambda>x. fst k = fst x) zs = [k]" if "k \<in> set zs" "distinct zs" "inj_on fst (set zs)" for k zs
  proof -
    have "filter (\<lambda>x. fst k = fst x) zs = filter (\<lambda>x. x = k) zs"
      using that by (intro filter_cong) (auto dest: inj_onD)
    also have "\<dots> = [k]" using that(1,2) by (induction zs) (auto simp: filter_empty_conv)
    finally show ?thesis .
  qed
  show "filter (\<lambda>x. fst k = fst x) (sort_key fst ys) = filter (\<lambda>x. fst k = fst x) xs"
    if "k \<in> set (sort_key fst ys)" for k
    using that single [of k "sort_key fst ys"] single [of k xs] ys xs inj by simp
qed (use assms(1) in simp_all)

lemma sort_keys_sanitize_obj:
  "sort_keys (sanitize (JObj d)) = JObj (sort_key fst (map (\<lambda>(k, v).
     (k, if is_secret_key k then JStr ''<redacted>'' else sort_keys (sanitize v))) d))"
  by (simp add: comp_def case_prod_unfold if_distrib [of sort_keys] cong: if_cong)

lemma same_config_sanitized: "same_config a b \<Longrightarrow> sort_keys (sanitize a) = sort_keys (sanitize b)"
proof (induction rule: same_config.induct)
  case (same_list xs ys)
  then have "map (sort_keys \<circ> sanitize) xs = map (sort_keys \<circ> sanitize) ys"
    by (induction rule: list_all2_induct) auto
  then show ?case by (simp add: comp_def)
next
  case (same_obj d' d e)
  let ?f = "\<lambda>(k, v). (k, if is_secret_key k then JStr ''<redacted>'' else sort_keys (sanitize v))"
  have "list_all2 (\<lambda>p q. ?f p = ?f q) d' e"
    using same_obj.IH by (rule list_all2_mono) (auto simp: case_prod_unfold)
  then have "map ?f d' = map ?f e" by (simp add: list_all2_conv_all_nth list_eq_iff_nth_eq)
  moreover have "sort_key fst (map ?f d) = sort_key fst (map ?f d')"
  proof (rule sort_key_unique)
    show "mset (map ?f d) = mset (map ?f d')" using same_obj.hyps by simp
    have "map fst (map ?f d) = map fst d" by (induction d) auto
    then show "distinct (map fst (map ?f d))" using same_obj.hyps unfolding dict_ok_def by (simp only:)
  qed
  ultimately show ?case unfolding sort_keys_sanitize_obj by simp
qed simp

section \<open>Properties\<close>

text \<open>
  The hash of a configuration depends neither on its secrets nor on the order of keys,
  at any depth: documents that agree but for the values under secret keys and the order of
  their objects have the same canonical form, whatever the rendering and the hash function.
\<close>

theorem config_hash_canonical:
  assumes "same_config a b"
  shows "config_hash render sha a = config_hash render sha b"
  using same_config_sanitized [OF assms] by (simp add: config_hash_def canonical_json_def)

theorem config_hash_canonical_witness:
  "\<forall>render sha. config_hash render sha (JObj [(''db'', JObj [(''Password'', JStr ''a'')]), (''n'', JNum 1)]) =
   config_hash render sha (JObj [(''n'', JNum 1), (''db'', JObj [(''Password'', JStr ''b'')])])"
proof -
  have "is_secret_key ''Password''" by code_simp
  then have "same_config (JObj [(''Password'', JStr ''a'')]) (JObj [(''Password'', JStr ''b'')])"
    by (intro same_obj [of "[(''Password'', JStr ''a'')]"]) (simp_all add: dict_ok_def)
  then have "same_config (JObj [(''db'', JObj [(''Password'', JStr ''a'')]), (''n'', JNum 1)])
      (JObj [(''n'', JNum 1), (''db'', JObj [(''Password'', JStr ''b'')])])"
    by (intro same_obj [of "[(''n'', JNum 1), (''db'', JObj [(''Password'', JStr ''a'')])]"])
      (simp_all add: dict_ok_def same_atom)
  then show ?thesis by (intro allI config_hash_canonical)
qed

end
