(* ===== verification/Llm.thy ===== *)
theory Llm
  imports Json Runtime "HOL-Library.Sublist"
begin

text \<open>
  \<^verbatim>\<open>src/fam/executors/llm.py\<close>: the executor that asks a provider. The HTTP transport (its
  answer may differ from call to call), the reading of JSON and the environment are
  arguments; what the executor does with them, the classification of failures and the
  removal of the credential from what is recorded are modelled. An answer of an unexpected
  shape is the Python error that reading it raises.
\<close>

section \<open>Configuration\<close>

definition ANTHROPIC :: string where "ANTHROPIC = ''anthropic''"
definition OPENAI_COMPATIBLE :: string where "OPENAI_COMPATIBLE = ''openai_compatible''"

definition DEFAULT_SYSTEM_PROMPT :: string where
  "DEFAULT_SYSTEM_PROMPT = ''You are a helpful assistant participating in a Matrix chat room. '' @
     ''Answer the user's message directly and concisely in plain text.''"

definition DEFAULT_MAX_TOKENS :: int where "DEFAULT_MAX_TOKENS = 512"
definition MAX_REQUEST_CHARS :: nat where "MAX_REQUEST_CHARS = 4000"

definition ENV_PROVIDER :: string where "ENV_PROVIDER = ''FAM_LLM_PROVIDER''"
definition ENV_MODEL :: string where "ENV_MODEL = ''FAM_LLM_MODEL''"
definition ENV_API_KEY :: string where "ENV_API_KEY = ''FAM_LLM_API_KEY''"
definition ENV_BASE_URL :: string where "ENV_BASE_URL = ''FAM_LLM_BASE_URL''"
definition ENV_MAX_TOKENS :: string where "ENV_MAX_TOKENS = ''FAM_LLM_MAX_TOKENS''"
definition ENV_SYSTEM_PROMPT :: string where "ENV_SYSTEM_PROMPT = ''FAM_LLM_SYSTEM_PROMPT''"

definition SECRET_MARKER :: string where "SECRET_MARKER = ''<redacted>''"

definition DEFAULT_BASE_URLS :: "(string, string) dict" where
  "DEFAULT_BASE_URLS = [(ANTHROPIC, ''https://api.anthropic.com''), (OPENAI_COMPATIBLE, ''https://api.openai.com'')]"

record llm_config =
  provider :: string
  model :: string
  base_url :: string
  max_tokens :: int
  system_prompt :: string
  conversation_history_turns :: nat

definition public_config :: "llm_config \<Rightarrow> json" where
  "public_config c = JObj
     [(''provider'', JStr (provider c)), (''model'', JStr (model c)), (''base_url'', JStr (base_url c)),
      (''max_tokens'', JNum (of_int (max_tokens c))), (''system_prompt'', JStr (system_prompt c)),
      (''conversation_history_turns'', JNum (of_nat (conversation_history_turns c)))]"

definition llm_config_hash :: "(json \<Rightarrow> string) \<Rightarrow> (string \<Rightarrow> string) \<Rightarrow> llm_config \<Rightarrow> string" where
  "llm_config_hash render sha c = sha (canonical_json render (public_config c))"

datatype llm_config_error = UnsupportedProvider string | ModelNotSet | KeyNotSet | BadMaxTokens

text \<open>\<open>os.environ.get(name, default).strip()\<close>.\<close>

type_synonym os_environ = "string \<Rightarrow> string option"

definition env_text :: "os_environ \<Rightarrow> string \<Rightarrow> string \<Rightarrow> string" where
  "env_text env name fallback = strip (case env name of None \<Rightarrow> fallback | Some v \<Rightarrow> v)"

definition or_default :: "string \<Rightarrow> string \<Rightarrow> string" where
  "or_default s fallback = (if s = [] then fallback else s)"

definition rstrip_slash :: "string \<Rightarrow> string" where
  "rstrip_slash s = rev (dropWhile (\<lambda>c. c = CHR ''/'') (rev s))"

text \<open>\<open>int(text)\<close>: a sign, then digits that single underscores may separate.\<close>

fun digits_ok :: "string \<Rightarrow> bool" where
  "digits_ok [] = False"
| "digits_ok [c] = is_digit c"
| "digits_ok (c # d # s) = (is_digit c \<and> (if d = CHR ''_'' then digits_ok s else digits_ok (d # s)))"

definition read_int :: "string \<Rightarrow> int option" where
  "read_int s = (let t = strip s;
       u = (if t \<noteq> [] \<and> (hd t = CHR ''-'' \<or> hd t = CHR ''+'') then tl t else t);
       ds = filter is_digit u
     in if \<not> digits_ok u \<or> max_str_digits < length ds then None
        else Some ((if t \<noteq> [] \<and> hd t = CHR ''-'' then -1 else 1) * int (dec_val ds)))"

definition config_from_environment :: "os_environ \<Rightarrow> llm_config_error + llm_config" where
  "config_from_environment env =
     (let prov = lower (env_text env ENV_PROVIDER ANTHROPIC);
          mdl = env_text env ENV_MODEL [];
          tokens = env_text env ENV_MAX_TOKENS []
      in case map_of DEFAULT_BASE_URLS prov of
           None \<Rightarrow> Inl (UnsupportedProvider prov)
         | Some default_url \<Rightarrow>
             if mdl = [] then Inl ModelNotSet
             else case (if tokens = [] then Some DEFAULT_MAX_TOKENS else read_int tokens) of
               None \<Rightarrow> Inl BadMaxTokens
             | Some n \<Rightarrow> Inr \<lparr>provider = prov, model = mdl,
                 base_url = rstrip_slash (or_default (env_text env ENV_BASE_URL []) default_url),
                 max_tokens = n,
                 system_prompt = or_default (env_text env ENV_SYSTEM_PROMPT []) DEFAULT_SYSTEM_PROMPT,
                 conversation_history_turns = 0\<rparr>)"

definition api_key_from_environment :: "os_environ \<Rightarrow> llm_config_error + string" where
  "api_key_from_environment env =
     (let k = env_text env ENV_API_KEY [] in if k = [] then Inl KeyNotSet else Inr k)"

section \<open>Redaction\<close>

text \<open>\<open>text.replace(pat, rep)\<close>, from left to right; only called for a pattern that is not empty.\<close>

function replace_all :: "string \<Rightarrow> string \<Rightarrow> string \<Rightarrow> string" where
  "replace_all pat rep [] = []"
| "replace_all pat rep (c # s) =
     (if pat \<noteq> [] \<and> take (length pat) (c # s) = pat then rep @ replace_all pat rep (drop (length pat) (c # s))
      else c # replace_all pat rep s)"
  by pat_completeness auto
termination
proof (relation "measure (\<lambda>(pat, rep, s). length s)")
  show "((pat, rep, drop (length pat) (c # s)), pat, rep, c # s) \<in> measure (\<lambda>(pat, rep, s). length s)"
    if "pat \<noteq> [] \<and> take (length pat) (c # s) = pat" for pat rep s and c :: char
    using that by (cases pat) auto
qed auto

fun redact :: "string \<Rightarrow> string list \<Rightarrow> string" where
  "redact t [] = t"
| "redact t (secret # secrets) = redact (if secret \<noteq> [] then replace_all secret SECRET_MARKER t else t) secrets"

section \<open>The request\<close>

record llm_executor =
  llm_config :: llm_config
  api_key :: string

definition executor_from_environment :: "os_environ \<Rightarrow> llm_config_error + llm_executor" where
  "executor_from_environment env =
     rbind (config_from_environment env) (\<lambda>c.
     rbind (api_key_from_environment env) (\<lambda>k. Inr \<lparr>llm_config = c, api_key = k\<rparr>))"

definition endpoint :: "llm_config \<Rightarrow> string" where
  "endpoint c = (if provider c = ANTHROPIC then base_url c @ ''/v1/messages'' else base_url c @ ''/v1/chat/completions'')"

definition headers :: "llm_executor \<Rightarrow> (string, string) dict" where
  "headers x =
     (if provider (llm_config x) = ANTHROPIC
      then [(''x-api-key'', api_key x), (''anthropic-version'', ''2023-06-01''), (''content-type'', ''application/json'')]
      else [(''authorization'', ''Bearer '' @ api_key x), (''content-type'', ''application/json'')])"

definition chat_message :: "string \<Rightarrow> string \<Rightarrow> json" where
  "chat_message role content = JObj [(''role'', JStr role), (''content'', JStr content)]"

definition payload :: "llm_config \<Rightarrow> string \<Rightarrow> json" where
  "payload c t =
     (if provider c = ANTHROPIC
      then JObj [(''model'', JStr (model c)), (''max_tokens'', JNum (of_int (max_tokens c))),
        (''system'', JStr (system_prompt c)), (''messages'', JList [chat_message ''user'' t])]
      else JObj [(''model'', JStr (model c)), (''max_tokens'', JNum (of_int (max_tokens c))),
        (''messages'', JList [chat_message ''system'' (system_prompt c), chat_message ''user'' t])])"

section \<open>The answer\<close>

text \<open>The exceptions of a decision: the provider's, with its classification, or a Python error.\<close>

datatype py_error = AttributeError | TypeError | LookupKeyError | LookupIndexError

datatype llm_error = LLMProviderError string bool "int option" | PyError py_error

definition dict_get :: "json \<Rightarrow> string \<Rightarrow> llm_error + json option" where
  "dict_get d k = (case d of JObj e \<Rightarrow> Inr (map_of e k) | _ \<Rightarrow> Inl (PyError AttributeError))"

text \<open>\<open>d.get(k) or default\<close>.\<close>

definition get_or :: "json \<Rightarrow> string \<Rightarrow> json \<Rightarrow> llm_error + json" where
  "get_or d k fallback = rbind (dict_get d k) (\<lambda>v. Inr (if json_true v then the v else fallback))"

fun elements :: "json \<Rightarrow> llm_error + json list" where
  "elements (JList xs) = Inr xs"
| "elements (JStr s) = Inr (map (\<lambda>c. JStr [c]) s)"
| "elements (JObj d) = Inr (map (\<lambda>(k, v). JStr k) d)"
| "elements _ = Inl (PyError TypeError)"

text \<open>\<open>v[0]\<close>.\<close>

fun first_of :: "json \<Rightarrow> llm_error + json" where
  "first_of (JList []) = Inl (PyError LookupIndexError)"
| "first_of (JList (x # xs)) = Inr x"
| "first_of (JStr []) = Inl (PyError LookupIndexError)"
| "first_of (JStr (c # s)) = Inr (JStr [c])"
| "first_of (JObj d) = Inl (PyError LookupKeyError)"
| "first_of _ = Inl (PyError TypeError)"

text \<open>The text of the blocks of type text, joined.\<close>

fun join_texts :: "json list \<Rightarrow> llm_error + string" where
  "join_texts [] = Inr []"
| "join_texts (JObj d # bs) =
     (if map_of d ''type'' = Some (JStr ''text'')
      then case map_of d ''text'' of
          None \<Rightarrow> join_texts bs
        | Some (JStr t) \<Rightarrow> rbind (join_texts bs) (\<lambda>u. Inr (t @ u))
        | Some _ \<Rightarrow> Inl (PyError TypeError)
      else join_texts bs)"
| "join_texts (b # bs) = join_texts bs"

definition extract_answer :: "string \<Rightarrow> json \<Rightarrow> llm_error + string" where
  "extract_answer prov document =
     (if prov = ANTHROPIC then
        rbind (get_or document ''content'' (JList [])) (\<lambda>blocks.
        rbind (elements blocks) (\<lambda>bs.
        rbind (join_texts bs) (\<lambda>t. Inr (strip t))))
      else
        rbind (get_or document ''choices'' (JList [])) (\<lambda>choices.
          if \<not> json_true (Some choices) then Inr []
          else rbind (first_of choices) (\<lambda>first.
            rbind (get_or first ''message'' (JObj [])) (\<lambda>msg.
            rbind (get_or msg ''content'' (JStr [])) (\<lambda>content.
              case content of JStr t \<Rightarrow> Inr (strip t) | _ \<Rightarrow> Inl (PyError AttributeError))))))"

text \<open>\<open>d.get(k) or d.get(l)\<close>, and the value of \<open>d.get(k)\<close> where nothing is \<open>None\<close>.\<close>

definition value_of :: "json option \<Rightarrow> json" where
  "value_of v = (case v of None \<Rightarrow> JNull | Some x \<Rightarrow> x)"

definition get_either :: "json \<Rightarrow> string \<Rightarrow> string \<Rightarrow> llm_error + json" where
  "get_either d k l = rbind (dict_get d k) (\<lambda>v. if json_true v then Inr (value_of v)
     else rbind (dict_get d l) (\<lambda>w. Inr (value_of w)))"

definition stop_reason :: "json \<Rightarrow> llm_error + json" where
  "stop_reason document = rbind (dict_get document ''stop_reason'') (\<lambda>v. if json_true v then Inr (value_of v)
     else rbind (get_or document ''choices'' (JList [JObj []])) (\<lambda>choices.
       rbind (first_of choices) (\<lambda>first. rbind (dict_get first ''finish_reason'') (\<lambda>w. Inr (value_of w)))))"

definition call_facts :: "llm_config \<Rightarrow> int \<Rightarrow> json \<Rightarrow> string \<Rightarrow> llm_error + (string, json) dict" where
  "call_facts c status document reply =
     rbind (get_or document ''usage'' (JObj [])) (\<lambda>usage.
     rbind (get_or document ''model'' (JStr (model c))) (\<lambda>mdl.
     rbind (stop_reason document) (\<lambda>reason.
     rbind (get_either usage ''input_tokens'' ''prompt_tokens'') (\<lambda>input.
     rbind (get_either usage ''output_tokens'' ''completion_tokens'') (\<lambda>output.
       Inr [(''provider'', JStr (provider c)), (''model'', mdl), (''http_status'', JNum (of_int status)),
         (''stop_reason'', reason), (''response_characters'', JNum (of_nat (length reply))),
         (''input_tokens'', input), (''output_tokens'', output)])))))"

section \<open>The decision\<close>

type_synonym provider_call = "string \<times> (string, string) dict \<times> json"

text \<open>The answer to a call by its number: what the exception says, or a status and a body.\<close>

type_synonym transport = "nat \<Rightarrow> provider_call \<Rightarrow> string + int \<times> string"

record llm_state =
  last_call :: "(string, json) dict"
  provider_calls :: "provider_call list"

definition status_text :: "int \<Rightarrow> string" where
  "status_text n = (if n < 0 then CHR ''-'' # dec (nat (- n)) else dec (nat n))"

text \<open>The statuses by which a provider refused the work without doing it.\<close>

definition external_status :: "int \<Rightarrow> bool" where
  "external_status status \<longleftrightarrow> 500 \<le> status \<or> status \<in> {401, 403, 429}"

definition refused :: "string \<Rightarrow> int \<Rightarrow> string \<Rightarrow> llm_error option" where
  "refused secret status body =
     (if external_status status then Some (LLMProviderError
        (''provider returned '' @ status_text status @ '': '' @ take 500 (redact body [secret])) True (Some status))
      else if 400 \<le> status then Some (LLMProviderError
        (''provider rejected the request with '' @ status_text status @ '': '' @ take 500 (redact body [secret])) False
        (Some status))
      else None)"

definition read_answer ::
  "(string \<Rightarrow> json option) \<Rightarrow> llm_config \<Rightarrow> int \<Rightarrow> string \<Rightarrow> llm_state \<Rightarrow> (llm_error + string) \<times> llm_state" where
  "read_answer loads c status body s =
     (case loads body of
        None \<Rightarrow> (Inl (LLMProviderError ''provider returned a body that is not JSON'' False (Some status)), s)
      | Some document \<Rightarrow>
          (case rbind (extract_answer (provider c) document) (\<lambda>reply.
              rbind (call_facts c status document reply) (\<lambda>facts. Inr (reply, facts))) of
             Inl e \<Rightarrow> (Inl e, s)
           | Inr (reply, facts) \<Rightarrow>
               (if reply = [] then Inl (LLMProviderError ''provider returned an empty response'' False (Some status))
                else Inr reply, s\<lparr>last_call := facts\<rparr>)))"

definition llm_decide ::
  "transport \<Rightarrow> (string \<Rightarrow> json option) \<Rightarrow> llm_executor \<Rightarrow> execution_request \<Rightarrow> llm_state \<Rightarrow>
   (llm_error + string option) \<times> llm_state" where
  "llm_decide tr loads x request s =
     (let t = strip (request_text request) in
      if t = [] then (Inr None, s)
      else
        let call = (endpoint (llm_config x), headers x, payload (llm_config x) (take MAX_REQUEST_CHARS t));
            s1 = s\<lparr>provider_calls := provider_calls s @ [call]\<rparr>
        in case tr (length (provider_calls s)) call of
             Inl exc \<Rightarrow>
               (Inl (LLMProviderError (''provider unreachable: '' @ redact exc [api_key x]) True None), s1)
           | Inr (status, body) \<Rightarrow>
               (case refused (api_key x) status body of
                  Some e \<Rightarrow> (Inl e, s1)
                | None \<Rightarrow> (case read_answer loads (llm_config x) status body s1 of
                    (Inl e, s2) \<Rightarrow> (Inl e, s2)
                  | (Inr reply, s2) \<Rightarrow> (Inr (Some reply), s2))))"

text \<open>What the runtime records of a failure: \<open>getattr(exc, "external", False)\<close> and \<open>status\<close>.\<close>

definition failure_of :: "llm_error \<Rightarrow> exec_failure" where
  "failure_of e = (case e of
     LLMProviderError m ext status \<Rightarrow>
       \<lparr>failure_note = ''LLMProviderError: '' @ m, external = ext, failure_status = map_option status_text status\<rparr>
   | PyError AttributeError \<Rightarrow> \<lparr>failure_note = ''AttributeError'', external = False, failure_status = None\<rparr>
   | PyError TypeError \<Rightarrow> \<lparr>failure_note = ''TypeError'', external = False, failure_status = None\<rparr>
   | PyError LookupKeyError \<Rightarrow> \<lparr>failure_note = ''KeyError'', external = False, failure_status = None\<rparr>
   | PyError LookupIndexError \<Rightarrow> \<lparr>failure_note = ''IndexError'', external = False, failure_status = None\<rparr>)"

definition as_executor :: "llm_error + string option \<Rightarrow> exec_failure + string option" where
  "as_executor r = (case r of Inl e \<Rightarrow> Inl (failure_of e) | Inr reply \<Rightarrow> Inr reply)"

section \<open>Lemmas\<close>

text \<open>A credential that redaction removes for certain: no part of it can come from the marker.\<close>

definition plain_secret :: "string \<Rightarrow> bool" where
  "plain_secret k \<longleftrightarrow> k \<noteq> [] \<and> CHR ''<'' \<notin> set k \<and> CHR ''>'' \<notin> set k \<and> \<not> sublist k ''redacted''"

lemma replace_all_head:
  assumes "prefix p (replace_all k SECRET_MARKER s)" and "CHR ''<'' \<notin> set p"
  shows "prefix p s"
  using assms
proof (induction k SECRET_MARKER s arbitrary: p rule: replace_all.induct)
  case (2 k c s)
  show ?case
  proof (cases p)
    case (Cons a q)
    show ?thesis
    proof (cases "k \<noteq> [] \<and> take (length k) (c # s) = k")
      case True
      with "2.prems" Cons show ?thesis by (simp add: SECRET_MARKER_def)
    next
      case False
      with "2.prems" Cons have "a = c" "prefix q (replace_all k SECRET_MARKER s)" "CHR ''<'' \<notin> set q" by auto
      with "2.hyps"(2) [OF False] Cons show ?thesis by simp
    qed
  qed simp
qed simp

lemma sublist_separator:
  assumes "sublist k (xs @ c # ys)" and "c \<notin> set k"
  shows "sublist k xs \<or> sublist k ys"
proof -
  from assms(1) obtain a b where ab: "xs @ c # ys = a @ k @ b" by (auto simp: sublist_def)
  then show ?thesis
  proof (elim append_eq_append_conv2 [THEN iffD1, THEN exE], goal_cases)
    case (1 us)
    then show ?thesis
    proof
      assume us: "xs @ us = a \<and> c # ys = us @ k @ b"
      then show ?thesis
      proof (cases us)
        case Nil
        with us assms(2) show ?thesis by (cases k) auto
      next
        case (Cons d ds)
        with us have "ys = ds @ k @ b" by simp
        then show ?thesis by (auto simp: sublist_def)
      qed
    next
      assume us: "xs = a @ us \<and> us @ c # ys = k @ b"
      then have "us @ c # ys = k @ b" by simp
      then obtain vs where "us = k @ vs \<or> (us @ vs = k \<and> c # ys = vs @ b)"
        by (auto simp: append_eq_append_conv2)
      then show ?thesis
      proof
        assume "us = k @ vs"
        with us show ?thesis by (auto simp: sublist_def)
      next
        assume v: "us @ vs = k \<and> c # ys = vs @ b"
        with assms(2) have "vs = []" by (cases vs) auto
        with v us have "xs = a @ k @ []" by simp
        then show ?thesis unfolding sublist_def by blast
      qed
    qed
  qed
qed

lemma redacted_marker_free:
  assumes "plain_secret k"
  shows "\<not> sublist k SECRET_MARKER"
proof
  assume "sublist k SECRET_MARKER"
  then have "sublist k ([] @ CHR ''<'' # ''redacted'' @ CHR ''>'' # [])" by (simp add: SECRET_MARKER_def)
  then have "sublist k [] \<or> sublist k (''redacted'' @ CHR ''>'' # [])"
    using assms by (intro sublist_separator) (auto simp: plain_secret_def)
  then have "sublist k (''redacted'' @ CHR ''>'' # [])" using assms by (auto simp: plain_secret_def)
  then have "sublist k ''redacted'' \<or> sublist k []"
    using assms by (intro sublist_separator) (auto simp: plain_secret_def)
  with assms show False by (auto simp: plain_secret_def)
qed

lemma replace_all_removes:
  assumes "plain_secret k"
  shows "\<not> sublist k (replace_all k SECRET_MARKER s)"
  using assms
proof (induction k SECRET_MARKER s rule: replace_all.induct)
  case (1 k)
  then show ?case by (simp add: plain_secret_def)
next
  case (2 k c s)
  show ?case
  proof (cases "k \<noteq> [] \<and> take (length k) (c # s) = k")
    case True
    let ?rest = "replace_all k SECRET_MARKER (drop (length k) (c # s))"
    have "\<not> sublist k (''<redacted'' @ CHR ''>'' # ?rest)"
    proof
      assume "sublist k (''<redacted'' @ CHR ''>'' # ?rest)"
      then have "sublist k ''<redacted'' \<or> sublist k ?rest"
        using "2.prems" by (intro sublist_separator) (auto simp: plain_secret_def)
      with "2.hyps"(1) [OF True "2.prems"] have "sublist k ''<redacted''" by simp
      then have "sublist k ([] @ CHR ''<'' # ''redacted'')" by simp
      then have "sublist k [] \<or> sublist k ''redacted''"
        using "2.prems" by (intro sublist_separator) (auto simp: plain_secret_def)
      with "2.prems" show False by (auto simp: plain_secret_def)
    qed
    with True show ?thesis by (simp add: SECRET_MARKER_def)
  next
    case False
    note kept = replace_all.simps(2) [of k SECRET_MARKER c s, unfolded if_not_P [OF False]]
    have "\<not> prefix k (c # replace_all k SECRET_MARKER s)"
    proof
      assume "prefix k (c # replace_all k SECRET_MARKER s)"
      then have "prefix k (replace_all k SECRET_MARKER (c # s))" unfolding kept .
      then have "prefix k (c # s)" by (rule replace_all_head) (use "2.prems" in \<open>simp add: plain_secret_def\<close>)
      then have "take (length k) (c # s) = k" by (metis append_eq_conv_conj prefix_def)
      with False "2.prems" show False unfolding plain_secret_def by blast
    qed
    with "2.hyps"(2) [OF False "2.prems"] show ?thesis unfolding kept sublist_Cons_right by blast
  qed
qed

lemma redact_removes:
  assumes "plain_secret k"
  shows "\<not> sublist k (redact s [k])"
  using assms replace_all_removes [OF assms] by (auto simp: plain_secret_def)

text \<open>An API key: long, of one word, with a letter, and not part of the marker.\<close>

definition api_secret :: "string \<Rightarrow> bool" where
  "api_secret k \<longleftrightarrow> plain_secret k \<and> CHR '' '' \<notin> set k \<and> 20 \<le> length k \<and> list_ex is_alpha k"

lemma sublist_letters: "sublist k s \<Longrightarrow> list_ex is_alpha k \<Longrightarrow> list_ex is_alpha s"
  by (auto simp: list_ex_iff dest: set_mono_sublist)

lemma status_text_no_letter: "\<not> list_ex is_alpha (status_text n @ '':'')"
proof -
  have "\<not> list_ex is_alpha (dec m)" for m
    using dec_digits [of m] by (auto simp: list_all_iff list_ex_iff is_digit_def is_alpha_def)
  then show ?thesis by (auto simp: status_text_def is_alpha_def)
qed

text \<open>No key lies in a text that has a space in every 20 characters.\<close>

definition spaced :: "string \<Rightarrow> bool" where
  "spaced s \<longleftrightarrow> list_all (\<lambda>i. CHR '' '' \<in> set (take 20 (drop i s))) [0..<length s - 19]"

lemma secret_not_spaced:
  assumes "api_secret k" and "spaced s"
  shows "\<not> sublist k s"
proof
  assume "sublist k s"
  then obtain a b where s: "s = a @ k @ b" by (auto simp: sublist_def)
  have k: "20 \<le> length k" "CHR '' '' \<notin> set (take 20 k)" using assms(1) by (auto simp: api_secret_def dest: in_set_takeD)
  then have "length a < length s - 19" using s by simp
  with assms(2) have "CHR '' '' \<in> set (take 20 (drop (length a) s))" by (simp add: spaced_def list_all_iff)
  with k s show False by simp
qed

lemma secret_not_status: "api_secret k \<Longrightarrow> \<not> sublist k (status_text n @ '':'')"
  using sublist_letters status_text_no_letter unfolding api_secret_def by blast

lemma secret_words:
  assumes "api_secret k" and "\<not> sublist k w" and "\<not> sublist k s"
  shows "\<not> sublist k (w @ CHR '' '' # s)"
  using assms sublist_separator [of k w "CHR '' ''" s] by (auto simp: api_secret_def)

lemma secret_not_redacted:
  assumes "api_secret k"
  shows "\<not> sublist k (redact s [k])" and "\<not> sublist k (take n (redact s [k]))"
proof -
  show clean: "\<not> sublist k (redact s [k])" using assms redact_removes by (simp add: api_secret_def)
  have "sublist (take n (redact s [k])) (redact s [k])"
    by (metis append_take_drop_id sublist_append_rightI)
  with clean show "\<not> sublist k (take n (redact s [k]))" by (meson sublist_order.order_trans)
qed

lemma fixed_notes_spaced:
  "spaced ''LLMProviderError: provider returned''" "spaced ''LLMProviderError: provider rejected the request with''"
  "spaced ''LLMProviderError: provider unreachable:''" "spaced ''LLMProviderError: provider returned an empty response''"
  "spaced ''LLMProviderError: provider returned a body that is not JSON''"
  "spaced ''AttributeError''" "spaced ''TypeError''" "spaced ''KeyError''" "spaced ''IndexError''"
  by code_simp+

lemma refused_note:
  assumes "api_secret k" and "refused k status body = Some e"
  shows "\<not> sublist k (failure_note (failure_of e))"
proof -
  have clean: "\<not> sublist k (w @ CHR '' '' # (status_text status @ '':'') @ CHR '' '' # take 500 (redact body [k]))"
    if "spaced w" for w
    using assms(1) that
    by (intro secret_words secret_not_spaced secret_not_status secret_not_redacted(2))
  show ?thesis
    using assms(2) clean [OF fixed_notes_spaced(1)] clean [OF fixed_notes_spaced(2)]
    by (auto simp: refused_def failure_of_def split: if_splits)
qed

text \<open>Reading an answer raises Python errors only.\<close>

definition python_only :: "llm_error + 'a \<Rightarrow> bool" where
  "python_only r \<longleftrightarrow> (\<forall>e. r = Inl e \<longrightarrow> (\<exists>p. e = PyError p))"

lemma python_only_simps [simp]: "python_only (Inr v)" "python_only (Inl (PyError p))"
  by (simp_all add: python_only_def)

lemma python_only_rbind: "python_only m \<Longrightarrow> (\<And>v. python_only (f v)) \<Longrightarrow> python_only (rbind m f)"
  by (auto simp: python_only_def rbind_eq_Inl)

lemma python_only_if: "python_only a \<Longrightarrow> python_only b \<Longrightarrow> python_only (if c then a else b)"
  by simp

lemma python_only_get: "python_only (dict_get d k)"
  by (simp add: dict_get_def split: json.splits)

lemma python_only_first: "python_only (first_of d)"
  by (cases d rule: first_of.cases) simp_all

lemma python_only_elements: "python_only (elements d)"
  by (cases d) simp_all

lemma python_only_get_or: "python_only (get_or d k j)"
  unfolding get_or_def by (intro python_only_rbind python_only_get python_only_simps)

lemma python_only_join: "python_only (join_texts bs)"
proof (induction bs rule: join_texts.induct)
  case (2 d bs)
  then show ?case by (auto intro: python_only_rbind split: option.splits json.splits)
qed simp_all

lemmas python_only_rules = python_only_rbind python_only_if python_only_simps python_only_get python_only_first
  python_only_elements python_only_get_or python_only_join

lemma python_only_parts:
  "python_only (extract_answer pr d)" "python_only (stop_reason d)" "python_only (get_either d k l)"
proof -
  have "python_only (case j of JStr t \<Rightarrow> Inr (strip t) | _ \<Rightarrow> Inl (PyError AttributeError))" for j
    by (simp split: json.splits)
  then show "python_only (extract_answer pr d)" unfolding extract_answer_def by (intro python_only_rules)
  show "python_only (stop_reason d)" unfolding stop_reason_def by (intro python_only_rules)
  show "python_only (get_either d k l)" unfolding get_either_def by (intro python_only_rules)
qed

lemma python_only_read:
  "python_only (rbind (extract_answer pr d) (\<lambda>reply. rbind (call_facts c status d reply) (\<lambda>facts. Inr (reply, facts))))"
  unfolding call_facts_def by (intro python_only_parts python_only_rules)

lemma read_answer_error:
  assumes "fst (read_answer loads c status body s) = Inl e"
  obtains p where "e = PyError p"
  | "e = LLMProviderError ''provider returned a body that is not JSON'' False (Some status)"
  | "e = LLMProviderError ''provider returned an empty response'' False (Some status)"
proof (cases "loads body")
  case None
  with assms that show ?thesis by (simp add: read_answer_def)
next
  case (Some d)
  let ?r = "rbind (extract_answer (provider c) d) (\<lambda>reply. rbind (call_facts c status d reply) (\<lambda>facts. Inr (reply, facts)))"
  show ?thesis
  proof (cases ?r)
    case (Inl x)
    with assms Some have "?r = Inl e" by (simp add: read_answer_def)
    with python_only_read [of "provider c" d c status] that(1) show ?thesis unfolding python_only_def by blast
  next
    case (Inr v)
    with assms Some that(3) show ?thesis by (auto simp: read_answer_def split: prod.splits if_splits)
  qed
qed

lemma read_answer_note:
  assumes "api_secret k" and "fst (read_answer loads c status body s) = Inl e"
  shows "\<not> sublist k (failure_note (failure_of e))"
proof -
  have py: "\<not> sublist k (failure_note (failure_of (PyError p)))" for p
    using secret_not_spaced [OF assms(1)] fixed_notes_spaced by (cases p) (simp_all add: failure_of_def)
  from assms(2) show ?thesis
  proof (rule read_answer_error)
    show "\<not> sublist k (failure_note (failure_of e))" if "e = PyError p" for p using that py by simp
  qed (use secret_not_spaced [OF assms(1)] fixed_notes_spaced in \<open>simp_all add: failure_of_def\<close>)
qed

lemma llm_decide_note:
  assumes "api_secret (api_key x)" and "fst (llm_decide tr loads x request s) = Inl e"
  shows "\<not> sublist (api_key x) (failure_note (failure_of e))"
proof -
  let ?t = "strip (request_text request)"
  let ?call = "(endpoint (llm_config x), headers x, payload (llm_config x) (take MAX_REQUEST_CHARS ?t))"
  let ?s1 = "s\<lparr>provider_calls := provider_calls s @ [?call]\<rparr>"
  from assms(2) have t: "?t \<noteq> []" by (auto simp: llm_decide_def)
  show ?thesis
  proof (cases "tr (length (provider_calls s)) ?call")
    case (Inl exc)
    with assms(2) t have e: "e = LLMProviderError (''provider unreachable: '' @ redact exc [api_key x]) True None"
      by (simp add: llm_decide_def)
    have "\<not> sublist (api_key x) (''LLMProviderError: provider unreachable:'' @ CHR '' '' # redact exc [api_key x])"
      using assms(1) fixed_notes_spaced by (intro secret_words secret_not_spaced secret_not_redacted(1))
    with e show ?thesis by (simp add: failure_of_def)
  next
    case (Inr r)
    obtain status body where r: "r = (status, body)" by (cases r)
    show ?thesis
    proof (cases "refused (api_key x) status body")
      case None
      with assms(2) t Inr r have "fst (read_answer loads (llm_config x) status body ?s1) = Inl e"
        by (auto simp: llm_decide_def Let_def split: prod.splits sum.splits)
      with assms(1) show ?thesis by (rule read_answer_note)
    next
      case (Some e')
      with assms(2) t Inr r have "e' = e" by (simp add: llm_decide_def Let_def)
      with assms(1) Some show ?thesis by (intro refused_note) simp_all
    qed
  qed
qed

lemma refused_iff:
  "refused k status body = None \<longleftrightarrow> status < 400"
  "refused k status body = Some e \<Longrightarrow> external (failure_of e) \<longleftrightarrow> external_status status"
  by (auto simp: refused_def external_status_def failure_of_def split: if_splits)

lemma read_answer_effect:
  "provider_calls (snd (read_answer loads c status body s)) = provider_calls s"
  "fst (read_answer loads c status body s) = Inr reply \<longleftrightarrow> reply \<noteq> [] \<and>
     (\<exists>d. loads body = Some d \<and> extract_answer (provider c) d = Inr reply \<and> returns (call_facts c status d reply))"
  by (auto simp: read_answer_def rbind_eq_Inr rbind_eq_Inl returns_def split: option.splits sum.splits)

lemma read_answer_internal: "fst (read_answer loads c status body s) = Inl e \<Longrightarrow> \<not> external (failure_of e)"
proof (erule read_answer_error)
  show "\<not> external (failure_of e)" if "e = PyError p" for p using that by (cases p) (simp_all add: failure_of_def)
qed (simp_all add: failure_of_def)

section \<open>Properties\<close>


text \<open>A provider that answers once and quotes the credential back on the second call.\<close>

definition sample_key :: string where "sample_key = ''sk-abcdefghijklmnopqrstuvwxyz''"

definition sample_executor :: llm_executor where
  "sample_executor = \<lparr>llm_config = \<lparr>provider = ANTHROPIC, model = ''m'', base_url = ''http://p'', max_tokens = 512,
     system_prompt = ''s'', conversation_history_turns = 0\<rparr>, api_key = sample_key\<rparr>"

definition sample_transport :: transport where
  "sample_transport n call = (if n = 0 then Inr (200, ''ok'') else Inr (401, ''bad key '' @ sample_key))"

definition sample_loads :: "string \<Rightarrow> json option" where
  "sample_loads body = (if body = ''ok'' then Some (JObj [(''content'',
     JList [JObj [(''type'', JStr ''text''), (''text'', JStr '' hello '')]])]) else None)"

definition sample_request :: execution_request where
  "sample_request = \<lparr>request_text = '' hi '', message = None\<rparr>"


text \<open>The failures that handling one event records.\<close>

lemma answer_failure:
  assumes "Observation r \<in> set (telemetry_log (answer cfg env p e received i s))"
    and "Observation r \<notin> set (telemetry_log s)" and "action r = ''execution_failed''"
  shows "\<exists>f. env_executor env (executor_calls s) (execution i) = Inl f \<and> rec_note r = failure_note f"
proof (cases "env_executor env (executor_calls s) (execution i)")
  case (Inl f)
  with assms show ?thesis by (auto simp: answer_def Let_def log_write_def tick_def)
next
  case (Inr body)
  with assms show ?thesis
    by (cases body) (auto simp: answer_def Let_def observation_of_def log_write_def tick_def save_checkpoint_def
      split: if_splits)
qed

lemma handle_failure:
  assumes "Observation r \<in> set (telemetry_log (fst (handle cfg env p e s)))"
    and "Observation r \<notin> set (telemetry_log s)" and "action r = ''execution_failed''"
  shows "\<exists>n req f. env_executor env n req = Inl f \<and> rec_note r = failure_note f"
proof -
  show ?thesis
  proof (cases "ev_room e = cfg_room_id cfg \<and> ev_sender e \<noteq> cfg_user_id cfg")
    case False
    with assms show ?thesis by (auto simp: handle_def observation_of_def log_write_def split: if_splits)
  next
    case True
    show ?thesis
    proof (cases "\<exists>i. env_inbound env (ev_id e) (ev_sender e) (ev_body e) = Inr (Some i) \<and>
        registry_decide (registry s) (ev_id e) (correlation_key i) = PROCESS")
      case True': True
      then obtain i where i: "env_inbound env (ev_id e) (ev_sender e) (ev_body e) = Inr (Some i)"
        "registry_decide (registry s) (ev_id e) (correlation_key i) = PROCESS" by blast
      let ?s = "(tick s)\<lparr>registry := registry_commit (registry s) (ev_id e) (correlation_key i)\<rparr>"
      have "handle cfg env p e s = (answer cfg env p e (env_clock env (agent_readings s)) i ?s, None)"
        using True i by (simp add: handle_def Let_def tick_def)
      with assms have "\<exists>f. env_executor env (executor_calls ?s) (execution i) = Inl f \<and> rec_note r = failure_note f"
        by (intro answer_failure) (auto simp: tick_def)
      then show ?thesis by blast
    next
      case other_case: False
      with assms True show ?thesis
        by (auto simp: handle_def Let_def observation_of_def log_write_def tick_def
          split: sum.splits option.splits if_splits)
    qed
  qed
qed

text \<open>
  C40: The credential of the language model never reaches the agent's telemetry through a
  failed execution: whatever the provider answers, even a body that quotes the credential,
  no note of a failure that handling an event records contains it. The credential is
  one long word with a letter in it, without angle brackets.
\<close>

theorem telemetry_keeps_key:
  assumes "api_secret (api_key x)"
    and "\<And>n req. \<exists>ls. env_executor env n req = as_executor (fst (llm_decide tr loads x req ls))"
    and "Observation r \<in> set (telemetry_log (fst (handle cfg env p e s)))" and "Observation r \<notin> set (telemetry_log s)"
    and "action r = ''execution_failed''"
  shows "\<not> sublist (api_key x) (rec_note r)"
proof -
  from handle_failure [OF assms(3-5)] obtain n req f where
    f: "env_executor env n req = Inl f" "rec_note r = failure_note f" by blast
  from assms(2) [of n req] obtain ls where ls: "env_executor env n req = as_executor (fst (llm_decide tr loads x req ls))" ..
  with f(1) obtain d where "fst (llm_decide tr loads x req ls) = Inl d" "f = failure_of d"
    by (cases "fst (llm_decide tr loads x req ls)") (auto simp: as_executor_def)
  with llm_decide_note [OF assms(1)] f(2) show ?thesis by simp
qed

text \<open>An agent with the natural language protocol meets the provider that quotes its credential.\<close>

definition sample_env :: agent_env where
  "sample_env = \<lparr>env_inbound = natural_inbound (\<lambda>s. s) ''@agent'',
     env_executor = \<lambda>n req. as_executor (fst (llm_decide sample_transport sample_loads sample_executor req
       \<lparr>last_call = [], provider_calls = replicate (n + 1) ([], [], JNull)\<rparr>)),
     env_executor_name = ''llm'', env_last_call = \<lambda>_. [], env_send = \<lambda>_ _ _ _. Inr ''$r'', env_clock = \<lambda>n. int n\<rparr>"

definition sample_config :: agent_config where
  "sample_config = \<lparr>cfg_user_id = ''@agent'', cfg_password = [], cfg_experiment = ''E4'', cfg_run_id = ''r'',
     cfg_room_id = ''!r'', cfg_timeline_limit = None, cfg_request_protocol = NATURAL_LANGUAGE\<rparr>"

definition sample_event :: timeline_event where
  "sample_event = \<lparr>ev_room = ''!r'', ev_id = ''$1'', ev_sender = ''@human'', ev_body = ''hi'', ev_ts = 0\<rparr>"

lemma sample_failure:
  "case telemetry_log (fst (handle sample_config sample_env (new_participant None 0) sample_event (new_agent None))) of
     [] \<Rightarrow> False
   | t # ts \<Rightarrow> ts = [] \<and> (case t of
       Observation r \<Rightarrow> action r = ''execution_failed'' \<and>
         rec_note r = ''LLMProviderError: provider returned 401: bad key <redacted>''
     | _ \<Rightarrow> False)"
  by code_simp

lemma sample_key_secret: "api_secret sample_key"
  by code_simp

theorem telemetry_keeps_key_witness:
  "\<exists>r. Observation r \<in> set (telemetry_log (fst (handle sample_config sample_env (new_participant None 0) sample_event
     (new_agent None)))) \<and> action r = ''execution_failed'' \<and> \<not> sublist sample_key (rec_note r)"
proof -
  let ?log = "telemetry_log (fst (handle sample_config sample_env (new_participant None 0) sample_event (new_agent None)))"
  from sample_failure obtain r where r: "?log = [Observation r]" "action r = ''execution_failed''"
    by (auto split: list.splits telemetry.splits)
  have key: "api_key sample_executor = sample_key" by (simp add: sample_executor_def)
  have "\<not> sublist (api_key sample_executor) (rec_note r)"
  proof (rule telemetry_keeps_key)
    show "api_secret (api_key sample_executor)" unfolding key by (rule sample_key_secret)
    show "\<exists>ls. env_executor sample_env n req = as_executor (fst (llm_decide sample_transport sample_loads sample_executor req ls))"
      for n req by (auto simp: sample_env_def)
    show "Observation r \<in> set ?log" using r by simp
    show "Observation r \<notin> set (telemetry_log (new_agent None))" by (simp add: new_agent_def)
  qed (fact r)
  with key r show ?thesis by auto
qed

end
