(* ===== verification/Lock.thy ===== *)
theory Lock
  imports Json Frozen
begin

text \<open>
  \<^verbatim>\<open>src/fam/common/lock.py\<close>: the formal protocol lock. The lock file is a JSON document or
  absent, the environment a function from variable names, and the problems of a run are
  values of a datatype.
\<close>

definition LOCK_ARTIFACT :: string where "LOCK_ARTIFACT = ''formal_protocol_lock''"

definition frozen_parameters :: "(string, json) dict" where
  "frozen_parameters =
     [(''protocol_version'', JStr EXECUTION_PROTOCOL_VERSION),
      (''analysis_spec_version'', JStr EXECUTION_ANALYSIS_SPEC_VERSION),
      (''raw_schema_version'', JStr RAW_SCHEMA_VERSION),
      (''manifest_schema_version'', JStr MANIFEST_SCHEMA_VERSION),
      (''room_version'', JStr ROOM_VERSION),
      (''room_encryption_enabled'', JBool ROOM_ENCRYPTION_ENABLED),
      (''interaction_timeout_seconds'', JNum DEFAULT_INTERACTION_TIMEOUT_SECONDS),
      (''message_body_bytes'', JNum (of_int E3_BODY_BYTES)),
      (''message_padding_character'', JStr PADDING_CHARACTER),
      (''e0_runs'', JNum (of_int E0_RUNS)),
      (''e0_requests_per_phase'', JNum (of_int E0_REQUESTS_PER_PHASE)),
      (''e1_runs'', JNum (of_int E1_RUNS)),
      (''e1_requests_per_class'', JNum (of_int E1_REQUESTS_PER_CLASS)),
      (''e1_quiet_interval_seconds'', JNum E1_QUIET_INTERVAL_SECONDS),
      (''e2_runs'', JNum (of_int E2_RUNS)),
      (''e2_offline_requests'', JNum (of_int E2_OFFLINE_REQUESTS)),
      (''e2_sync_timeline_limit'', JNum (of_int E2_SYNC_TIMELINE_LIMIT)),
      (''e3_latency_max_in_flight'', JNum (of_nat E3_LATENCY_MAX_IN_FLIGHT)),
      (''e3_latency_warmup_interactions'', JNum (of_nat E3_LATENCY_WARMUP_INTERACTIONS)),
      (''e3_latency_measured_interactions'', JNum (of_nat E3_LATENCY_MEASURED_INTERACTIONS)),
      (''e3_concurrency_levels'', JList (map (\<lambda>n. JNum (of_nat n)) E3_CONCURRENCY_LEVELS)),
      (''e3_warmup_seconds'', JNum E3_WARMUP_SECONDS),
      (''e3_measurement_seconds'', JNum E3_MEASUREMENT_SECONDS),
      (''e3_drain_seconds'', JNum E3_DRAIN_SECONDS),
      (''e3_paired_blocks'', JNum (of_nat E3_PAIRED_BLOCKS)),
      (''e3_inter_run_idle_seconds'', JNum E3_INTER_RUN_IDLE_SECONDS),
      (''e3_agent_settle_seconds'', JNum E3_AGENT_SETTLE_SECONDS),
      (''e3_sync_timeline_limit'', JNum (of_int E3_SYNC_TIMELINE_LIMIT)),
      (''e3_sync_timeout_ms'', JNum (of_int E3_SYNC_TIMEOUT_MS)),
      (''e3_schedule_seed'', JNum (of_int E3_SCHEDULE_SEED)),
      (''e3_bootstrap_seed'', JNum (of_int E3_BOOTSTRAP_SEED)),
      (''e3_bootstrap_replicates'', JNum (of_nat E3_BOOTSTRAP_REPLICATES)),
      (''e3_bootstrap_confidence'', JNum E3_BOOTSTRAP_CONFIDENCE)]"

datatype lock_problem =
    NotInLock string json
  | NotInCode string json
  | Differs string json json
  | Overrides "string list"
  | HostUnset string
  | WrongHost string string
  | WorktreeUnknown
  | WorktreeDirty

datatype lock_error =
    NotALock
  | NoLock
  | Mismatch "lock_problem list"
  | NoConfigHash
  | WrongConfigHash string string

definition obj_items :: "json option \<Rightarrow> (string \<times> json) list" where
  "obj_items v = (case v of Some (JObj e) \<Rightarrow> e | _ \<Rightarrow> [])"

definition load_lock :: "json option \<Rightarrow> lock_error + json option" where
  "load_lock lockfile = (case lockfile of
     None \<Rightarrow> Inr None
   | Some d \<Rightarrow> if obj_get d ''artifact'' = Some (JStr LOCK_ARTIFACT) then Inr (Some d) else Inl NotALock)"

definition compare_key :: "(string, json) dict \<Rightarrow> string \<Rightarrow> lock_problem option" where
  "compare_key locked k = (case (map_of locked k, map_of frozen_parameters k) of
     (None, Some v) \<Rightarrow> Some (NotInLock k v)
   | (Some u, None) \<Rightarrow> Some (NotInCode k u)
   | (Some u, Some v) \<Rightarrow> if py_eq u v then None else Some (Differs k u v)
   | (None, None) \<Rightarrow> None)"

definition compare_lock :: "json \<Rightarrow> lock_problem list" where
  "compare_lock d =
     (let locked = obj_items (obj_get d ''frozen_parameters'')
      in List.map_filter (compare_key locked)
           (sort (remdups (map fst locked @ map fst frozen_parameters))))"

definition watched_variables :: "string list" where
  "watched_variables = [''FAM_E2_TIMELINE_LIMIT'', ''FAM_E3_TIMELINE_LIMIT'', ''FAM_E3_SYNC_TIMEOUT_MS'',
     ''FAM_E3_BLOCKS'', ''FAM_E3_WORKLOADS'', ''FAM_E3_BOOTSTRAP_REPLICATES'', ''FAM_E3_CONCURRENCY'',
     ''FAM_E3_SCHEDULE_SEED'', ''FAM_E3_BOOTSTRAP_SEED'', ''FAM_LLM_MAX_TOKENS'', ''FAM_LLM_SYSTEM_PROMPT'']"

definition env_value :: "(string \<Rightarrow> string option) \<Rightarrow> string \<Rightarrow> string" where
  "env_value env k = strip (case env k of None \<Rightarrow> [] | Some v \<Rightarrow> v)"

definition runtime_overrides :: "(string \<Rightarrow> string option) \<Rightarrow> string list" where
  "runtime_overrides env = filter (\<lambda>k. env_value env k \<noteq> []) watched_variables"

text \<open>A locked host or hash that is a string, if it is there and not empty.\<close>

definition truthy_string :: "json option \<Rightarrow> string option" where
  "truthy_string v = (case v of Some (JStr s) \<Rightarrow> if s = [] then None else Some s | _ \<Rightarrow> None)"

definition sub_get :: "json \<Rightarrow> string \<Rightarrow> string \<Rightarrow> json option" where
  "sub_get d a b = (case obj_get d a of None \<Rightarrow> None | Some e \<Rightarrow> obj_get e b)"

definition host_problems :: "(string \<Rightarrow> string option) \<Rightarrow> json \<Rightarrow> lock_problem list" where
  "host_problems env d = (case truthy_string (sub_get d ''environment'' ''formal_run_host_identifier'') of
     None \<Rightarrow> []
   | Some host \<Rightarrow>
       (let running = env_value env ''FAM_EXECUTION_HOST'' in
        if running = [] then [HostUnset host]
        else if running \<noteq> host then [WrongHost running host] else []))"

definition worktree_problems :: "(string \<Rightarrow> string option) \<Rightarrow> lock_problem list" where
  "worktree_problems env = (case env ''FAM_WORKTREE_STATUS'' of
     None \<Rightarrow> [WorktreeUnknown]
   | Some s \<Rightarrow> if strip s \<noteq> [] then [WorktreeDirty] else [])"

definition enforce :: "(string \<Rightarrow> string option) \<Rightarrow> json option \<Rightarrow> bool \<Rightarrow> lock_error + json option" where
  "enforce env lockfile publication =
     rbind (load_lock lockfile) (\<lambda>doc.
       if \<not> publication then Inr doc
       else case doc of
         None \<Rightarrow> Inl NoLock
       | Some d \<Rightarrow>
           (let overrides = runtime_overrides env;
                problems = compare_lock d @ (if overrides = [] then [] else [Overrides overrides]) @
                  host_problems env d @ worktree_problems env
            in if problems = [] then Inr (Some d) else Inl (Mismatch problems)))"

definition enforce_llm_configuration :: "json option \<Rightarrow> string \<Rightarrow> bool \<Rightarrow> lock_error + unit" where
  "enforce_llm_configuration doc hash publication =
     (if \<not> publication then Inr ()
      else case doc of
        None \<Rightarrow> Inl NoLock
      | Some d \<Rightarrow> (case truthy_string (sub_get d ''e4'' ''agent_config_hash'') of
          None \<Rightarrow> Inl NoConfigHash
        | Some locked \<Rightarrow> if locked \<noteq> hash then Inl (WrongConfigHash hash locked) else Inr ()))"

section \<open>Lemmas\<close>

lemma map_filter_none: "List.map_filter f xs = [] \<longleftrightarrow> (\<forall>x \<in> set xs. f x = None)"
  by (induction xs) (auto simp: List.map_filter_simps split: option.splits)

lemma frozen_parameters_ok: "dict_ok frozen_parameters"
  by (simp add: dict_ok_def frozen_parameters_def)

text \<open>A lock whose parameters are those of the code, value by value.\<close>

definition same_parameters :: "(string, json) dict \<Rightarrow> bool" where
  "same_parameters locked \<longleftrightarrow> (\<forall>k. rel_option py_eq (map_of locked k) (map_of frozen_parameters k))"

lemma compare_key_none: "compare_key locked k = None \<longleftrightarrow>
    rel_option py_eq (map_of locked k) (map_of frozen_parameters k)"
  by (auto simp: compare_key_def split: option.splits)

lemma compare_lock_none:
  "compare_lock d = [] \<longleftrightarrow> same_parameters (obj_items (obj_get d ''frozen_parameters''))"
proof -
  let ?l = "obj_items (obj_get d ''frozen_parameters'')"
  have "compare_lock d = [] \<longleftrightarrow> (\<forall>k \<in> fst ` set ?l \<union> fst ` set frozen_parameters. compare_key ?l k = None)"
    unfolding compare_lock_def Let_def map_filter_none set_sort set_remdups set_append set_map ..
  moreover have "compare_key ?l k = None" if "k \<notin> fst ` set ?l \<union> fst ` set frozen_parameters" for k
  proof -
    from that have "map_of ?l k = None" "map_of frozen_parameters k = None" by (auto simp only: map_of_eq_None_iff)
    then show ?thesis by (simp add: compare_key_def)
  qed
  ultimately have "compare_lock d = [] \<longleftrightarrow> (\<forall>k. compare_key ?l k = None)" by metis
  then show ?thesis by (simp only: same_parameters_def compare_key_none)
qed

lemma py_eq_refl_flat: "py_eq (JStr s) (JStr s)" "py_eq (JNum n) (JNum n)" "py_eq (JBool b) (JBool b)"
  by simp_all

lemma frozen_parameters_self: "(k, v) \<in> set frozen_parameters \<Longrightarrow> py_eq v v"
  by (auto simp: frozen_parameters_def list_all2_same)

section \<open>Properties\<close>


definition example_lock :: json where
  "example_lock = JObj [(''artifact'', JStr LOCK_ARTIFACT), (''frozen_parameters'', JObj frozen_parameters)]"


text \<open>
  Equality is Python's: a lock that pins the encryption flag as the number zero agrees
  with the code's \<open>False\<close>, so the comparison does not tell the two apart.
\<close>

theorem lock_confuses_false_with_zero:
  "compare_key [(''room_encryption_enabled'', JNum 0)] ''room_encryption_enabled'' = None"
proof -
  have "map_of frozen_parameters ''room_encryption_enabled'' = Some (JBool False)"
    by (simp add: frozen_parameters_def ROOM_ENCRYPTION_ENABLED_def)
  moreover have "py_eq (JNum 0) (JBool False)" by code_simp
  ultimately show ?thesis by (simp add: compare_key_def del: py_eq.simps)
qed

end
