(* ===== verification/Schedule.thy ===== *)
theory Schedule
  imports Frozen Py_Text Once "HOL-Library.Multiset"
begin

text \<open>
  \<^verbatim>\<open>src/fam/benchmark/schedule.py\<close>: the paired-block schedule, the identity of a campaign
  and its resume ledger. The shuffle of the seeded generator is an argument that permutes
  its list, the digest of the parameters one from parameters to text; files are functions
  from paths.
\<close>

definition RUNTIME_CODE_REVISION :: string where "RUNTIME_CODE_REVISION = ''task-07-r4''"

record scheduled_run =
  sr_workload :: string
  sr_block_id :: string
  sr_block_index :: nat
  sr_within_block_order :: nat
  sr_topology :: string
  sr_concurrency :: nat

text \<open>\<open>{n:02d}\<close>.\<close>

definition two_digits :: "nat \<Rightarrow> string" where
  "two_digits n = zfill 2 (dec n)"

definition run_key :: "scheduled_run \<Rightarrow> string" where
  "run_key r = sr_workload r @ ''-c'' @ two_digits (sr_concurrency r) @ ''-'' @ sr_block_id r @ ''-'' @ sr_topology r"

definition make_block_id :: "string \<Rightarrow> nat \<Rightarrow> nat \<Rightarrow> string" where
  "make_block_id w c i =
     (if w = E3_WORKLOAD_LATENCY then ''lat-block'' @ two_digits i
      else ''thr-c'' @ two_digits c @ ''-block'' @ two_digits i)"

definition counterbalanced_orders :: "(bool list \<Rightarrow> bool list) \<Rightarrow> nat \<Rightarrow> bool list" where
  "counterbalanced_orders shuffle blocks =
     (let half = blocks div 2 in shuffle (replicate half True @ replicate (blocks - half) False))"

definition block_order :: "bool \<Rightarrow> string list" where
  "block_order local_first =
     (if local_first then [E3_TOPOLOGY_LOCAL, E3_TOPOLOGY_FEDERATED] else [E3_TOPOLOGY_FEDERATED, E3_TOPOLOGY_LOCAL])"

definition block_runs :: "string \<Rightarrow> nat \<Rightarrow> nat \<times> bool \<Rightarrow> scheduled_run list" where
  "block_runs w c = (\<lambda>(i, local_first). map (\<lambda>(pos, name).
     \<lparr>sr_workload = w, sr_block_id = make_block_id w c i, sr_block_index = i, sr_within_block_order = pos,
      sr_topology = name, sr_concurrency = c\<rparr>) (enumerate 1 (block_order local_first)))"

text \<open>The generator is seeded by the text \<open>{seed}:{workload}:{concurrency}\<close>.\<close>

definition generate_workload_schedule ::
  "(string \<Rightarrow> bool list \<Rightarrow> bool list) \<Rightarrow> string \<Rightarrow> nat \<Rightarrow> nat \<Rightarrow> nat \<Rightarrow> scheduled_run list" where
  "generate_workload_schedule shuffle w c seed blocks =
     concat (map (block_runs w c) (enumerate 1
       (counterbalanced_orders (shuffle (dec seed @ '':'' @ w @ '':'' @ dec c)) blocks)))"

definition generate_campaign_schedule ::
  "(string \<Rightarrow> bool list \<Rightarrow> bool list) \<Rightarrow> nat \<Rightarrow> nat \<Rightarrow> nat list \<Rightarrow> string list \<Rightarrow> scheduled_run list" where
  "generate_campaign_schedule shuffle seed blocks levels workloads =
     (if E3_WORKLOAD_LATENCY \<in> set workloads
      then generate_workload_schedule shuffle E3_WORKLOAD_LATENCY E3_LATENCY_MAX_IN_FLIGHT seed blocks else []) @
     (if E3_WORKLOAD_THROUGHPUT \<in> set workloads
      then concat (map (\<lambda>c. generate_workload_schedule shuffle E3_WORKLOAD_THROUGHPUT c seed blocks) levels) else [])"

section \<open>Identity of a campaign\<close>

record campaign_parameters =
  cp_protocol_version :: string
  cp_code_revision :: string
  cp_git_commit :: string
  cp_schedule_seed :: nat
  cp_paired_blocks :: nat
  cp_concurrency_levels :: "nat list"
  cp_max_in_flight :: nat
  cp_latency_warmup :: nat
  cp_latency_measured :: nat
  cp_warmup_seconds :: rat
  cp_measurement_seconds :: rat
  cp_drain_seconds :: rat
  cp_idle_seconds :: rat
  cp_body_bytes :: int
  cp_timeline_limit :: "int option"
  cp_timeout_ms :: int
  cp_config_hashes :: "(string, string) dict"
  cp_rate_limits :: "(string, string) dict"

definition make_campaign_parameters ::
  "nat \<Rightarrow> int option \<Rightarrow> int \<Rightarrow> nat \<Rightarrow> nat list \<Rightarrow> string \<Rightarrow> (string, string) dict \<Rightarrow> (string, string) dict \<Rightarrow>
   campaign_parameters" where
  "make_campaign_parameters seed limit timeout blocks levels commit hashes rates =
     \<lparr>cp_protocol_version = EXECUTION_PROTOCOL_VERSION, cp_code_revision = RUNTIME_CODE_REVISION,
      cp_git_commit = commit, cp_schedule_seed = seed, cp_paired_blocks = blocks, cp_concurrency_levels = levels,
      cp_max_in_flight = E3_LATENCY_MAX_IN_FLIGHT, cp_latency_warmup = E3_LATENCY_WARMUP_INTERACTIONS,
      cp_latency_measured = E3_LATENCY_MEASURED_INTERACTIONS, cp_warmup_seconds = E3_WARMUP_SECONDS,
      cp_measurement_seconds = E3_MEASUREMENT_SECONDS, cp_drain_seconds = E3_DRAIN_SECONDS,
      cp_idle_seconds = E3_INTER_RUN_IDLE_SECONDS, cp_body_bytes = E3_BODY_BYTES, cp_timeline_limit = limit,
      cp_timeout_ms = timeout, cp_config_hashes = sort_key fst hashes, cp_rate_limits = rates\<rparr>"

definition make_campaign_id :: "(campaign_parameters \<Rightarrow> string) \<Rightarrow> campaign_parameters \<Rightarrow> bool \<Rightarrow> string" where
  "make_campaign_id fingerprint ps publication =
     (if publication then ''fam-formal'' else ''e3dev'') @ ''-'' @ take 16 (fingerprint ps)"

section \<open>Resume ledger\<close>

record ledger_entry =
  le_run_id :: string
  le_status :: string
  le_manifest :: string
  le_digests :: "(string, string) dict"
  le_completed_at :: string

record campaign_state =
  cs_campaign_id :: string
  cs_parameters :: campaign_parameters
  cs_fingerprint :: string
  cs_created_at :: string
  cs_completed :: "(string, ledger_entry) dict"

text \<open>
  The ledger files by path; a state is written as it is, so \<open>flush\<close> stores it under the
  path of its campaign.
\<close>

type_synonym ledger_files = "(string, campaign_state) dict"

definition flush :: "string \<Rightarrow> campaign_state \<Rightarrow> ledger_files \<Rightarrow> ledger_files" where
  "flush path st fs = AList.update path st fs"

datatype ledger_error = FingerprintMismatch string string

definition open_campaign ::
  "(campaign_parameters \<Rightarrow> string) \<Rightarrow> string \<Rightarrow> campaign_parameters \<Rightarrow> bool \<Rightarrow> ledger_files \<Rightarrow>
   ledger_error + campaign_state \<times> ledger_files" where
  "open_campaign fingerprint now ps publication fs =
     (let digest = fingerprint ps; ident = make_campaign_id fingerprint ps publication in
      case map_of fs ident of
        Some st \<Rightarrow> if cs_fingerprint st \<noteq> digest then Inl (FingerprintMismatch (cs_fingerprint st) digest)
          else Inr (st, fs)
      | None \<Rightarrow>
          (let st = \<lparr>cs_campaign_id = ident, cs_parameters = ps, cs_fingerprint = digest,
             cs_created_at = now, cs_completed = []\<rparr>
           in Inr (st, flush ident st fs)))"

definition resumed :: "campaign_state \<Rightarrow> bool" where
  "resumed st \<longleftrightarrow> cs_completed st \<noteq> []"

definition is_done :: "campaign_state \<Rightarrow> scheduled_run \<Rightarrow> bool" where
  "is_done st r \<longleftrightarrow> map_of (cs_completed st) (run_key r) \<noteq> None"

definition record_run ::
  "string \<Rightarrow> (scheduled_run \<Rightarrow> ledger_entry) \<Rightarrow> scheduled_run \<Rightarrow> campaign_state \<times> ledger_files \<Rightarrow>
   campaign_state \<times> ledger_files" where
  "record_run path entry r = (\<lambda>(st, fs).
     (let st' = st\<lparr>cs_completed := AList.update (run_key r) (entry r) (cs_completed st)\<rparr>
      in (st', flush path st' fs)))"

definition pending :: "scheduled_run list \<Rightarrow> campaign_state \<Rightarrow> scheduled_run list" where
  "pending runs st = filter (\<lambda>r. \<not> is_done st r) runs"

datatype evidence_problem =
    ManifestMissing string string
  | ArtifactMissing string string
  | ArtifactChanged string string

text \<open>A manifest file names its artifacts with their digests; \<open>sha\<close> reads the digest of a file.\<close>

definition entry_problems ::
  "(string \<Rightarrow> (string \<times> string) list option) \<Rightarrow> (string \<Rightarrow> string option) \<Rightarrow> string \<times> ledger_entry \<Rightarrow>
   evidence_problem list" where
  "entry_problems manifest sha = (\<lambda>(k, e). case manifest (le_manifest e) of
     None \<Rightarrow> [ManifestMissing k (le_manifest e)]
   | Some arts \<Rightarrow> List.map_filter (\<lambda>(path, digest). case sha path of
        None \<Rightarrow> Some (ArtifactMissing k path)
      | Some d \<Rightarrow> if d \<noteq> digest then Some (ArtifactChanged k path) else None) arts)"

definition verify_completed ::
  "(string \<Rightarrow> (string \<times> string) list option) \<Rightarrow> (string \<Rightarrow> string option) \<Rightarrow> campaign_state \<Rightarrow>
   evidence_problem list" where
  "verify_completed manifest sha st =
     concat (map (entry_problems manifest sha) (sort_key fst (cs_completed st)))"

text \<open>What \<open>write_schedule\<close> writes.\<close>

definition schedule_document :: "campaign_state \<Rightarrow> scheduled_run list \<Rightarrow>
   string \<times> string \<times> nat \<times> string \<times> scheduled_run list" where
  "schedule_document st runs = (cs_campaign_id st, cs_fingerprint st, cp_schedule_seed (cs_parameters st),
     EXECUTION_PROTOCOL_VERSION, runs)"

section \<open>Lemmas on the schedule\<close>

lemma two_digits_digits: "list_all is_digit (two_digits n)" and two_digits_inject: "two_digits m = two_digits n \<longleftrightarrow> m = n"
  by (simp_all add: two_digits_def zfill_digits zfill_dec_inject)

lemma digits_split:
  assumes "list_all is_digit a" and "list_all is_digit b" and "\<not> is_digit x" and "\<not> is_digit y"
    and "a @ x # s = b @ y # t"
  shows "a = b \<and> s = t"
proof -
  have "takeWhile is_digit (a @ x # s) = a" "takeWhile is_digit (b @ y # t) = b"
    by (rule takeWhile_append_stop; use assms in simp)+
  with assms(5) show ?thesis by simp
qed

lemma dash_no_digit [simp]: "\<not> is_digit (CHR ''-'')"
  by (simp add: is_digit_def)

definition run_coordinates :: "scheduled_run \<Rightarrow> nat \<times> string" where
  "run_coordinates r = (sr_block_index r, sr_topology r)"

lemma block_runs_eq: "block_runs w c (i, b) =
    [\<lparr>sr_workload = w, sr_block_id = make_block_id w c i, sr_block_index = i, sr_within_block_order = 1,
      sr_topology = hd (block_order b), sr_concurrency = c\<rparr>,
     \<lparr>sr_workload = w, sr_block_id = make_block_id w c i, sr_block_index = i, sr_within_block_order = 2,
      sr_topology = last (block_order b), sr_concurrency = c\<rparr>]"
  by (simp add: block_runs_def block_order_def)

lemma block_order_facts: "hd (block_order b) \<noteq> last (block_order b)"
    "{hd (block_order b), last (block_order b)} = {E3_TOPOLOGY_LOCAL, E3_TOPOLOGY_FEDERATED}"
  using topology_names_differ topology_names_differ [symmetric] by (auto simp: block_order_def)

definition runs_from :: "string \<Rightarrow> nat \<Rightarrow> nat \<Rightarrow> bool list \<Rightarrow> scheduled_run list" where
  "runs_from w c n os = concat (map (block_runs w c) (enumerate n os))"

lemma runs_from_simps [simp]:
  "runs_from w c n [] = []"
  "runs_from w c n (b # os) = block_runs w c (n, b) @ runs_from w c (Suc n) os"
  by (simp_all add: runs_from_def)

lemma runs_from_member:
  "r \<in> set (runs_from w c n os) \<Longrightarrow> n \<le> sr_block_index r \<and> sr_workload r = w \<and> sr_concurrency r = c \<and>
    sr_block_id r = make_block_id w c (sr_block_index r) \<and> sr_topology r \<in> {E3_TOPOLOGY_LOCAL, E3_TOPOLOGY_FEDERATED}"
proof (induction os arbitrary: n)
  case (Cons b os)
  show ?case
  proof (cases "r \<in> set (runs_from w c (Suc n) os)")
    case True
    with Cons.IH [OF True] show ?thesis by simp
  next
    case False
    with Cons.prems have "r \<in> set (block_runs w c (n, b))" by simp
    then show ?thesis by (auto simp: block_runs_eq block_order_def)
  qed
qed simp

lemma runs_from_coordinates: "distinct (map run_coordinates (runs_from w c n os))"
proof (induction os arbitrary: n)
  case (Cons b os)
  have "run_coordinates r \<noteq> (n, t)" if "r \<in> set (runs_from w c (Suc n) os)" for r t
    using runs_from_member [OF that] by (auto simp: run_coordinates_def)
  then have "(n, t) \<notin> run_coordinates ` set (runs_from w c (Suc n) os)" for t by (metis imageE)
  with Cons.IH [of "Suc n"] block_order_facts(1) [of b] show ?case
    by (simp add: block_runs_eq run_coordinates_def)
qed simp

lemma length_runs_from [simp]: "length (runs_from w c n os) = 2 * length os"
  by (induction os arbitrary: n) (simp_all add: block_runs_eq)

lemma first_runs: "length (filter (\<lambda>r. sr_within_block_order r = 1 \<and> sr_topology r = E3_TOPOLOGY_LOCAL) (runs_from w c n os)) =
    count_list os True"
  using topology_names_differ [symmetric]
  by (induction os arbitrary: n) (auto simp: block_runs_eq block_order_def)

lemma block_at:
  "i < length os \<Longrightarrow> runs_from w c n os ! (2 * i) = block_runs w c (n + i, os ! i) ! 0 \<and>
     runs_from w c n os ! (2 * i + 1) = block_runs w c (n + i, os ! i) ! 1"
proof (induction os arbitrary: n i)
  case (Cons b os)
  show ?case
  proof (cases i)
    case 0
    then show ?thesis by (simp add: block_runs_eq)
  next
    case (Suc j)
    with Cons.IH [of j "Suc n"] Cons.prems show ?thesis by (simp add: block_runs_eq)
  qed
qed simp

text \<open>The key spells the block index and the topology after a common prefix.\<close>

definition key_prefix :: "string \<Rightarrow> nat \<Rightarrow> string" where
  "key_prefix w c = w @ ''-c'' @ two_digits c @ ''-'' @
     (if w = E3_WORKLOAD_LATENCY then ''lat-block'' else ''thr-c'' @ two_digits c @ ''-block'')"

lemma run_key_eq:
  "r \<in> set (runs_from w c n os) \<Longrightarrow>
    run_key r = key_prefix w c @ two_digits (sr_block_index r) @ CHR ''-'' # sr_topology r"
  using runs_from_member [of r w c n os] by (simp add: run_key_def key_prefix_def make_block_id_def)

lemma run_keys_distinct: "distinct (map run_key (runs_from w c n os))"
proof -
  let ?rs = "runs_from w c n os"
  have coords: "distinct ?rs" "inj_on run_coordinates (set ?rs)"
    using runs_from_coordinates [of w c n os] by (simp_all add: distinct_map)
  have "inj_on run_key (set ?rs)"
  proof (rule inj_onI)
    fix r s
    assume r: "r \<in> set ?rs" and s: "s \<in> set ?rs" and eq: "run_key r = run_key s"
    from eq have "two_digits (sr_block_index r) @ CHR ''-'' # sr_topology r =
        two_digits (sr_block_index s) @ CHR ''-'' # sr_topology s"
      by (simp add: run_key_eq [OF r] run_key_eq [OF s])
    from digits_split [OF two_digits_digits two_digits_digits _ _ this]
    have "run_coordinates r = run_coordinates s" by (simp add: two_digits_inject run_coordinates_def)
    from inj_onD [OF coords(2) this r s] show "r = s" .
  qed
  with coords(1) show ?thesis by (simp add: distinct_map)
qed

text \<open>Keys of different concurrency levels differ as well.\<close>

lemma run_key_concurrency:
  assumes "r \<in> set (runs_from w c n os)" and "s \<in> set (runs_from w d m os')" and "run_key r = run_key s"
  shows "c = d"
proof -
  from runs_from_member [OF assms(1)] runs_from_member [OF assms(2)] assms(3)
  have "two_digits c @ CHR ''-'' # (sr_block_id r @ ''-'' @ sr_topology r) =
      two_digits d @ CHR ''-'' # (sr_block_id s @ ''-'' @ sr_topology s)"
    by (simp add: run_key_def)
  from digits_split [OF two_digits_digits two_digits_digits _ _ this] show ?thesis
    by (simp add: two_digits_inject)
qed

lemma levels_keys_distinct:
  "distinct levels \<Longrightarrow> distinct (map run_key (concat (map (\<lambda>c. runs_from w c 1 (os c)) levels)))"
proof (induction levels)
  case (Cons c levels)
  have "run_key r \<noteq> run_key s" if "r \<in> set (runs_from w c 1 (os c))" "d \<in> set levels" "s \<in> set (runs_from w d 1 (os d))" for r d s
    using run_key_concurrency [OF that(1) that(3)] that(2) Cons.prems by auto
  with Cons run_keys_distinct [of w c 1 "os c"] show ?case by auto
qed simp

lemma workload_schedule_eq: "generate_workload_schedule shuffle w c seed blocks =
    runs_from w c 1 (counterbalanced_orders (shuffle (dec seed @ '':'' @ w @ '':'' @ dec c)) blocks)"
  by (simp add: generate_workload_schedule_def runs_from_def)

lemma orders_facts:
  assumes "\<And>xs. mset (shuffle xs) = mset xs"
  shows "length (counterbalanced_orders shuffle blocks) = blocks"
    and "count_list (counterbalanced_orders shuffle blocks) True = blocks div 2"
proof -
  have m: "mset (counterbalanced_orders shuffle blocks) =
      mset (replicate (blocks div 2) True @ replicate (blocks - blocks div 2) False)"
    by (simp add: counterbalanced_orders_def Let_def assms)
  from arg_cong [OF m, of size] show "length (counterbalanced_orders shuffle blocks) = blocks" by simp
  have "count_list xs True = count (mset xs) True" for xs :: "bool list" by (induction xs) auto
  with m show "count_list (counterbalanced_orders shuffle blocks) True = blocks div 2" by simp
qed

section \<open>Lemmas on the ledger\<close>

definition record_all ::
  "string \<Rightarrow> (scheduled_run \<Rightarrow> ledger_entry) \<Rightarrow> scheduled_run list \<Rightarrow> campaign_state \<times> ledger_files \<Rightarrow>
   campaign_state \<times> ledger_files" where
  "record_all path entry rs s = fold (record_run path entry) rs s"

text \<open>A recorded key is one not fresh any more.\<close>

interpretation ledger: named_guard "\<lambda>st r. \<not> is_done st r"
  "\<lambda>st r. fst (record_run path entry r (st, fs))" run_key for path entry fs
  by unfold_locales (auto simp: is_done_def record_run_def Let_def)

lemma record_run_eq: "record_run path entry r (st, fs) =
    (st\<lparr>cs_completed := AList.update (run_key r) (entry r) (cs_completed st)\<rparr>,
     AList.update path (st\<lparr>cs_completed := AList.update (run_key r) (entry r) (cs_completed st)\<rparr>) fs)"
  by (simp add: record_run_def flush_def Let_def)

lemma record_all_simps [simp]:
  "record_all path entry [] s = s"
  "record_all path entry (r # rs) s = record_all path entry rs (record_run path entry r s)"
  by (simp_all add: record_all_def)

lemma record_all_done:
  "is_done (fst (record_all path entry rs (st, fs))) r \<longleftrightarrow> is_done st r \<or> run_key r \<in> run_key ` set rs"
proof (induction rs arbitrary: st fs)
  case (Cons x rs)
  then show ?case by (auto simp: record_run_eq is_done_def)
qed simp

lemma record_all_file:
  "rs \<noteq> [] \<Longrightarrow> map_of (snd (record_all path entry rs (st, fs))) path = Some (fst (record_all path entry rs (st, fs)))"
proof (induction rs arbitrary: st fs)
  case (Cons x rs)
  show ?case
  proof (cases "rs = []")
    case True
    then show ?thesis by (simp add: record_run_eq)
  next
    case False
    obtain st' fs' where "record_run path entry x (st, fs) = (st', fs')" by fastforce
    with Cons.IH [OF False, of st' fs'] show ?thesis by simp
  qed
qed simp

lemma record_all_identity:
  "cs_campaign_id (fst (record_all path entry rs (st, fs))) = cs_campaign_id st \<and>
   cs_fingerprint (fst (record_all path entry rs (st, fs))) = cs_fingerprint st"
  by (induction rs arbitrary: st fs) (simp_all add: record_run_eq)

lemma filter_key_take:
  assumes "distinct (map f xs)"
  shows "filter (\<lambda>x. f x \<notin> f ` set (take n xs)) xs = drop n xs"
proof -
  have split: "filter (\<lambda>x. f x \<notin> f ` set ys) (ys @ zs) = zs" if "distinct (map f (ys @ zs))" for ys zs
    using that by (auto simp: filter_empty_conv filter_id_conv)
  show ?thesis using split [of "take n xs" "drop n xs"] assms by simp
qed

lemma pending_after:
  assumes "distinct (map run_key runs)"
  shows "pending runs (fst (record_all path entry (take n (pending runs st)) (st, fs))) = drop n (pending runs st)"
proof -
  have "pending runs (fst (record_all path entry (take n (pending runs st)) (st, fs))) =
      filter (\<lambda>r. run_key r \<notin> run_key ` set (take n (pending runs st))) (pending runs st)"
    unfolding pending_def record_all_done by (simp add: filter_filter conj_commute cong: conj_cong)
  also have "\<dots> = drop n (pending runs st)"
    by (rule filter_key_take) (simp add: pending_def distinct_map_filter assms)
  finally show ?thesis .
qed

text \<open>
  A campaign in sessions: each opens the ledger, executes and records the first \<open>n\<close> pending
  runs, and stops.
\<close>

fun campaign_sessions ::
  "(campaign_parameters \<Rightarrow> string) \<Rightarrow> string \<Rightarrow> campaign_parameters \<Rightarrow> bool \<Rightarrow> (scheduled_run \<Rightarrow> ledger_entry) \<Rightarrow>
   scheduled_run list \<Rightarrow> nat list \<Rightarrow> ledger_files \<Rightarrow> ledger_error + scheduled_run list \<times> ledger_files" where
  "campaign_sessions fp now ps pub entry runs [] fs = Inr ([], fs)"
| "campaign_sessions fp now ps pub entry runs (n # ns) fs =
     rbind (open_campaign fp now ps pub fs) (\<lambda>(st, fs1).
       let now_run = take n (pending runs st);
           (st2, fs2) = record_all (make_campaign_id fp ps pub) entry now_run (st, fs1)
       in rbind (campaign_sessions fp now ps pub entry runs ns fs2) (\<lambda>(rest, fs3). Inr (now_run @ rest, fs3)))"

text \<open>The ledger of the campaign, as the next session will open it.\<close>

definition ledger_of ::
  "(campaign_parameters \<Rightarrow> string) \<Rightarrow> string \<Rightarrow> campaign_parameters \<Rightarrow> bool \<Rightarrow> ledger_files \<Rightarrow> campaign_state" where
  "ledger_of fp now ps pub fs = (case map_of fs (make_campaign_id fp ps pub) of
     Some st \<Rightarrow> st
   | None \<Rightarrow> \<lparr>cs_campaign_id = make_campaign_id fp ps pub, cs_parameters = ps, cs_fingerprint = fp ps,
       cs_created_at = now, cs_completed = []\<rparr>)"

lemma open_campaign_ledger:
  "cs_fingerprint (ledger_of fp now ps pub fs) = fp ps \<Longrightarrow>
    \<exists>fs1. open_campaign fp now ps pub fs = Inr (ledger_of fp now ps pub fs, fs1) \<and>
      map_of fs1 (make_campaign_id fp ps pub) = Some (ledger_of fp now ps pub fs)"
  by (auto simp: open_campaign_def ledger_of_def Let_def flush_def split: option.splits)

lemma campaign_sessions_split:
  assumes "distinct (map run_key runs)" and "cs_fingerprint (ledger_of fp now ps pub fs) = fp ps"
  shows "\<exists>done fs'. campaign_sessions fp now ps pub entry runs ns fs = Inr (done, fs') \<and>
    pending runs (ledger_of fp now ps pub fs) = done @ pending runs (ledger_of fp now ps pub fs') \<and>
    length done = min (sum_list ns) (length (pending runs (ledger_of fp now ps pub fs)))"
  using assms(2)
proof (induction ns arbitrary: fs)
  case (Cons n ns)
  let ?id = "make_campaign_id fp ps pub" and ?st = "ledger_of fp now ps pub fs"
  let ?now = "take n (pending runs ?st)"
  from open_campaign_ledger [OF Cons.prems] obtain fs1
    where op: "open_campaign fp now ps pub fs = Inr (?st, fs1)" and f1: "map_of fs1 ?id = Some ?st" by blast
  obtain st2 fs2 where rec: "record_all ?id entry ?now (?st, fs1) = (st2, fs2)" by fastforce
  have "map_of fs2 ?id = Some st2"
  proof (cases "?now = []")
    case True
    with rec f1 show ?thesis by simp
  next
    case False
    from record_all_file [OF False, of ?id entry ?st fs1] rec show ?thesis by simp
  qed
  then have l2: "ledger_of fp now ps pub fs2 = st2" by (simp add: ledger_of_def)
  have fp2: "cs_fingerprint st2 = fp ps" using record_all_identity [of ?id entry ?now ?st fs1] rec Cons.prems by simp
  from Cons.IH [of fs2, unfolded l2, OF fp2] obtain rest fs3 where
    rest: "campaign_sessions fp now ps pub entry runs ns fs2 = Inr (rest, fs3)"
      "pending runs st2 = rest @ pending runs (ledger_of fp now ps pub fs3)"
      "length rest = min (sum_list ns) (length (pending runs st2))" by blast
  have p2: "pending runs st2 = drop n (pending runs ?st)"
    using pending_after [OF assms(1), of ?id entry n ?st fs1] rec by simp
  have "pending runs ?st = (?now @ rest) @ pending runs (ledger_of fp now ps pub fs3)"
    using rest(2) unfolding p2 by (metis append_assoc append_take_drop_id)
  moreover have "campaign_sessions fp now ps pub entry runs (n # ns) fs = Inr (?now @ rest, fs3)"
    by (simp add: op rec rest(1))
  moreover have "length (?now @ rest) = min (sum_list (n # ns)) (length (pending runs ?st))"
    unfolding length_append length_take rest(3) p2 length_drop sum_list.Cons by linarith
  ultimately show ?case by blast
qed simp

section \<open>Properties\<close>

text \<open>
  C20: If the shuffle permutes its list, the schedule of a workload has two runs per block,
  one after the other, that differ only in topology and position, covers both topologies in
  every block, starts exactly half of the blocks (rounded down) with the local one, and
  gives every run its own ledger key, across concurrency levels too.
\<close>

theorem schedule_exact:
  assumes "\<And>s xs. mset (shuffle s xs) = mset (xs :: bool list)"
    and "runs = generate_workload_schedule shuffle w c seed blocks"
  shows "length runs = 2 * blocks \<and> distinct (map run_key runs) \<and>
    length (filter (\<lambda>r. sr_within_block_order r = 1 \<and> sr_topology r = E3_TOPOLOGY_LOCAL) runs) = blocks div 2 \<and>
    (\<forall>i < blocks. let a = runs ! (2 * i); b = runs ! (2 * i + 1) in
       {sr_topology a, sr_topology b} = {E3_TOPOLOGY_LOCAL, E3_TOPOLOGY_FEDERATED} \<and>
       sr_block_index a = i + 1 \<and> sr_within_block_order a = 1 \<and>
       b = a\<lparr>sr_within_block_order := 2, sr_topology := sr_topology b\<rparr>) \<and>
    (\<forall>levels. distinct levels \<longrightarrow> distinct (map run_key
       (concat (map (\<lambda>c. generate_workload_schedule shuffle w c seed blocks) levels))))"
proof -
  define os where "os = counterbalanced_orders (shuffle (dec seed @ '':'' @ w @ '':'' @ dec c)) blocks"
  have os: "length os = blocks" "count_list os True = blocks div 2"
    using orders_facts [of "shuffle (dec seed @ '':'' @ w @ '':'' @ dec c)" blocks] assms(1) by (simp_all add: os_def)
  have runs: "runs = runs_from w c 1 os" by (simp add: assms(2) workload_schedule_eq os_def)
  have block: "let a = runs ! (2 * i); b = runs ! (2 * i + 1) in
       {sr_topology a, sr_topology b} = {E3_TOPOLOGY_LOCAL, E3_TOPOLOGY_FEDERATED} \<and>
       sr_block_index a = i + 1 \<and> sr_within_block_order a = 1 \<and>
       b = a\<lparr>sr_within_block_order := 2, sr_topology := sr_topology b\<rparr>" if "i < blocks" for i
  proof -
    from block_at [of i os w c 1] that os(1)
    have "runs ! (2 * i) = block_runs w c (1 + i, os ! i) ! 0" "runs ! (2 * i + 1) = block_runs w c (1 + i, os ! i) ! 1"
      by (simp_all add: runs)
    then show ?thesis using block_order_facts(2) [of "os ! i"] by (simp add: block_runs_eq Let_def)
  qed
  have "distinct (map run_key (concat (map (\<lambda>c. generate_workload_schedule shuffle w c seed blocks) levels)))"
    if "distinct levels" for levels
    unfolding workload_schedule_eq by (rule levels_keys_distinct [OF that])
  with block os first_runs [of w c 1 os] run_keys_distinct [of w c 1 os] show ?thesis by (simp add: runs)
qed

theorem schedule_exact_witness:
  "length (generate_workload_schedule (\<lambda>_ xs. xs) E3_WORKLOAD_THROUGHPUT 8 7 4) = 8 \<and>
   distinct (map run_key (generate_workload_schedule (\<lambda>_ xs. rev xs) E3_WORKLOAD_LATENCY 1 7 20))"
proof
  show "length (generate_workload_schedule (\<lambda>_ xs. xs) E3_WORKLOAD_THROUGHPUT 8 7 4) = 8"
    using schedule_exact [of "\<lambda>_ xs. xs", OF refl refl, of E3_WORKLOAD_THROUGHPUT 8 7 4] by simp
  show "distinct (map run_key (generate_workload_schedule (\<lambda>_ xs. rev xs) E3_WORKLOAD_LATENCY 1 7 20))"
    using schedule_exact [of "\<lambda>_ xs. rev xs", OF mset_rev refl, of E3_WORKLOAD_LATENCY 1 7 20] by blast
qed


definition example_parameters :: campaign_parameters where
  "example_parameters = make_campaign_parameters 7 None 30000 4 [8] ''c'' [] []"


end
