(* ===== verification/Validity.thy ===== *)
theory Validity
  imports Prelude Complex_Main
begin

text \<open>
  \<^verbatim>\<open>src/fam/common/validity.py\<close>: the frozen classes of invalid runs, the terminal outcomes
  of an interaction, the failure rate and the validity of a run. The float division of the
  rate is a rational.
\<close>

datatype invalid_run_class = PROTOCOL_LOCK_MISMATCH | EXECUTION_PRECONDITION_VIOLATION
  | FROZEN_CONFIGURATION_ERROR | INSTRUMENTATION_OR_OUTPUT_FAILURE | RUNNER_IMPLEMENTATION_FAILURE
  | INFRASTRUCTURE_FAILURE | ENVIRONMENT_CORRUPTION | EXTERNAL_INTERFERENCE
  | EXTERNAL_DEPENDENCY_OR_CLIENT_ENVIRONMENT_FAILURE

fun invalid_class_value :: "invalid_run_class \<Rightarrow> string" where
  "invalid_class_value PROTOCOL_LOCK_MISMATCH = ''protocol_lock_mismatch''"
| "invalid_class_value EXECUTION_PRECONDITION_VIOLATION = ''execution_precondition_violation''"
| "invalid_class_value FROZEN_CONFIGURATION_ERROR = ''frozen_configuration_error''"
| "invalid_class_value INSTRUMENTATION_OR_OUTPUT_FAILURE = ''instrumentation_or_output_failure''"
| "invalid_class_value RUNNER_IMPLEMENTATION_FAILURE = ''runner_implementation_failure''"
| "invalid_class_value INFRASTRUCTURE_FAILURE = ''infrastructure_failure''"
| "invalid_class_value ENVIRONMENT_CORRUPTION = ''environment_corruption''"
| "invalid_class_value EXTERNAL_INTERFERENCE = ''external_interference''"
| "invalid_class_value EXTERNAL_DEPENDENCY_OR_CLIENT_ENVIRONMENT_FAILURE =
     ''external_dependency_or_client_environment_failure''"

datatype interaction_outcome = SUCCESS | TIMEOUT | SEND_ERROR | MALFORMED_RESPONSE
  | UNEXPECTED_RESPONSE | RUNNER_ERROR | OFFLINE_SEND

fun outcome_value :: "interaction_outcome \<Rightarrow> string" where
  "outcome_value SUCCESS = ''success''"
| "outcome_value TIMEOUT = ''timeout''"
| "outcome_value SEND_ERROR = ''send_error''"
| "outcome_value MALFORMED_RESPONSE = ''malformed_response''"
| "outcome_value UNEXPECTED_RESPONSE = ''unexpected_response''"
| "outcome_value RUNNER_ERROR = ''runner_error''"
| "outcome_value OFFLINE_SEND = ''offline_send''"

lemma outcome_value_inject [simp]: "outcome_value a = outcome_value b \<longleftrightarrow> a = b"
  by (cases a; cases b) simp_all

lemma invalid_class_value_inject: "invalid_class_value a = invalid_class_value b \<longleftrightarrow> a = b"
  by (cases a; cases b) simp_all

text \<open>The enumeration is a \<open>str\<close>: outcomes are ordered as their values are.\<close>

instantiation interaction_outcome :: linorder
begin

definition less_eq_interaction_outcome :: "interaction_outcome \<Rightarrow> interaction_outcome \<Rightarrow> bool" where
  "less_eq_interaction_outcome a b \<longleftrightarrow> outcome_value a \<le> outcome_value b"

definition less_interaction_outcome :: "interaction_outcome \<Rightarrow> interaction_outcome \<Rightarrow> bool" where
  "less_interaction_outcome a b \<longleftrightarrow> outcome_value a < outcome_value b"

instance
  by standard (auto simp: less_eq_interaction_outcome_def less_interaction_outcome_def
    outcome_value_inject [symmetric] simp del: outcome_value_inject)

end

definition EXCLUDED_FROM_FAILURE_RATE :: "string set" where
  "EXCLUDED_FROM_FAILURE_RATE = {outcome_value OFFLINE_SEND}"

definition failure_rate :: "string list \<Rightarrow> rat option" where
  "failure_rate outcomes =
     (let counted = filter (\<lambda>o'. o' \<notin> EXCLUDED_FROM_FAILURE_RATE) outcomes in
      if counted = [] then None
      else let failures = length (filter (\<lambda>o'. o' \<noteq> outcome_value SUCCESS) counted)
           in Some (of_nat failures / of_nat (length counted)))"

text \<open>\<open>RunValidity.__post_init__\<close>: the two shapes it lets through.\<close>

record run_validity =
  valid :: bool
  invalid_class :: "invalid_run_class option"
  validity_note :: string

datatype validity_error = ValidCarriesClass | InvalidNamesNoClass

definition make_run_validity ::
  "bool \<Rightarrow> invalid_run_class option \<Rightarrow> string \<Rightarrow> validity_error + run_validity" where
  "make_run_validity ok cls n =
     (if ok \<and> cls \<noteq> None then Inl ValidCarriesClass
      else if \<not> ok \<and> cls = None then Inl InvalidNamesNoClass
      else Inr \<lparr>valid = ok, invalid_class = cls, validity_note = n\<rparr>)"

definition validity_to_manifest :: "run_validity \<Rightarrow> bool \<times> string option \<times> string" where
  "validity_to_manifest v = (valid v, map_option invalid_class_value (invalid_class v), validity_note v)"

definition VALID :: run_validity where
  "VALID = \<lparr>valid = True, invalid_class = None, validity_note = []\<rparr>"

definition invalid_run :: "invalid_run_class \<Rightarrow> string \<Rightarrow> run_validity" where
  "invalid_run cls n = \<lparr>valid = False, invalid_class = Some cls, validity_note = n\<rparr>"

section \<open>Lemmas\<close>

lemma make_run_validity_VALID: "make_run_validity True None [] = Inr VALID"
  by (simp add: make_run_validity_def VALID_def)

lemma make_run_validity_invalid: "make_run_validity False (Some cls) n = Inr (invalid_run cls n)"
  by (simp add: make_run_validity_def invalid_run_def)

lemma make_run_validity_ok:
  "make_run_validity ok cls n = Inr v \<Longrightarrow> valid v \<longleftrightarrow> invalid_class v = None"
  by (auto simp: make_run_validity_def split: if_splits)

lemma failure_rate_cong:
  "filter (\<lambda>x. x \<noteq> ''offline_send'') xs = filter (\<lambda>x. x \<noteq> ''offline_send'') ys \<Longrightarrow>
   failure_rate xs = failure_rate ys"
  by (simp add: failure_rate_def EXCLUDED_FROM_FAILURE_RATE_def)

section \<open>Properties\<close>

text \<open>
  The failure rate is absent exactly when nothing but offline sends happened; otherwise
  it lies between 0 and 1, is 0 exactly when every counted interaction succeeded and 1
  exactly when none did, offline sends never change it, and together with the success
  rate of the same interactions it makes 1.
\<close>

theorem failure_rate_exact:
  "(failure_rate os = None \<longleftrightarrow> set os \<subseteq> {''offline_send''}) \<and>
   failure_rate (filter (\<lambda>x. x \<noteq> ''offline_send'') os) = failure_rate os \<and>
   (\<forall>r. failure_rate os = Some r \<longrightarrow> 0 \<le> r \<and> r \<le> 1 \<and>
      (r = 0 \<longleftrightarrow> set os \<subseteq> {''offline_send'', ''success''}) \<and> (r = 1 \<longleftrightarrow> ''success'' \<notin> set os) \<and>
      r + of_nat (count_list os ''success'') / of_nat (length os - count_list os ''offline_send'') = 1)"
proof -
  let ?c = "filter (\<lambda>x. x \<noteq> ''offline_send'') os"
  let ?f = "filter (\<lambda>x. x \<noteq> ''success'') ?c"
  have none: "failure_rate os = None \<longleftrightarrow> ?c = []"
    by (simp add: failure_rate_def EXCLUDED_FROM_FAILURE_RATE_def Let_def)
  have empty: "?c = [] \<longleftrightarrow> set os \<subseteq> {''offline_send''}"
    by (auto simp: filter_empty_conv)
  have len: "length ?c = length os - count_list os ''offline_send''"
    by (induction os) (auto simp: Suc_diff_le count_le_length)
  have suc: "length ?f + count_list os ''success'' = length ?c"
    by (induction os) auto
  have r: "failure_rate os = Some r \<longleftrightarrow> ?c \<noteq> [] \<and> r = of_nat (length ?f) / of_nat (length ?c)" for r
    by (auto simp: failure_rate_def EXCLUDED_FROM_FAILURE_RATE_def Let_def)
  have "0 \<le> r \<and> r \<le> 1 \<and>
      (r = 0 \<longleftrightarrow> set os \<subseteq> {''offline_send'', ''success''}) \<and> (r = 1 \<longleftrightarrow> ''success'' \<notin> set os) \<and>
      r + of_nat (count_list os ''success'') / of_nat (length os - count_list os ''offline_send'') = 1"
    if "failure_rate os = Some r" for r
  proof -
    from that r have c: "0 < length ?c" and rr: "r = of_nat (length ?f) / of_nat (length ?c)" by auto
    have "r = 0 \<longleftrightarrow> ?f = []" using c rr by auto
    also have "\<dots> \<longleftrightarrow> set os \<subseteq> {''offline_send'', ''success''}" by (auto simp: filter_empty_conv)
    finally have zero: "r = 0 \<longleftrightarrow> set os \<subseteq> {''offline_send'', ''success''}" .
    have "r = 1 \<longleftrightarrow> length ?f = length ?c" using c rr by (auto simp: field_simps)
    also have "\<dots> \<longleftrightarrow> count_list os ''success'' = 0" using suc by linarith
    also have "\<dots> \<longleftrightarrow> ''success'' \<notin> set os" by (simp add: count_list_0_iff)
    finally have one: "r = 1 \<longleftrightarrow> ''success'' \<notin> set os" .
    have "r \<le> 1" using c rr suc by (simp add: divide_le_eq)
    moreover have "r + of_nat (count_list os ''success'') / of_nat (length ?c) = 1"
    proof -
      have "r + of_nat (count_list os ''success'') / of_nat (length ?c) =
          (of_nat (length ?f + count_list os ''success'') :: rat) / of_nat (length ?c)"
        by (simp add: rr add_divide_distrib)
      then show ?thesis using c by (simp only: suc) simp
    qed
    ultimately show ?thesis using zero one rr by (simp only: len [symmetric]) simp
  qed
  moreover have "failure_rate ?c = failure_rate os"
    by (rule failure_rate_cong) simp
  ultimately show ?thesis using none empty by blast
qed

theorem failure_rate_exact_witness:
  "failure_rate [''success'', ''offline_send'', ''timeout''] = Some (1 / 2) \<and>
   (1 / 2 :: rat) + of_nat (count_list [''success'', ''offline_send'', ''timeout''] ''success'') /
     of_nat (length [''success'', ''offline_send'', ''timeout''] -
             count_list [''success'', ''offline_send'', ''timeout''] ''offline_send'') = 1"
proof -
  have r: "failure_rate [''success'', ''offline_send'', ''timeout''] = Some (1 / 2)"
    by (simp add: failure_rate_def EXCLUDED_FROM_FAILURE_RATE_def)
  with failure_rate_exact [of "[''success'', ''offline_send'', ''timeout'']"] show ?thesis by blast
qed

end
