(* ===== verification/Human.thy ===== *)
theory Human
  imports Protocol Client Validity Once
begin

text \<open>
  \<^verbatim>\<open>src/fam/participants/human.py\<close>: the client that issues requests and awaits their ACKs.
  \<open>Interaction\<close> objects are shared between the dictionary of pending ones and the
  coroutines that wait, so they live in a list and are named by their place. A coroutine's
  position is \<open>it_task\<close>; its steps and the arriving events interleave in any order. Times
  are nanoseconds of the monotonic clock, a timeout is a rational number of seconds.
\<close>

section \<open>Interactions\<close>

datatype task = Sending rat | SendingOffline | Awaiting | Returned | OfflineSent | Failed exn

record interaction =
  it_correlation :: correlation
  it_request_txn_id :: string
  it_initiated :: int
  it_request_event_id :: "string option"
  it_response_event_id :: "string option"
  it_completed :: "int option"
  it_ack_ids :: "string list"
  it_send_errcode :: string
  it_send_error :: string
  timed_out :: bool
  it_late_ack :: "int option"
  it_recovery_episode :: "nat option"
  it_done :: bool
  it_task :: task

definition new_interaction :: "correlation \<Rightarrow> string \<Rightarrow> int \<Rightarrow> task \<Rightarrow> interaction" where
  "new_interaction c txn t tsk = \<lparr>it_correlation = c, it_request_txn_id = txn, it_initiated = t,
     it_request_event_id = None, it_response_event_id = None, it_completed = None, it_ack_ids = [],
     it_send_errcode = [], it_send_error = [], timed_out = False, it_late_ack = None, it_recovery_episode = None,
     it_done = False, it_task = tsk\<rparr>"

definition it_rate_limited :: "interaction \<Rightarrow> bool" where
  "it_rate_limited it \<longleftrightarrow> it_send_errcode it = ''M_LIMIT_EXCEEDED''"

definition it_ack_count :: "interaction \<Rightarrow> nat" where
  "it_ack_count it = length (it_ack_ids it)"

definition it_duplicate_ids :: "interaction \<Rightarrow> string list" where
  "it_duplicate_ids it = drop 1 (it_ack_ids it)"

definition it_duplicate_count :: "interaction \<Rightarrow> nat" where
  "it_duplicate_count it = length (it_ack_ids it) - 1"

record human =
  h_objects :: "interaction list"
  h_pending :: "(corr_key, nat) dict"
  h_room :: "string option"
  h_in_flight :: int

definition new_human :: human where
  "new_human = \<lparr>h_objects = [], h_pending = [], h_room = None, h_in_flight = 0\<rparr>"

definition bind_room :: "string \<Rightarrow> human \<Rightarrow> human" where
  "bind_room room h = h\<lparr>h_room := Some room\<rparr>"

definition set_object :: "nat \<Rightarrow> interaction \<Rightarrow> human \<Rightarrow> human" where
  "set_object i it h = h\<lparr>h_objects := (h_objects h)[i := it]\<rparr>"

section \<open>Receiving\<close>

text \<open>The part of \<open>_handle\<close> from the look-up on: one ACK event for its interaction.\<close>

definition observe_ack :: "int \<Rightarrow> nat option \<Rightarrow> string \<Rightarrow> interaction \<Rightarrow> interaction" where
  "observe_ack t3 ep eid it =
     (if eid \<in> set (it_ack_ids it) then it
      else let first = (it_ack_ids it = []); it1 = it\<lparr>it_ack_ids := it_ack_ids it @ [eid]\<rparr> in
        if timed_out it then
          (if it_late_ack it = None
           then it1\<lparr>it_late_ack := Some t3, it_response_event_id := Some eid\<rparr> else it1)
        else if first then
          it1\<lparr>it_completed := Some t3, it_response_event_id := Some eid,
              it_recovery_episode := ep, it_done := True\<rparr>
        else it1)"

definition human_handle :: "int \<Rightarrow> nat option \<Rightarrow> timeline_event \<Rightarrow> human \<Rightarrow> human effect" where
  "human_handle t3 ep e h =
     (if truthy (h_room h) \<and> h_room h \<noteq> Some (ev_room e) then (h, None)
      else case parse (ev_body e) of
        Inl _ \<Rightarrow> (h, Some ValueError)
      | Inr None \<Rightarrow> (h, None)
      | Inr (Some m) \<Rightarrow>
          if \<not> is_ack m then (h, None)
          else case map_of (h_pending h) (key (correlation m)) of
            None \<Rightarrow> (h, None)
          | Some i \<Rightarrow> (set_object i (observe_ack t3 ep (ev_id e) (h_objects h ! i)) h, None))"

section \<open>Sending\<close>

text \<open>
  \<open>request\<close> up to the start of the send: the interaction is registered, the body built and
  checked, and T0 taken. The result names the interaction, if one was registered.
\<close>

definition begin_request ::
  "correlation \<Rightarrow> int option \<Rightarrow> rat \<Rightarrow> int \<Rightarrow> int \<Rightarrow> human \<Rightarrow> human effect" where
  "begin_request c body_bytes timeout t_created t0 h =
     (if h_room h = None then (h, Some RuntimeError)
      else case txn_id c ''request'' of
        Inl _ \<Rightarrow> (h, Some ValueError)
      | Inr txn \<Rightarrow>
          (let i = length (h_objects h);
               register = (\<lambda>it n. h\<lparr>h_objects := h_objects h @ [it],
                 h_pending := AList.update (key c) i (h_pending h), h_in_flight := h_in_flight h + n\<rparr>);
               body = rbind (build_request c body_bytes) (\<lambda>b.
                 case body_bytes of None \<Rightarrow> Inr b | Some n \<Rightarrow> rbind (assert_body_length b n) (\<lambda>_. Inr b))
           in case body of
             Inl _ \<Rightarrow> (register (new_interaction c txn t_created (Failed ValueError)) 0, Some ValueError)
           | Inr _ \<Rightarrow> (register (new_interaction c txn t0 (Sending timeout)) 1, None)))"

text \<open>
  The send returns at time \<open>t\<close>: a rejection ends the interaction with its code, any other
  exception leaves \<open>request\<close> (\<open>str\<close> gives the text of an exception), and an accepted send is measured against the budget, which
  began at T0.
\<close>

definition remaining_seconds :: "rat \<Rightarrow> int \<Rightarrow> int \<Rightarrow> rat" where
  "remaining_seconds timeout t0 t = timeout - of_int (t - t0) / 1000000000"

definition request_sent :: "(exn \<Rightarrow> string) \<Rightarrow> nat \<Rightarrow> rat \<Rightarrow> exn + string \<Rightarrow> int \<Rightarrow> human \<Rightarrow> human" where
  "request_sent str i timeout result t h =
     (let it = h_objects h ! i in
      case result of
        Inl (MatrixRequestRejected errcode) \<Rightarrow>
          (set_object i (it\<lparr>it_send_errcode := (if errcode = [] then ''unknown'' else errcode),
             it_send_error := str (MatrixRequestRejected errcode), it_task := Returned\<rparr>) h)\<lparr>h_in_flight := h_in_flight h - 1\<rparr>
      | Inl x \<Rightarrow> (set_object i (it\<lparr>it_task := Failed x\<rparr>) h)\<lparr>h_in_flight := h_in_flight h - 1\<rparr>
      | Inr eid \<Rightarrow>
          if remaining_seconds timeout (it_initiated it) t \<le> 0 then
            (set_object i (it\<lparr>it_request_event_id := Some eid, timed_out := True, it_task := Returned\<rparr>) h)
              \<lparr>h_in_flight := h_in_flight h - 1\<rparr>
          else set_object i (it\<lparr>it_request_event_id := Some eid, it_task := Awaiting\<rparr>) h)"

text \<open>The wait ends: by the timeout, or because the future is done.\<close>

definition wait_expires :: "nat \<Rightarrow> human \<Rightarrow> human" where
  "wait_expires i h =
     (set_object i ((h_objects h ! i)\<lparr>timed_out := True, it_task := Returned\<rparr>) h)
       \<lparr>h_in_flight := h_in_flight h - 1\<rparr>"

definition wait_done :: "nat \<Rightarrow> human \<Rightarrow> human" where
  "wait_done i h =
     (set_object i ((h_objects h ! i)\<lparr>it_task := Returned\<rparr>) h)\<lparr>h_in_flight := h_in_flight h - 1\<rparr>"

text \<open>\<open>send_offline\<close>, in the same two parts; no deadline and not in flight.\<close>

definition begin_offline :: "correlation \<Rightarrow> int \<Rightarrow> human \<Rightarrow> human effect" where
  "begin_offline c t h =
     (if h_room h = None then (h, Some RuntimeError)
      else case txn_id c ''request'' of
        Inl _ \<Rightarrow> (h, Some ValueError)
      | Inr txn \<Rightarrow>
          (let register = (\<lambda>tsk. h\<lparr>h_objects := h_objects h @ [new_interaction c txn t tsk],
                 h_pending := AList.update (key c) (length (h_objects h)) (h_pending h)\<rparr>)
           in case build_request c None of
             Inl _ \<Rightarrow> (register (Failed ValueError), Some ValueError)
           | Inr _ \<Rightarrow> (register SendingOffline, None)))"

definition offline_sent :: "nat \<Rightarrow> exn + string \<Rightarrow> human \<Rightarrow> human" where
  "offline_sent i result h =
     (let it = h_objects h ! i in
      case result of
        Inl x \<Rightarrow> set_object i (it\<lparr>it_task := Failed x\<rparr>) h
      | Inr eid \<Rightarrow> set_object i (it\<lparr>it_request_event_id := Some eid, it_task := OfflineSent\<rparr>) h)"

text \<open>What \<open>await_acks\<close> returns at the end of its wait, and the participant's counts.\<close>

definition acks_received :: "correlation list \<Rightarrow> human \<Rightarrow> nat" where
  "acks_received cs h =
     length (filter (\<lambda>i. it_done (h_objects h ! i))
       (List.map_filter (\<lambda>c. map_of (h_pending h) (key c)) cs))"

definition interaction_of :: "correlation \<Rightarrow> human \<Rightarrow> interaction option" where
  "interaction_of c h = map_option (\<lambda>i. h_objects h ! i) (map_of (h_pending h) (key c))"

definition outstanding_count :: "human \<Rightarrow> int" where
  "outstanding_count h = h_in_flight h"

definition duplicate_acks :: "human \<Rightarrow> nat" where
  "duplicate_acks h = sum_list (map (\<lambda>(k, i). it_duplicate_count (h_objects h ! i)) (h_pending h))"

definition requests_with_duplicate_acks :: "human \<Rightarrow> nat" where
  "requests_with_duplicate_acks h =
     length (filter (\<lambda>(k, i). it_duplicate_count (h_objects h ! i) \<noteq> 0) (h_pending h))"

section \<open>The interleaving of coroutines and events\<close>

text \<open>
  One step: an event is delivered, or a coroutine runs to its next \<open>await\<close>. \<open>wait_for\<close> may
  expire although its future is done: a deadline that fires before the waiting coroutine is
  resumed wins.
\<close>

inductive human_step :: "human \<Rightarrow> human \<Rightarrow> bool" where
  step_deliver: "human_step h (fst (human_handle t3 ep e h))"
| step_begin: "human_step h (fst (begin_request c bb timeout t t0 h))"
| step_sent: "i < length (h_objects h) \<Longrightarrow> it_task (h_objects h ! i) = Sending timeout \<Longrightarrow>
    human_step h (request_sent str i timeout result t h)"
| step_expires: "i < length (h_objects h) \<Longrightarrow> it_task (h_objects h ! i) = Awaiting \<Longrightarrow>
    human_step h (wait_expires i h)"
| step_done: "i < length (h_objects h) \<Longrightarrow> it_task (h_objects h ! i) = Awaiting \<Longrightarrow>
    it_done (h_objects h ! i) \<Longrightarrow> human_step h (wait_done i h)"
| step_offline: "human_step h (fst (begin_offline c t h))"
| step_offline_sent: "i < length (h_objects h) \<Longrightarrow> it_task (h_objects h ! i) = SendingOffline \<Longrightarrow>
    human_step h (offline_sent i result h)"
| step_bind: "human_step h (bind_room room h)"

inductive_cases human_step_elim: "human_step h h'"

abbreviation human_steps :: "human \<Rightarrow> human \<Rightarrow> bool" where
  "human_steps \<equiv> human_step\<^sup>*\<^sup>*"

section \<open>What an interaction and the participant keep\<close>

text \<open>\<open>_outcome_of\<close> of \<^verbatim>\<open>src/fam/benchmark/engine.py\<close>, the terminal outcome of an interaction.\<close>

definition outcome_of :: "interaction \<Rightarrow> interaction_outcome" where
  "outcome_of it =
     (if it_send_errcode it \<noteq> [] then SEND_ERROR
      else if timed_out it \<or> it_completed it = None then TIMEOUT else SUCCESS)"

definition in_flight :: "interaction \<Rightarrow> bool" where
  "in_flight it \<longleftrightarrow> (case it_task it of Sending _ \<Rightarrow> True | Awaiting \<Rightarrow> True | _ \<Rightarrow> False)"

definition it_ok :: "interaction \<Rightarrow> bool" where
  "it_ok it \<longleftrightarrow> distinct (it_ack_ids it) \<and> (it_done it \<longleftrightarrow> it_completed it \<noteq> None) \<and>
     (it_completed it \<noteq> None \<and> it_late_ack it = None \<longrightarrow> it_response_event_id it = Some (hd (it_ack_ids it))) \<and>
     (it_completed it \<noteq> None \<or> it_late_ack it \<noteq> None \<longrightarrow> it_ack_ids it \<noteq> []) \<and>
     (it_ack_ids it \<noteq> [] \<longrightarrow> it_completed it \<noteq> None \<or> it_late_ack it \<noteq> None) \<and>
     (it_late_ack it \<noteq> None \<longrightarrow> timed_out it) \<and> (timed_out it \<longrightarrow> it_task it = Returned) \<and>
     (it_send_errcode it \<noteq> [] \<longrightarrow> it_task it = Returned \<and> \<not> timed_out it) \<and>
     (it_task it = Returned \<longrightarrow> it_send_errcode it \<noteq> [] \<or> timed_out it \<or> it_completed it \<noteq> None)"

definition human_ok :: "human \<Rightarrow> bool" where
  "human_ok h \<longleftrightarrow> (\<forall>it \<in> set (h_objects h). it_ok it) \<and> dict_ok (h_pending h) \<and>
     (\<forall>(k, i) \<in> set (h_pending h). i < length (h_objects h) \<and> key (it_correlation (h_objects h ! i)) = k) \<and>
     h_in_flight h = int (length (filter in_flight (h_objects h)))"

text \<open>What time may change of an interaction.\<close>

definition evolves :: "interaction \<Rightarrow> interaction \<Rightarrow> bool" where
  "evolves it it' \<longleftrightarrow> it_correlation it' = it_correlation it \<and> it_initiated it' = it_initiated it \<and>
     take (length (it_ack_ids it)) (it_ack_ids it') = it_ack_ids it \<and>
     (it_completed it \<noteq> None \<longrightarrow> it_completed it' = it_completed it) \<and>
     (it_task it = Returned \<longrightarrow> it_task it' = Returned \<and> outcome_of it' = outcome_of it \<and>
        (outcome_of it = SUCCESS \<longrightarrow> it_response_event_id it' = it_response_event_id it))"

lemma evolves_refl [simp]: "evolves it it"
  by (simp add: evolves_def)

lemma evolves_trans:
  assumes "evolves a b" and "evolves b c"
  shows "evolves a c"
proof -
  have "take (length (it_ack_ids a)) (it_ack_ids c) = it_ack_ids a"
    using assms unfolding evolves_def by (metis min.absorb1 nle_le take_all take_take length_take)
  with assms show ?thesis unfolding evolves_def by auto
qed

text \<open>Each change of one interaction keeps \<open>it_ok\<close> and is an evolution.\<close>

lemma observe_ack_correlation [simp]:
  "it_correlation (observe_ack t ep e it) = it_correlation it"
  "it_task (observe_ack t ep e it) = it_task it"
  by (simp_all add: observe_ack_def Let_def)

lemma observe_ack_ids:
  "it_ack_ids (observe_ack t ep e it) = (if e \<in> set (it_ack_ids it) then it_ack_ids it else it_ack_ids it @ [e])"
  by (simp add: observe_ack_def Let_def)

lemma observe_ack_cases:
  assumes "it_ok it"
  obtains (known) "observe_ack t ep e it = it"
  | (late) "e \<notin> set (it_ack_ids it)" "timed_out it" "it_late_ack it = None"
      "observe_ack t ep e it = it\<lparr>it_ack_ids := it_ack_ids it @ [e], it_late_ack := Some t,
         it_response_event_id := Some e\<rparr>"
  | (first) "it_ack_ids it = []" "\<not> timed_out it" "it_completed it = None"
      "observe_ack t ep e it = it\<lparr>it_ack_ids := [e], it_completed := Some t,
         it_response_event_id := Some e, it_recovery_episode := ep, it_done := True\<rparr>"
  | (further) "e \<notin> set (it_ack_ids it)" "it_ack_ids it \<noteq> []" "timed_out it \<Longrightarrow> it_late_ack it \<noteq> None"
      "observe_ack t ep e it = it\<lparr>it_ack_ids := it_ack_ids it @ [e]\<rparr>"
proof -
  have none: "it_completed it = None" if "it_ack_ids it = []"
    using assms that unfolding it_ok_def by meson
  consider "e \<in> set (it_ack_ids it)" | "e \<notin> set (it_ack_ids it)" "timed_out it" "it_late_ack it = None"
    | "e \<notin> set (it_ack_ids it)" "\<not> timed_out it" "it_ack_ids it = []"
    | "e \<notin> set (it_ack_ids it)" "timed_out it" "it_late_ack it \<noteq> None"
    | "e \<notin> set (it_ack_ids it)" "\<not> timed_out it" "it_ack_ids it \<noteq> []" by blast
  then show ?thesis
  proof cases
    case 1 then show ?thesis by (intro known) (simp add: observe_ack_def)
  next
    case 2 then show ?thesis by (intro late) (simp_all add: observe_ack_def)
  next
    case 3 then show ?thesis by (intro first) (simp_all add: observe_ack_def none)
  next
    case 4
    then have "it_ack_ids it \<noteq> []" using assms unfolding it_ok_def by meson
    with 4 show ?thesis by (intro further) (auto simp: observe_ack_def Let_def)
  next
    case 5 then show ?thesis by (intro further) (simp_all add: observe_ack_def)
  qed
qed

lemma observe_ack_ok [step_inv]:
  assumes "it_ok it"
  shows "it_ok (observe_ack t ep e it)"
  using assms
proof (cases rule: observe_ack_cases [of it t ep e])
  case first
  with assms show ?thesis unfolding it_ok_def by simp
next
  case late
  with assms show ?thesis unfolding it_ok_def by simp
next
  case further
  with assms show ?thesis unfolding it_ok_def by (simp del: not_None_eq)
qed (use assms in simp)

lemma observe_ack_evolves:
  assumes "it_ok it"
  shows "evolves it (observe_ack t ep e it)"
  using assms
proof (cases rule: observe_ack_cases [of it t ep e])
  case first
  with assms show ?thesis unfolding evolves_def outcome_of_def it_ok_def by auto
qed (auto simp: evolves_def outcome_of_def)

lemma it_ok_live:
  assumes "it_task it \<noteq> Returned"
  shows "it_ok it \<longleftrightarrow> \<not> timed_out it \<and> it_late_ack it = None \<and> it_send_errcode it = [] \<and>
    distinct (it_ack_ids it) \<and> (it_done it \<longleftrightarrow> it_completed it \<noteq> None) \<and>
    (it_ack_ids it = [] \<longleftrightarrow> it_completed it = None) \<and>
    (it_completed it \<noteq> None \<longrightarrow> it_response_event_id it = Some (hd (it_ack_ids it)))"
  using assms unfolding it_ok_def
  by (cases "it_late_ack it"; cases "timed_out it"; cases "it_send_errcode it";
      cases "it_ack_ids it"; cases "it_completed it") simp_all

lemma live_changes_ok [step_inv]:
  assumes "it_ok it" and "it_task it \<noteq> Returned"
  shows rejected_ok: "c \<noteq> [] \<Longrightarrow> it_ok (it\<lparr>it_send_errcode := c, it_send_error := s, it_task := Returned\<rparr>)"
    and late_send_ok: "it_ok (it\<lparr>it_request_event_id := x, timed_out := True, it_task := Returned\<rparr>)"
    and expired_ok: "it_ok (it\<lparr>timed_out := True, it_task := Returned\<rparr>)"
    and moved_ok: "tsk \<noteq> Returned \<Longrightarrow> it_ok (it\<lparr>it_task := tsk\<rparr>)"
    and sent_ok: "tsk \<noteq> Returned \<Longrightarrow> it_ok (it\<lparr>it_request_event_id := x, it_task := tsk\<rparr>)"
    and done_ok: "it_done it \<Longrightarrow> it_ok (it\<lparr>it_task := Returned\<rparr>)"
  using assms(1) [unfolded it_ok_live [OF assms(2)]] by (simp_all add: it_ok_live it_ok_def)

lemma new_interaction_ok [step_inv]: "tsk \<noteq> Returned \<Longrightarrow> it_ok (new_interaction c txn t tsk)"
  by (simp add: it_ok_def new_interaction_def)

lemma new_interaction_simps [simp]:
  "it_correlation (new_interaction c txn t tsk) = c" "it_task (new_interaction c txn t tsk) = tsk"
  "it_initiated (new_interaction c txn t tsk) = t" "it_ack_ids (new_interaction c txn t tsk) = []"
  by (simp_all add: new_interaction_def)

section \<open>Steps of the participant\<close>

text \<open>
  A step adds an interaction, or lets one evolve and adjusts the count of those in flight.
\<close>

lemma length_filter_update:
  "i < length xs \<Longrightarrow> int (length (filter P (xs[i := x]))) =
    int (length (filter P xs)) + of_bool (P x) - of_bool (P (xs ! i))"
proof (induction xs arbitrary: i)
  case (Cons y ys)
  then show ?case by (cases i) auto
qed simp

lemma human_ok_set_object:
  assumes "human_ok h" and "i < length (h_objects h)" and "it_ok it"
    and "it_correlation it = it_correlation (h_objects h ! i)"
  shows "human_ok ((set_object i it h)\<lparr>h_in_flight :=
    h_in_flight h + of_bool (in_flight it) - of_bool (in_flight (h_objects h ! i))\<rparr>)"
  using assms length_filter_update [of i "h_objects h" in_flight it]
  by (auto simp: human_ok_def set_object_def nth_list_update dest!: set_update_memI
      dest: set_update_subset_insert [THEN subsetD])

lemma human_ok_register:
  assumes h: "human_ok h" and it: "it_ok it" and n: "n = of_bool (in_flight it)"
    and c: "key (it_correlation it) = k"
  shows "human_ok (h\<lparr>h_objects := h_objects h @ [it],
    h_pending := AList.update k (length (h_objects h)) (h_pending h), h_in_flight := h_in_flight h + n\<rparr>)"
proof -
  have "i < Suc (length (h_objects h)) \<and> key (it_correlation ((h_objects h @ [it]) ! i)) = k'"
    if "(k', i) \<in> set (AList.update k (length (h_objects h)) (h_pending h))" for k' i
    using that h c by (auto simp: set_update human_ok_def nth_append)
  with assms show ?thesis by (auto simp: human_ok_def)
qed

definition outgrows :: "human \<Rightarrow> human \<Rightarrow> bool" where
  "outgrows h h' \<longleftrightarrow> length (h_objects h) \<le> length (h_objects h') \<and>
     (\<forall>i < length (h_objects h). evolves (h_objects h ! i) (h_objects h' ! i))"

lemma outgrows_refl [simp]: "outgrows h h"
  by (simp add: outgrows_def)

lemma outgrows_trans: "outgrows a b \<Longrightarrow> outgrows b c \<Longrightarrow> outgrows a c"
  unfolding outgrows_def by (meson evolves_trans le_trans order_less_le_trans)

lemma outgrows_objects [simp]:
  "outgrows h (h'\<lparr>h_in_flight := n\<rparr>) = outgrows h h'" "outgrows h (h'\<lparr>h_room := r\<rparr>) = outgrows h h'"
  "outgrows h (h'\<lparr>h_pending := p\<rparr>) = outgrows h h'"
  by (simp_all add: outgrows_def)

lemma outgrows_set_object:
  "evolves (h_objects h ! i) it \<Longrightarrow> outgrows h (set_object i it h)"
  by (auto simp: outgrows_def set_object_def) (metis evolves_refl nth_list_update_eq nth_list_update_neq)

lemma outgrows_register: "outgrows h (h\<lparr>h_objects := h_objects h @ [it]\<rparr>)"
  by (simp add: outgrows_def nth_append)

lemma human_ok_replace:
  assumes "human_ok h" and "i < length (h_objects h)" and "it_ok it"
    and "it_correlation it = it_correlation (h_objects h ! i)"
  shows human_ok_same: "in_flight it = in_flight (h_objects h ! i) \<Longrightarrow> human_ok (set_object i it h)"
    and human_ok_finish: "in_flight (h_objects h ! i) \<Longrightarrow> \<not> in_flight it \<Longrightarrow>
      human_ok ((set_object i it h)\<lparr>h_in_flight := h_in_flight h - 1\<rparr>)"
  using human_ok_set_object [OF assms] by (simp_all add: set_object_def human_ok_def)

lemma human_ok_object: "human_ok h \<Longrightarrow> i < length (h_objects h) \<Longrightarrow> it_ok (h_objects h ! i)"
  by (simp add: human_ok_def)

lemma human_ok_pending:
  "human_ok h \<Longrightarrow> map_of (h_pending h) k = Some i \<Longrightarrow>
    i < length (h_objects h) \<and> key (it_correlation (h_objects h ! i)) = k"
  by (auto simp: human_ok_def dest!: map_of_SomeD)

lemma human_handle_effect:
  "fst (human_handle t3 ep e h) = h \<or>
   (\<exists>m i. parse (ev_body e) = Inr (Some m) \<and> is_ack m \<and>
      map_of (h_pending h) (key (correlation m)) = Some i \<and>
      fst (human_handle t3 ep e h) = set_object i (observe_ack t3 ep (ev_id e) (h_objects h ! i)) h)"
  by (simp add: human_handle_def split: sum.split option.split)

lemma in_flight_observe [simp]: "in_flight (observe_ack t ep e it) = in_flight it"
  by (simp add: in_flight_def)

definition keeps :: "human \<Rightarrow> human \<Rightarrow> bool" where
  "keeps h h' \<longleftrightarrow> human_ok h' \<and> outgrows h h'"

lemma keeps_same: "human_ok h \<Longrightarrow> i < length (h_objects h) \<Longrightarrow> it_ok it \<Longrightarrow> evolves (h_objects h ! i) it \<Longrightarrow>
    in_flight it = in_flight (h_objects h ! i) \<Longrightarrow> keeps h (set_object i it h)"
  by (simp add: keeps_def human_ok_same outgrows_set_object evolves_def [THEN iffD1])

lemma keeps_finish: "human_ok h \<Longrightarrow> i < length (h_objects h) \<Longrightarrow> it_ok it \<Longrightarrow> evolves (h_objects h ! i) it \<Longrightarrow>
    in_flight (h_objects h ! i) \<Longrightarrow> \<not> in_flight it \<Longrightarrow>
    keeps h ((set_object i it h)\<lparr>h_in_flight := h_in_flight h - 1\<rparr>)"
  by (simp add: keeps_def human_ok_finish outgrows_set_object evolves_def [THEN iffD1])

lemma keeps_register: "human_ok h \<Longrightarrow> it_ok it \<Longrightarrow> n = of_bool (in_flight it) \<Longrightarrow> key (it_correlation it) = k \<Longrightarrow>
    keeps h (h\<lparr>h_objects := h_objects h @ [it],
      h_pending := AList.update k (length (h_objects h)) (h_pending h), h_in_flight := h_in_flight h + n\<rparr>)"
  using human_ok_register [of h it n k] outgrows_register [of h it]
  by (simp add: keeps_def outgrows_def)

lemma keeps_register_idle: "human_ok h \<Longrightarrow> it_ok it \<Longrightarrow> \<not> in_flight it \<Longrightarrow> key (it_correlation it) = k \<Longrightarrow>
    keeps h (h\<lparr>h_objects := h_objects h @ [it],
      h_pending := AList.update k (length (h_objects h)) (h_pending h)\<rparr>)"
  using keeps_register [of h it 0 k] by simp

lemma keeps_refl: "human_ok h \<Longrightarrow> keeps h h"
  by (simp add: keeps_def)

lemma keeps_begin_request:
  "human_ok h \<Longrightarrow> keeps h (fst (begin_request c bb timeout t t0 h))"
  by (auto simp: begin_request_def Let_def keeps_refl split: sum.split
      intro!: keeps_register keeps_register_idle new_interaction_ok) (auto simp: in_flight_def)

lemma keeps_begin_offline:
  assumes "human_ok h"
  shows "keeps h (fst (begin_offline c t h))"
  using assms
  by (auto simp: begin_offline_def Let_def keeps_refl split: sum.split
      intro!: keeps_register_idle new_interaction_ok) (auto simp: in_flight_def)

lemma task_evolves:
  "it_task it \<noteq> Returned \<Longrightarrow> it_correlation it' = it_correlation it \<Longrightarrow> it_initiated it' = it_initiated it \<Longrightarrow>
    it_ack_ids it' = it_ack_ids it \<Longrightarrow> it_completed it' = it_completed it \<Longrightarrow> evolves it it'"
  by (simp add: evolves_def)

lemma keeps_request_sent:
  assumes h: "human_ok h" and i: "i < length (h_objects h)"
    and task: "it_task (h_objects h ! i) = Sending timeout"
  shows "keeps h (request_sent str i timeout result t h)"
proof -
  let ?it = "h_objects h ! i"
  have ok: "it_ok ?it" and live: "it_task ?it \<noteq> Returned" and busy: "in_flight ?it"
    using human_ok_object [OF h i] task by (simp_all add: in_flight_def)
  note finish = keeps_finish [OF h i _ _ busy] and ok' = live_changes_ok [OF ok live]
  have rejected: "keeps h ((set_object i (?it\<lparr>it_send_errcode := c, it_send_error := s, it_task := Returned\<rparr>) h)
      \<lparr>h_in_flight := h_in_flight h - 1\<rparr>)" if "c \<noteq> []" for c s
    by (rule finish [OF ok'(1) [OF that]]) (simp_all add: task_evolves live in_flight_def)
  have failed: "keeps h ((set_object i (?it\<lparr>it_task := Failed x\<rparr>) h)\<lparr>h_in_flight := h_in_flight h - 1\<rparr>)" for x
    by (rule finish [OF ok'(4)]) (simp_all add: task_evolves live in_flight_def)
  have late: "keeps h ((set_object i (?it\<lparr>it_request_event_id := Some eid, timed_out := True,
      it_task := Returned\<rparr>) h)\<lparr>h_in_flight := h_in_flight h - 1\<rparr>)" for eid
    by (rule finish [OF ok'(2)]) (simp_all add: task_evolves live in_flight_def)
  have sent: "keeps h (set_object i (?it\<lparr>it_request_event_id := Some eid, it_task := Awaiting\<rparr>) h)" for eid
    by (rule keeps_same [OF h i ok'(5)]) (simp_all add: task_evolves live in_flight_def task)
  show ?thesis
    by (simp add: request_sent_def Let_def rejected failed late sent split: sum.split exn.split)
qed

lemma keeps_wait_expires:
  assumes "human_ok h" and "i < length (h_objects h)" and "it_task (h_objects h ! i) = Awaiting"
  shows "keeps h (wait_expires i h)"
  using assms human_ok_object [OF assms(1,2)]
  by (auto simp: wait_expires_def in_flight_def intro!: keeps_finish task_evolves expired_ok)

lemma keeps_wait_done:
  assumes "human_ok h" and "i < length (h_objects h)" and "it_task (h_objects h ! i) = Awaiting"
    and "it_done (h_objects h ! i)"
  shows "keeps h (wait_done i h)"
  using assms human_ok_object [OF assms(1,2)]
  by (auto simp: wait_done_def in_flight_def intro!: keeps_finish task_evolves done_ok)

lemma keeps_offline_sent:
  assumes "human_ok h" and "i < length (h_objects h)" and "it_task (h_objects h ! i) = SendingOffline"
  shows "keeps h (offline_sent i result h)"
  using assms human_ok_object [OF assms(1,2)]
  by (auto simp: offline_sent_def Let_def in_flight_def split: sum.split
      intro!: keeps_same task_evolves moved_ok sent_ok)

lemma keeps_deliver:
  assumes "human_ok h"
  shows "keeps h (fst (human_handle t3 ep e h))"
proof -
  have "keeps h (set_object i (observe_ack t3 ep (ev_id e) (h_objects h ! i)) h)"
    if "map_of (h_pending h) k = Some i" for k i
  proof -
    from human_ok_pending [OF assms that] have i: "i < length (h_objects h)" ..
    show ?thesis
      by (intro keeps_same assms i observe_ack_ok observe_ack_evolves human_ok_object) simp
  qed
  with human_handle_effect [of t3 ep e h] keeps_refl [OF assms] show ?thesis by metis
qed

lemma human_step_keeps: "human_step h h' \<Longrightarrow> human_ok h \<Longrightarrow> keeps h h'"
proof (induction rule: human_step.induct)
  case (step_bind h room)
  then show ?case by (simp add: keeps_def bind_room_def human_ok_def)
qed (simp_all add: keeps_deliver keeps_begin_request keeps_request_sent keeps_wait_expires
      keeps_wait_done keeps_begin_offline keeps_offline_sent)

lemma human_steps_keep: "human_steps h h' \<Longrightarrow> human_ok h \<Longrightarrow> keeps h h'"
proof (induction rule: rtranclp_induct)
  case (step y z)
  then show ?case using human_step_keeps [of y z] outgrows_trans [of h y z] by (simp add: keeps_def)
qed (simp add: keeps_refl)

lemma new_human_ok [simp]: "human_ok new_human"
  by (simp add: human_ok_def new_human_def)

section \<open>Acknowledgements as a guard\<close>

text \<open>An interaction lets each event id through once.\<close>

definition observe_id :: "interaction \<Rightarrow> int \<times> nat option \<times> string \<Rightarrow> interaction" where
  "observe_id it a = observe_ack (fst a) (fst (snd a)) (snd (snd a)) it"

definition new_ack :: "interaction \<Rightarrow> int \<times> nat option \<times> string \<Rightarrow> bool" where
  "new_ack it a \<longleftrightarrow> snd (snd a) \<notin> set (it_ack_ids it)"

interpretation acks: named_guard new_ack observe_id "\<lambda>a. snd (snd a)"
  by unfold_locales (auto simp: new_ack_def observe_id_def observe_ack_ids)

lemma observe_known: "\<not> new_ack it a \<Longrightarrow> observe_id it a = it"
  by (simp add: new_ack_def observe_id_def observe_ack_def)

lemma fold_observe_guarded: "fold (\<lambda>a it. observe_id it a) as it = acks.guarded it as"
  by (induction as arbitrary: it) (simp_all add: observe_known)

lemma ids_guarded:
  "it_ack_ids (acks.guarded it as) = it_ack_ids it @ map (\<lambda>a. snd (snd a)) (acks.taken it as)"
  by (induction as arbitrary: it) (auto simp: observe_id_def observe_ack_ids new_ack_def)

section \<open>A run\<close>

definition example_correlation :: correlation where
  "example_correlation = \<lparr>experiment_name = ''E3'', run_id = ''r1'', sequence_id = 1\<rparr>"

definition ack_event :: "string \<Rightarrow> timeline_event" where
  "ack_event eid = \<lparr>ev_room = ''!r'', ev_id = eid, ev_sender = ''@agent'',
     ev_body = ''FAM/1 ACK E3 r1 1'', ev_ts = 0\<rparr>"

text \<open>
  The ACK arrives before the send of its request returns; the send returns after the budget
  of 30 seconds.
\<close>

definition overtaken :: human where
  "overtaken =
     (let h1 = fst (begin_request example_correlation None 30 0 0 (bind_room ''!r'' new_human));
          h2 = fst (human_handle 29000000000 None (ack_event ''$a'') h1)
      in request_sent (\<lambda>_. []) 0 30 (Inr ''$q'') 31000000000 h2)"

lemma overtaken_reached: "human_steps new_human overtaken"
proof -
  let ?h0 = "bind_room ''!r'' new_human"
  let ?h1 = "fst (begin_request example_correlation None 30 0 0 ?h0)"
  let ?h2 = "fst (human_handle 29000000000 None (ack_event ''$a'') ?h1)"
  have "length (h_objects ?h2) = 1 \<and> it_task (h_objects ?h2 ! 0) = Sending 30"
    by code_simp
  then have "human_step ?h2 (request_sent (\<lambda>_. []) 0 30 (Inr ''$q'') 31000000000 ?h2)"
    by (intro step_sent) auto
  moreover have "human_step new_human ?h0" "human_step ?h0 ?h1" "human_step ?h1 ?h2"
    by (rule step_bind step_begin step_deliver)+
  ultimately show ?thesis
    unfolding overtaken_def Let_def by (meson converse_rtranclp_into_rtranclp rtranclp.rtrancl_refl)
qed

lemma overtaken_value: "overtaken = \<lparr>h_objects =
    [\<lparr>it_correlation = \<lparr>experiment_name = ''E3'', run_id = ''r1'', sequence_id = 1\<rparr>,
      it_request_txn_id = ''fam-e3-r1-request-00001'', it_initiated = 0, it_request_event_id = Some ''$q'',
      it_response_event_id = Some ''$a'', it_completed = Some 29000000000, it_ack_ids = [''$a''], it_send_errcode = [],
      it_send_error = [], timed_out = True, it_late_ack = None, it_recovery_episode = None, it_done = True,
      it_task = Returned\<rparr>],
    h_pending = [((''E3'', ''r1'', 1), 0)], h_room = Some ''!r'', h_in_flight = 0\<rparr>"
  by code_simp

lemma overtaken_object:
  "length (h_objects overtaken) = 1 \<and> timed_out (h_objects overtaken ! 0) \<and>
   it_completed (h_objects overtaken ! 0) = Some 29000000000 \<and>
   it_task (h_objects overtaken ! 0) = Returned \<and> it_ack_ids (h_objects overtaken ! 0) = [''$a'']"
  by (simp add: overtaken_value)

section \<open>Properties\<close>

text \<open>
  C10: Whatever the order in which coroutines run and events arrive, each interaction counts
  every ACK event once, is completed exactly when its future is done, has a late ACK only
  if it timed out, has ended once it timed out, and an ended one was rejected, timed out or
  completed; the response it names is the first ACK unless a late one was recorded. The
  outstanding count is the number of requests still sending or waiting.
\<close>

theorem interaction_invariant:
  assumes "human_steps new_human h"
  shows "outstanding_count h = int (length (filter in_flight (h_objects h))) \<and>
    (\<forall>it \<in> set (h_objects h).
       distinct (it_ack_ids it) \<and> (it_done it \<longleftrightarrow> it_completed it \<noteq> None) \<and>
       (it_late_ack it \<noteq> None \<longrightarrow> timed_out it) \<and> (timed_out it \<longrightarrow> it_task it = Returned) \<and>
       (it_task it = Returned \<longrightarrow> it_send_errcode it \<noteq> [] \<or> timed_out it \<or> it_completed it \<noteq> None) \<and>
       (it_completed it \<noteq> None \<and> it_late_ack it = None \<longrightarrow>
          it_response_event_id it = Some (hd (it_ack_ids it))))"
proof -
  have ok: "human_ok h" using human_steps_keep [OF assms] by (simp add: keeps_def)
  then have "it_ok it" if "it \<in> set (h_objects h)" for it using that by (simp add: human_ok_def)
  moreover from ok have "outstanding_count h = int (length (filter in_flight (h_objects h)))"
    by (simp add: human_ok_def outstanding_count_def)
  ultimately show ?thesis unfolding it_ok_def by blast
qed

theorem interaction_invariant_witness:
  "outstanding_count overtaken = 0 \<and> distinct (it_ack_ids (h_objects overtaken ! 0)) \<and>
   it_done (h_objects overtaken ! 0)"
proof -
  have mem: "h_objects overtaken ! 0 \<in> set (h_objects overtaken)"
    using overtaken_object by simp
  have "filter in_flight (h_objects overtaken) = []" by (simp add: overtaken_value in_flight_def)
  with interaction_invariant [OF overtaken_reached] mem overtaken_object show ?thesis by auto
qed

text \<open>
  Once \<open>request\<close> has returned an interaction, no later event or coroutine changes its
  terminal outcome, its start or a completion time it has, nor the response of a success;
  ACKs observed before stay in place.
\<close>

theorem terminal_outcome_final:
  assumes "human_steps new_human h" and "human_steps h h'"
    and "i < length (h_objects h)" and "it_task (h_objects h ! i) = Returned"
    and "it = h_objects h ! i" and "it' = h_objects h' ! i"
  shows "outcome_of it' = outcome_of it \<and> it_task it' = Returned \<and> it_initiated it' = it_initiated it \<and>
    (it_completed it \<noteq> None \<longrightarrow> it_completed it' = it_completed it) \<and>
    (outcome_of it = SUCCESS \<longrightarrow> it_response_event_id it' = it_response_event_id it) \<and>
    take (length (it_ack_ids it)) (it_ack_ids it') = it_ack_ids it"
proof -
  have "human_ok h" using human_steps_keep [OF assms(1)] by (simp add: keeps_def)
  with human_steps_keep [OF assms(2)] assms(3) have "evolves it it'"
    by (simp add: keeps_def outgrows_def assms(5,6))
  with assms(4,5) show ?thesis by (simp add: evolves_def)
qed

theorem terminal_outcome_final_witness:
  "outcome_of (h_objects (fst (human_handle 32000000000 None (ack_event ''$b'') overtaken)) ! 0) = TIMEOUT"
proof -
  have "human_steps overtaken (fst (human_handle 32000000000 None (ack_event ''$b'') overtaken))"
    by (intro r_into_rtranclp step_deliver)
  from terminal_outcome_final [OF overtaken_reached this, of 0, OF _ _ refl refl] overtaken_object
  have "outcome_of (h_objects (fst (human_handle 32000000000 None (ack_event ''$b'') overtaken)) ! 0) =
    outcome_of (h_objects overtaken ! 0)" by simp
  moreover have "outcome_of (h_objects overtaken ! 0) = TIMEOUT" by (simp add: overtaken_value outcome_of_def)
  ultimately show ?thesis by (rule trans)
qed

text \<open>
  However often events are delivered, an interaction has one entry per distinct ACK
  event: the ACK count is the number of different event ids seen, and the duplicates are
  all of them but one.
\<close>

theorem ack_counts_exact:
  fixes as :: "(int \<times> nat option \<times> string) list"
  assumes "it_ack_ids it = []" and "it' = fold (\<lambda>a it. observe_ack (fst a) (fst (snd a)) (snd (snd a)) it) as it"
  shows "distinct (it_ack_ids it') \<and> set (it_ack_ids it') = (\<lambda>a. snd (snd a)) ` set as \<and>
    it_ack_count it' = card ((\<lambda>a. snd (snd a)) ` set as) \<and>
    it_duplicate_count it' = card ((\<lambda>a. snd (snd a)) ` set as) - 1 \<and>
    it_duplicate_count it' = length (it_duplicate_ids it')"
proof -
  have it': "it' = acks.guarded it as"
    using assms(2) fold_observe_guarded [of as it] by (simp add: observe_id_def)
  have ids: "it_ack_ids it' = map (\<lambda>a. snd (snd a)) (acks.taken it as)"
    using ids_guarded [of it as] assms(1) by (simp add: it')
  have dist: "distinct (it_ack_ids it')"
    unfolding ids by (rule acks.taken_names_distinct)
  have "snd (snd a) \<in> set (it_ack_ids it')" if a: "a \<in> set as" for a
  proof (cases "a \<in> set (acks.taken it as)")
    case False
    from acks.passed_over [OF a this]
    obtain j where "j \<in> set (acks.taken it as)" "snd (snd j) = snd (snd a)"
      by (auto simp: new_ack_def assms(1))
    then show ?thesis unfolding ids set_map by (metis (no_types, lifting) image_eqI)
  qed (simp add: ids)
  with acks.taken_subset [of it as] have set: "set (it_ack_ids it') = (\<lambda>a. snd (snd a)) ` set as"
    unfolding ids by auto
  from distinct_card [OF dist] show ?thesis
    by (simp add: dist set it_ack_count_def it_duplicate_count_def it_duplicate_ids_def)
qed

theorem ack_counts_exact_witness:
  "it_duplicate_count (fold (\<lambda>a it. observe_ack (fst a) (fst (snd a)) (snd (snd a)) it)
     [(5, None, ''$a''), (6, Some 1, ''$a''), (7, None, ''$b'')]
     (new_interaction example_correlation [] 0 Awaiting)) = 1"
proof -
  have "card ((\<lambda>a. snd (snd a)) ` set [(5::int, None :: nat option, ''$a''), (6, Some 1, ''$a''), (7, None, ''$b'')]) = 2"
    by simp
  with ack_counts_exact [OF _ refl, of "new_interaction example_correlation [] 0 Awaiting"
      "[(5, None, ''$a''), (6, Some 1, ''$a''), (7, None, ''$b'')]"]
  show ?thesis by simp
qed

end
