(* ===== verification/Streams.thy ===== *)
theory Streams
  imports Frozen
begin

text \<open>
  \<^verbatim>\<open>src/fam/instrumentation/streams.py\<close>: the raw records. A runner record is a record type,
  a benchmark record its extension by the E3 fields; the duplicate-ACK fields are optional,
  since raw data of schema version 1 has none. A stream is the list of payloads written,
  each a dictionary; the agent record is in the theory of the agent. JSON text and fsync
  are not modelled.
\<close>

record runner_record =
  rr_experiment :: string
  rr_topology :: string
  rr_run_id :: string
  rr_sequence_id :: int
  rr_run_phase :: string
  rr_request_class :: string
  rr_room_id :: string
  rr_sender :: string
  rr_receiver_role :: string
  rr_request_txn_id :: string
  rr_request_event_id :: "string option"
  rr_response_txn_id :: "string option"
  rr_response_event_id :: "string option"
  initiated_ns :: int
  completed_ns :: "int option"
  outcome :: string
  rr_note :: string
  ack_count :: nat
  duplicate_ack_count :: "nat option"
  duplicate_ack_event_ids :: "string list"

record benchmark_record = runner_record +
  workload :: string
  block_id :: string
  within_block_order :: nat
  concurrency :: nat
  message_body_bytes :: int
  phase :: string
  rec_window_start :: "int option"
  rec_window_end :: "int option"
  live_recovery_episode :: "nat option"
  send_errcode :: string
  late_ack_ns :: "int option"

text \<open>
  \<open>benchmark_record\<close> builds the runner record and then updates it: the integrity fields it
  is given replace those of the runner record.
\<close>

definition make_benchmark_record ::
  "runner_record \<Rightarrow> string \<Rightarrow> string \<Rightarrow> nat \<Rightarrow> nat \<Rightarrow> int \<Rightarrow> string \<Rightarrow> int option \<Rightarrow> int option \<Rightarrow>
   nat option \<Rightarrow> string \<Rightarrow> int option \<Rightarrow> nat \<Rightarrow> nat \<Rightarrow> string list \<Rightarrow> benchmark_record" where
  "make_benchmark_record r w b order c bytes ph ws we episode err late acks dups ids =
     runner_record.extend
       (r\<lparr>ack_count := acks, duplicate_ack_count := Some dups, duplicate_ack_event_ids := ids\<rparr>)
       (benchmark_record.fields w b order c bytes ph ws we episode err late)"

text \<open>\<open>JsonlStream\<close>: the payloads written so far; the count is their number.\<close>

record 'v jsonl_stream =
  stream_kind :: 'v
  lines_written :: "(string, 'v) dict list"

definition dict_update :: "('k, 'v) dict \<Rightarrow> ('k, 'v) dict \<Rightarrow> ('k, 'v) dict" where
  "dict_update d e = fold (\<lambda>(k, v) d. AList.update k v d) e d"

definition stream_write :: "'v \<Rightarrow> (string, 'v) dict \<Rightarrow> 'v jsonl_stream \<Rightarrow> 'v jsonl_stream" where
  "stream_write version r s = s\<lparr>lines_written := lines_written s @
     [dict_update [(''schema_version'', version), (''stream'', stream_kind s)] r]\<rparr>"

definition record_count :: "'v jsonl_stream \<Rightarrow> nat" where
  "record_count s = length (lines_written s)"

section \<open>Lemmas\<close>

lemma map_of_dict_update: "dict_ok e \<Longrightarrow> map_of (dict_update d e) = map_of d ++ map_of e"
proof (induction e arbitrary: d)
  case (Cons p e)
  obtain k v where p: "p = (k, v)" by (cases p)
  with Cons.prems have "dict_ok e" and k: "k \<notin> fst ` set e" by (auto simp: dict_ok_def)
  from Cons.IH [OF this(1), of "AList.update k v d"]
  have "map_of (dict_update (AList.update k v d) e) = (map_of d)(k \<mapsto> v) ++ map_of e"
    by (simp only: map_of_update)
  moreover have "k \<notin> dom (map_of e)" using k by (simp add: dom_map_of_conv_image_fst)
  ultimately show ?case
    by (auto simp: dict_update_def p map_add_def fun_eq_iff domIff split: option.splits)
qed (simp add: dict_update_def)

lemma dict_ok_dict_update [simp, wf_intros]: "dict_ok d \<Longrightarrow> dict_ok (dict_update d e)"
  by (induction e arbitrary: d) (auto simp: dict_update_def)

text \<open>
  The envelope of a line is only a default: a record that has a key of its own by that name
  replaces it.
\<close>

lemma stream_write_payload:
  assumes "dict_ok r"
  shows "map_of (last (lines_written (stream_write version r s))) =
    [''schema_version'' \<mapsto> version, ''stream'' \<mapsto> stream_kind s] ++ map_of r"
  using assms by (auto simp: stream_write_def map_of_dict_update fun_eq_iff map_add_def split: option.split)

lemma make_benchmark_record_fields [simp]:
  "outcome (make_benchmark_record r w b order c bytes ph ws we episode err late acks dups ids) = outcome r"
  "initiated_ns (make_benchmark_record r w b order c bytes ph ws we episode err late acks dups ids) = initiated_ns r"
  "completed_ns (make_benchmark_record r w b order c bytes ph ws we episode err late acks dups ids) = completed_ns r"
  "rr_sequence_id (make_benchmark_record r w b order c bytes ph ws we episode err late acks dups ids) = rr_sequence_id r"
  "ack_count (make_benchmark_record r w b order c bytes ph ws we episode err late acks dups ids) = acks"
  "duplicate_ack_count (make_benchmark_record r w b order c bytes ph ws we episode err late acks dups ids) = Some dups"
  "phase (make_benchmark_record r w b order c bytes ph ws we episode err late acks dups ids) = ph"
  "workload (make_benchmark_record r w b order c bytes ph ws we episode err late acks dups ids) = w"
  "rec_window_start (make_benchmark_record r w b order c bytes ph ws we episode err late acks dups ids) = ws"
  "rec_window_end (make_benchmark_record r w b order c bytes ph ws we episode err late acks dups ids) = we"
  "send_errcode (make_benchmark_record r w b order c bytes ph ws we episode err late acks dups ids) = err"
  "live_recovery_episode (make_benchmark_record r w b order c bytes ph ws we episode err late acks dups ids) = episode"
  "late_ack_ns (make_benchmark_record r w b order c bytes ph ws we episode err late acks dups ids) = late"
  by (simp_all add: make_benchmark_record_def runner_record.defs benchmark_record.defs)

end
