(* ===== verification/Engine.thy ===== *)
theory Engine
  imports Human Streams "HOL-Library.Multiset"
begin

text \<open>
  \<^verbatim>\<open>src/fam/benchmark/engine.py\<close>: the two E3 workloads. Interactions are those of the
  participant; \<open>request\<close> (run to its return, whatever else happens meanwhile) and the clock
  are arguments over a state of the world. The slots of the throughput loop are a step
  relation, its accounting a function of the interactions they returned.
\<close>

definition EXPERIMENT :: string where "EXPERIMENT = ''E3''"
definition PHASE_WARMUP :: string where "PHASE_WARMUP = ''warmup''"
definition PHASE_WINDOW :: string where "PHASE_WINDOW = ''window''"
definition PHASE_DRAIN :: string where "PHASE_DRAIN = ''drain''"
definition PHASE_MEASURED :: string where "PHASE_MEASURED = ''measured''"

lemmas phase_names = PHASE_WARMUP_def PHASE_WINDOW_def PHASE_DRAIN_def PHASE_MEASURED_def

record run_config =
  rc_run_id :: string
  rc_workload :: string
  rc_block_id :: string
  rc_within_block_order :: nat
  rc_topology_name :: string
  rc_receiver_role :: string
  rc_sender :: string
  rc_room_id :: string
  rc_concurrency :: nat
  rc_body_bytes :: int
  rc_timeout_seconds :: rat
  rc_warmup_interactions :: nat
  rc_measured_interactions :: nat
  rc_warmup_seconds :: rat
  rc_measurement_seconds :: rat
  rc_drain_seconds :: rat

definition make_run_config ::
  "string \<Rightarrow> string \<Rightarrow> string \<Rightarrow> nat \<Rightarrow> string \<Rightarrow> string \<Rightarrow> string \<Rightarrow> string \<Rightarrow> nat \<Rightarrow> run_config" where
  "make_run_config rid w b order topo role sndr room c =
     \<lparr>rc_run_id = rid, rc_workload = w, rc_block_id = b, rc_within_block_order = order,
      rc_topology_name = topo, rc_receiver_role = role, rc_sender = sndr, rc_room_id = room,
      rc_concurrency = c, rc_body_bytes = E3_BODY_BYTES,
      rc_timeout_seconds = DEFAULT_INTERACTION_TIMEOUT_SECONDS,
      rc_warmup_interactions = E3_LATENCY_WARMUP_INTERACTIONS,
      rc_measured_interactions = E3_LATENCY_MEASURED_INTERACTIONS,
      rc_warmup_seconds = E3_WARMUP_SECONDS, rc_measurement_seconds = E3_MEASUREMENT_SECONDS,
      rc_drain_seconds = E3_DRAIN_SECONDS\<rparr>"

record workload_result =
  wr_records :: "benchmark_record list"
  wr_window_start :: "int option"
  wr_window_end :: "int option"
  wr_drain_end :: "int option"
  wr_loop_start :: "int option"
  wr_initiated :: nat
  wr_warmup_initiated :: nat
  wr_rate_limited_sends :: nat
  wr_send_errors :: nat
  wr_rate_limit_errcodes :: "string list"
  wr_outstanding_at_window_start :: nat
  wr_outstanding_at_window_end :: nat
  wr_duplicate_ack_observations :: nat
  wr_requests_with_duplicate_acks :: nat

definition new_workload_result :: workload_result where
  "new_workload_result = \<lparr>wr_records = [], wr_window_start = None, wr_window_end = None,
     wr_drain_end = None, wr_loop_start = None, wr_initiated = 0, wr_warmup_initiated = 0,
     wr_rate_limited_sends = 0, wr_send_errors = 0, wr_rate_limit_errcodes = [],
     wr_outstanding_at_window_start = 0, wr_outstanding_at_window_end = 0,
     wr_duplicate_ack_observations = 0, wr_requests_with_duplicate_acks = 0\<rparr>"

definition measured_records :: "workload_result \<Rightarrow> benchmark_record list" where
  "measured_records res = filter (\<lambda>r. phase r \<noteq> PHASE_WARMUP) (wr_records res)"

section \<open>Records\<close>

definition interaction_record ::
  "run_config \<Rightarrow> interaction \<Rightarrow> string \<Rightarrow> int option \<Rightarrow> int option \<Rightarrow> msg_error + benchmark_record" where
  "interaction_record cfg it ph ws we =
     rbind (txn_id (it_correlation it) ''response'') (\<lambda>rtxn. Inr (
       make_benchmark_record
         \<lparr>rr_experiment = EXPERIMENT, rr_topology = rc_topology_name cfg, rr_run_id = rc_run_id cfg,
          rr_sequence_id = sequence_id (it_correlation it), rr_run_phase = ph,
          rr_request_class = rc_workload cfg, rr_room_id = rc_room_id cfg, rr_sender = rc_sender cfg,
          rr_receiver_role = rc_receiver_role cfg, rr_request_txn_id = it_request_txn_id it,
          rr_request_event_id = it_request_event_id it, rr_response_txn_id = Some rtxn,
          rr_response_event_id = it_response_event_id it, initiated_ns = it_initiated it,
          completed_ns = it_completed it, outcome = outcome_value (outcome_of it),
          rr_note = it_send_error it, ack_count = 0, duplicate_ack_count = Some 0,
          duplicate_ack_event_ids = []\<rparr>
         (rc_workload cfg) (rc_block_id cfg) (rc_within_block_order cfg) (rc_concurrency cfg)
         (rc_body_bytes cfg) ph ws we (it_recovery_episode it) (it_send_errcode it) (it_late_ack it)
         (it_ack_count it) (it_duplicate_count it) (it_duplicate_ids it)))"

section \<open>Tallies\<close>

definition tally_integrity :: "interaction \<Rightarrow> workload_result \<Rightarrow> workload_result" where
  "tally_integrity it res =
     (if it_duplicate_count it \<noteq> 0 then
        res\<lparr>wr_duplicate_ack_observations := wr_duplicate_ack_observations res + it_duplicate_count it,
            wr_requests_with_duplicate_acks := wr_requests_with_duplicate_acks res + 1\<rparr>
      else res)"

definition tally_send :: "interaction \<Rightarrow> workload_result \<Rightarrow> workload_result" where
  "tally_send it res =
     (if it_send_errcode it = [] then res
      else let res1 = res\<lparr>wr_send_errors := wr_send_errors res + 1,
             wr_rate_limit_errcodes := wr_rate_limit_errcodes res @ [it_send_errcode it]\<rparr>
        in if it_rate_limited it then res1\<lparr>wr_rate_limited_sends := wr_rate_limited_sends res1 + 1\<rparr>
           else res1)"

text \<open>
  What both workloads do with one returned interaction: count it, tally it, and append its
  record under a phase label.
\<close>

definition account_one ::
  "run_config \<Rightarrow> string \<Rightarrow> int option \<Rightarrow> int option \<Rightarrow> interaction \<Rightarrow> workload_result \<Rightarrow>
   msg_error + workload_result" where
  "account_one cfg ph ws we it res =
     rbind (interaction_record cfg it ph ws we) (\<lambda>r.
       let res1 = tally_integrity it (tally_send it (res\<lparr>wr_initiated := wr_initiated res + 1\<rparr>));
           res2 = (if ph = PHASE_WARMUP
             then res1\<lparr>wr_warmup_initiated := wr_warmup_initiated res1 + 1\<rparr> else res1)
       in Inr (res2\<lparr>wr_records := wr_records res2 @ [r]\<rparr>))"

section \<open>Workload A: latency\<close>

fun latency_phase ::
  "(correlation \<Rightarrow> 'w \<Rightarrow> (exn + interaction) \<times> 'w) \<Rightarrow> run_config \<Rightarrow> string \<Rightarrow> nat \<Rightarrow> nat \<Rightarrow>
   workload_result \<Rightarrow> 'w \<Rightarrow> (exn + workload_result) \<times> 'w" where
  "latency_phase request cfg ph 0 q res w = (Inr res, w)"
| "latency_phase request cfg ph (Suc n) q res w =
     (case make_correlation EXPERIMENT (rc_run_id cfg) (int q) of
        Inl _ \<Rightarrow> (Inl ValueError, w)
      | Inr c \<Rightarrow> (case request c w of
          (Inl x, w') \<Rightarrow> (Inl x, w')
        | (Inr it, w') \<Rightarrow> (case account_one cfg ph None None it res of
            Inl _ \<Rightarrow> (Inl ValueError, w')
          | Inr res' \<Rightarrow> latency_phase request cfg ph n (Suc q) res' w')))"

definition run_latency_workload ::
  "(correlation \<Rightarrow> 'w \<Rightarrow> (exn + interaction) \<times> 'w) \<Rightarrow> ('w \<Rightarrow> int \<times> 'w) \<Rightarrow> ('w \<Rightarrow> int) \<Rightarrow>
   run_config \<Rightarrow> 'w \<Rightarrow> (exn + workload_result) \<times> 'w" where
  "run_latency_workload request clock outstanding cfg w0 =
     (let (t0, w1) = clock w0; res0 = new_workload_result\<lparr>wr_loop_start := Some t0\<rparr> in
      case latency_phase request cfg PHASE_WARMUP (rc_warmup_interactions cfg) 1 res0 w1 of
        (Inl x, w2) \<Rightarrow> (Inl x, w2)
      | (Inr res1, w2) \<Rightarrow>
          if outstanding w2 \<noteq> 0 then (Inl RuntimeError, w2)
          else let (t1, w3) = clock w2 in
            case latency_phase request cfg PHASE_MEASURED (rc_measured_interactions cfg)
                   (1 + rc_warmup_interactions cfg) (res1\<lparr>wr_window_start := Some t1\<rparr>) w3 of
              (Inl x, w4) \<Rightarrow> (Inl x, w4)
            | (Inr res2, w4) \<Rightarrow> (let (t2, w5) = clock w4 in
                (Inr (res2\<lparr>wr_window_end := Some t2, wr_drain_end := Some t2\<rparr>), w5)))"

section \<open>Workload B: throughput\<close>

text \<open>\<open>int(seconds * 1e9)\<close>: truncation towards zero.\<close>

definition nanoseconds :: "rat \<Rightarrow> int" where
  "nanoseconds s = (if s < 0 then - \<lfloor>- (s * 1000000000)\<rfloor> else \<lfloor>s * 1000000000\<rfloor>)"

definition window_bounds :: "run_config \<Rightarrow> int \<Rightarrow> int \<times> int \<times> int" where
  "window_bounds cfg start =
     (let ws = start + nanoseconds (rc_warmup_seconds cfg);
          we = ws + nanoseconds (rc_measurement_seconds cfg)
      in (ws, we, we + nanoseconds (rc_drain_seconds cfg)))"

definition phase_of :: "int \<Rightarrow> int \<Rightarrow> interaction \<Rightarrow> string" where
  "phase_of ws we it = (case it_completed it of
     None \<Rightarrow> if it_initiated it < ws then PHASE_WARMUP else PHASE_WINDOW
   | Some f \<Rightarrow> if f < ws then PHASE_WARMUP else if f < we then PHASE_WINDOW else PHASE_DRAIN)"

definition outstanding_at :: "int \<Rightarrow> interaction \<Rightarrow> bool" where
  "outstanding_at t it \<longleftrightarrow> it_initiated it < t \<and> (case it_completed it of None \<Rightarrow> True | Some f \<Rightarrow> t \<le> f)"

text \<open>The accounting of the loop, with its two lists of outstanding interactions.\<close>

fun account ::
  "run_config \<Rightarrow> int \<Rightarrow> int \<Rightarrow> interaction list \<Rightarrow> workload_result \<Rightarrow> interaction list \<Rightarrow> interaction list \<Rightarrow>
   msg_error + workload_result" where
  "account cfg ws we [] res before pend =
     Inr (res\<lparr>wr_outstanding_at_window_start := length before, wr_outstanding_at_window_end := length pend\<rparr>)"
| "account cfg ws we (it # its) res before pend =
     rbind (account_one cfg (phase_of ws we it) (Some ws) (Some we) it res) (\<lambda>res'.
       account cfg ws we its res'
         (if outstanding_at ws it then before @ [it] else before)
         (if outstanding_at we it then pend @ [it] else pend))"

text \<open>
  One slot of the closed loop is idle, before its test of the clock, waits for the request
  it sent, or has stopped. \<open>now\<close> is the reading of the monotonic clock at a step.
\<close>

datatype slot = Idle | Busy nat | Stopped

record closed_loop =
  next_sequence :: nat
  slots :: "slot list"
  completed_its :: "interaction list"
  loop_now :: int

definition start_loop :: "nat \<Rightarrow> int \<Rightarrow> closed_loop" where
  "start_loop c start = \<lparr>next_sequence = 1, slots = replicate c Idle, completed_its = [], loop_now = start\<rparr>"

inductive slot_step :: "int \<Rightarrow> closed_loop \<Rightarrow> closed_loop \<Rightarrow> bool" for window_end where
  slot_initiates: "i < length (slots l) \<Longrightarrow> slots l ! i = Idle \<Longrightarrow> loop_now l \<le> now \<Longrightarrow> now < window_end \<Longrightarrow>
    slot_step window_end l (l\<lparr>slots := (slots l)[i := Busy (next_sequence l)],
      next_sequence := next_sequence l + 1, loop_now := now\<rparr>)"
| slot_returns: "i < length (slots l) \<Longrightarrow> slots l ! i = Busy q \<Longrightarrow> loop_now l \<le> now \<Longrightarrow>
    sequence_id (it_correlation it) = int q \<Longrightarrow>
    slot_step window_end l (l\<lparr>slots := (slots l)[i := Idle], completed_its := completed_its l @ [it],
      loop_now := now\<rparr>)"
| slot_stops: "i < length (slots l) \<Longrightarrow> slots l ! i = Idle \<Longrightarrow> loop_now l \<le> now \<Longrightarrow> window_end \<le> now \<Longrightarrow>
    slot_step window_end l (l\<lparr>slots := (slots l)[i := Stopped], loop_now := now\<rparr>)"

abbreviation slot_steps :: "int \<Rightarrow> closed_loop \<Rightarrow> closed_loop \<Rightarrow> bool" where
  "slot_steps window_end \<equiv> (slot_step window_end)\<^sup>*\<^sup>*"

definition gathered :: "closed_loop \<Rightarrow> bool" where
  "gathered l \<longleftrightarrow> (\<forall>s \<in> set (slots l). s = Stopped)"

text \<open>The workload, with the closed loop run to its end as an argument.\<close>

definition run_throughput_workload ::
  "(int \<Rightarrow> 'w \<Rightarrow> (exn + interaction list) \<times> 'w) \<Rightarrow> ('w \<Rightarrow> int \<times> 'w) \<Rightarrow> run_config \<Rightarrow> 'w \<Rightarrow>
   (exn + workload_result) \<times> 'w" where
  "run_throughput_workload loop clock cfg w0 =
     (let (t0, w1) = clock w0; (ws, we, de) = window_bounds cfg t0 in
      case loop we w1 of
        (Inl x, w2) \<Rightarrow> (Inl x, w2)
      | (Inr its, w2) \<Rightarrow>
          (case account cfg ws we its (new_workload_result\<lparr>wr_loop_start := Some t0,
               wr_window_start := Some ws, wr_window_end := Some we, wr_drain_end := Some de\<rparr>) [] [] of
             Inl _ \<Rightarrow> Inl ValueError
           | Inr res \<Rightarrow> Inr res, w2))"

definition run_workload ::
  "(run_config \<Rightarrow> 'w \<Rightarrow> (exn + workload_result) \<times> 'w) \<Rightarrow> (run_config \<Rightarrow> 'w \<Rightarrow> (exn + workload_result) \<times> 'w) \<Rightarrow>
   run_config \<Rightarrow> 'w \<Rightarrow> (exn + workload_result) \<times> 'w" where
  "run_workload latency throughput cfg w =
     (if rc_workload cfg = E3_WORKLOAD_LATENCY then latency cfg w
      else if rc_workload cfg = E3_WORKLOAD_THROUGHPUT then throughput cfg w
      else (Inl ValueError, w))"

section \<open>Lemmas on records and tallies\<close>

text \<open>What a record says of its interaction.\<close>

definition records_of :: "string \<Rightarrow> interaction \<Rightarrow> benchmark_record \<Rightarrow> bool" where
  "records_of ph it r \<longleftrightarrow> phase r = ph \<and> rr_sequence_id r = sequence_id (it_correlation it) \<and>
     initiated_ns r = it_initiated it \<and> completed_ns r = it_completed it \<and>
     outcome r = outcome_value (outcome_of it) \<and> send_errcode r = it_send_errcode it \<and>
     late_ack_ns r = it_late_ack it \<and> ack_count r = it_ack_count it \<and>
     duplicate_ack_count r = Some (it_duplicate_count it)"

lemma interaction_record_of: "interaction_record cfg it ph ws we = Inr r \<Longrightarrow> records_of ph it r"
  by (auto simp: interaction_record_def rbind_eq_Inr records_of_def)

lemma interaction_record_extra:
  "interaction_record cfg it ph ws we = Inr r \<Longrightarrow>
    workload r = rc_workload cfg \<and> rec_window_start r = ws \<and> rec_window_end r = we"
  by (auto simp: interaction_record_def rbind_eq_Inr)

definition accounted :: "workload_result \<Rightarrow> bool" where
  "accounted res \<longleftrightarrow>
     wr_initiated res = length (wr_records res) \<and>
     wr_warmup_initiated res + length (measured_records res) = wr_initiated res \<and>
     wr_send_errors res = length (filter (\<lambda>r. outcome r = outcome_value SEND_ERROR) (wr_records res)) \<and>
     wr_rate_limit_errcodes res = filter (\<lambda>e. e \<noteq> []) (map send_errcode (wr_records res)) \<and>
     wr_rate_limited_sends res = count_list (map send_errcode (wr_records res)) ''M_LIMIT_EXCEEDED'' \<and>
     wr_duplicate_ack_observations res = sum_list (map (the \<circ> duplicate_ack_count) (wr_records res)) \<and>
     wr_requests_with_duplicate_acks res =
       length (filter (\<lambda>r. duplicate_ack_count r \<noteq> Some 0) (wr_records res))"

lemma tallies_frame [simp]:
  "wr_records (tally_send it res) = wr_records res" "wr_records (tally_integrity it res) = wr_records res"
  "wr_initiated (tally_send it res) = wr_initiated res" "wr_initiated (tally_integrity it res) = wr_initiated res"
  "wr_warmup_initiated (tally_send it res) = wr_warmup_initiated res"
  "wr_warmup_initiated (tally_integrity it res) = wr_warmup_initiated res"
  "wr_send_errors (tally_integrity it res) = wr_send_errors res"
  "wr_rate_limit_errcodes (tally_integrity it res) = wr_rate_limit_errcodes res"
  "wr_rate_limited_sends (tally_integrity it res) = wr_rate_limited_sends res"
  "wr_duplicate_ack_observations (tally_send it res) = wr_duplicate_ack_observations res"
  "wr_requests_with_duplicate_acks (tally_send it res) = wr_requests_with_duplicate_acks res"
  by (simp_all add: tally_send_def tally_integrity_def Let_def)

lemma tally_send_counts:
  "wr_send_errors (tally_send it res) = wr_send_errors res + of_bool (outcome_of it = SEND_ERROR)"
  "wr_rate_limit_errcodes (tally_send it res) =
    wr_rate_limit_errcodes res @ filter (\<lambda>e. e \<noteq> []) [it_send_errcode it]"
  "wr_rate_limited_sends (tally_send it res) =
    wr_rate_limited_sends res + of_bool (it_send_errcode it = ''M_LIMIT_EXCEEDED'')"
  by (simp_all add: tally_send_def Let_def it_rate_limited_def outcome_of_def)

lemma tally_integrity_counts:
  "wr_duplicate_ack_observations (tally_integrity it res) =
    wr_duplicate_ack_observations res + it_duplicate_count it"
  "wr_requests_with_duplicate_acks (tally_integrity it res) =
    wr_requests_with_duplicate_acks res + of_bool (it_duplicate_count it \<noteq> 0)"
  by (simp_all add: tally_integrity_def)

lemma account_one_appends:
  assumes "account_one cfg ph ws we it res = Inr res'"
  obtains r where "interaction_record cfg it ph ws we = Inr r" "wr_records res' = wr_records res @ [r]"
    "wr_initiated res' = wr_initiated res + 1"
    "wr_warmup_initiated res' = wr_warmup_initiated res + of_bool (ph = PHASE_WARMUP)"
    "wr_send_errors res' = wr_send_errors res + of_bool (outcome_of it = SEND_ERROR)"
    "wr_rate_limit_errcodes res' = wr_rate_limit_errcodes res @ filter (\<lambda>e. e \<noteq> []) [it_send_errcode it]"
    "wr_rate_limited_sends res' = wr_rate_limited_sends res + of_bool (it_send_errcode it = ''M_LIMIT_EXCEEDED'')"
    "wr_duplicate_ack_observations res' = wr_duplicate_ack_observations res + it_duplicate_count it"
    "wr_requests_with_duplicate_acks res' =
       wr_requests_with_duplicate_acks res + of_bool (it_duplicate_count it \<noteq> 0)"
proof -
  from assms obtain r where r: "interaction_record cfg it ph ws we = Inr r"
    by (auto simp: account_one_def rbind_eq_Inr)
  show thesis
    by (rule that [OF r]) (use assms in \<open>auto simp: account_one_def r Let_def tally_send_counts
      tally_integrity_counts\<close>)
qed

lemma account_one_accounted [step_inv]:
  assumes "account_one cfg ph ws we it res = Inr res'" and "accounted res"
  shows "accounted res'"
  using assms(1)
proof (rule account_one_appends)
  fix r
  assume "interaction_record cfg it ph ws we = Inr r"
  then have "records_of ph it r" by (rule interaction_record_of)
  moreover assume "wr_records res' = wr_records res @ [r]"
    "wr_initiated res' = wr_initiated res + 1"
    "wr_warmup_initiated res' = wr_warmup_initiated res + of_bool (ph = PHASE_WARMUP)"
    "wr_send_errors res' = wr_send_errors res + of_bool (outcome_of it = SEND_ERROR)"
    "wr_rate_limit_errcodes res' = wr_rate_limit_errcodes res @ filter (\<lambda>e. e \<noteq> []) [it_send_errcode it]"
    "wr_rate_limited_sends res' = wr_rate_limited_sends res + of_bool (it_send_errcode it = ''M_LIMIT_EXCEEDED'')"
    "wr_duplicate_ack_observations res' = wr_duplicate_ack_observations res + it_duplicate_count it"
    "wr_requests_with_duplicate_acks res' =
       wr_requests_with_duplicate_acks res + of_bool (it_duplicate_count it \<noteq> 0)"
  ultimately show ?thesis
    using assms(2) by (simp add: accounted_def records_of_def measured_records_def del: outcome_value.simps)
qed

lemma accounted_new [simp]: "accounted new_workload_result"
  by (simp add: accounted_def new_workload_result_def measured_records_def)

lemma new_workload_result_empty [simp]: "wr_records new_workload_result = []"
  by (simp add: new_workload_result_def)

lemma accounted_times [simp]:
  "accounted (res\<lparr>wr_loop_start := a\<rparr>) = accounted res" "accounted (res\<lparr>wr_window_start := a\<rparr>) = accounted res"
  "accounted (res\<lparr>wr_window_end := a\<rparr>) = accounted res" "accounted (res\<lparr>wr_drain_end := a\<rparr>) = accounted res"
  "accounted (res\<lparr>wr_outstanding_at_window_start := n\<rparr>) = accounted res"
  "accounted (res\<lparr>wr_outstanding_at_window_end := n\<rparr>) = accounted res"
  by (simp_all add: accounted_def measured_records_def)

section \<open>Lemmas on the latency workload\<close>

text \<open>
  A phase appends one record per interaction, in the order of the sequence numbers, if
  \<open>request\<close> returns the interaction of the correlation it was given.
\<close>

definition answers_its_request :: "(correlation \<Rightarrow> 'w \<Rightarrow> (exn + interaction) \<times> 'w) \<Rightarrow> bool" where
  "answers_its_request request \<longleftrightarrow> (\<forall>c w it w'. request c w = (Inr it, w') \<longrightarrow> it_correlation it = c)"

lemma latency_phase_records:
  assumes "answers_its_request request"
    and "latency_phase request cfg ph n q res w = (Inr res', w')" and "accounted res"
  shows "accounted res' \<and> (\<exists>rs. wr_records res' = wr_records res @ rs \<and>
    map rr_sequence_id rs = map int [q..<q + n] \<and> (\<forall>r \<in> set rs. phase r = ph))"
  using assms(2,3)
proof (induction n arbitrary: q res w)
  case (Suc n)
  from Suc.prems(1) obtain c it w1 res1
    where c: "make_correlation EXPERIMENT (rc_run_id cfg) (int q) = Inr c" and it: "request c w = (Inr it, w1)"
      and one: "account_one cfg ph None None it res = Inr res1"
      and rest: "latency_phase request cfg ph n (Suc q) res1 w1 = (Inr res', w')"
    by (auto split: sum.splits prod.splits)
  have "sequence_id c = int q" using c by (auto simp: make_correlation_def rbind_eq_Inr)
  moreover have "it_correlation it = c" using assms(1) it by (auto simp: answers_its_request_def)
  ultimately have seq: "sequence_id (it_correlation it) = int q" by simp
  from Suc.IH [OF rest account_one_accounted [OF one Suc.prems(2)]]
  obtain rs where rs: "accounted res'" "wr_records res' = wr_records res1 @ rs"
    "map rr_sequence_id rs = map int [Suc q..<Suc q + n]" "\<forall>r \<in> set rs. phase r = ph" by blast
  from one obtain r where r: "records_of ph it r" "wr_records res1 = wr_records res @ [r]"
    by (rule account_one_appends) (blast dest: interaction_record_of)
  have "[q..<q + Suc n] = q # [Suc q..<Suc q + n]" by (simp add: upt_rec)
  with rs r seq have "wr_records res' = wr_records res @ (r # rs)"
    "map rr_sequence_id (r # rs) = map int [q..<q + Suc n]" "\<forall>r' \<in> set (r # rs). phase r' = ph"
    by (auto simp: records_of_def)
  with rs(1) show ?case by blast
qed auto

section \<open>Lemmas on the throughput workload\<close>

text \<open>The same classifications, read off a record.\<close>

definition record_phase :: "int \<Rightarrow> int \<Rightarrow> benchmark_record \<Rightarrow> string" where
  "record_phase ws we r = (case completed_ns r of
     None \<Rightarrow> if initiated_ns r < ws then PHASE_WARMUP else PHASE_WINDOW
   | Some f \<Rightarrow> if f < ws then PHASE_WARMUP else if f < we then PHASE_WINDOW else PHASE_DRAIN)"

definition record_outstanding :: "int \<Rightarrow> benchmark_record \<Rightarrow> bool" where
  "record_outstanding t r \<longleftrightarrow> initiated_ns r < t \<and> (case completed_ns r of None \<Rightarrow> True | Some f \<Rightarrow> t \<le> f)"

lemma account_exact:
  assumes "account cfg ws we its res before pend = Inr res'" and "accounted res"
  shows "accounted res' \<and> (\<exists>rs. wr_records res' = wr_records res @ rs \<and>
    map rr_sequence_id rs = map (\<lambda>it. sequence_id (it_correlation it)) its \<and>
    (\<forall>r \<in> set rs. phase r = record_phase ws we r \<and> rec_window_start r = Some ws \<and> rec_window_end r = Some we) \<and>
    wr_outstanding_at_window_start res' = length before + length (filter (record_outstanding ws) rs) \<and>
    wr_outstanding_at_window_end res' = length pend + length (filter (record_outstanding we) rs))"
  using assms
proof (induction its arbitrary: res before pend)
  case (Cons it its)
  from Cons.prems(1) obtain res1
    where one: "account_one cfg (phase_of ws we it) (Some ws) (Some we) it res = Inr res1"
      and rest: "account cfg ws we its res1 (if outstanding_at ws it then before @ [it] else before)
        (if outstanding_at we it then pend @ [it] else pend) = Inr res'"
    by (auto simp: rbind_eq_Inr)
  from one obtain r where r: "interaction_record cfg it (phase_of ws we it) (Some ws) (Some we) = Inr r"
    "wr_records res1 = wr_records res @ [r]" by (rule account_one_appends) blast
  note of = interaction_record_of [OF r(1)] interaction_record_extra [OF r(1)]
  have "phase_of ws we it = record_phase ws we r" "outstanding_at t it = record_outstanding t r" for t
    using of by (simp_all add: records_of_def phase_of_def record_phase_def outstanding_at_def record_outstanding_def)
  with Cons.IH [OF rest account_one_accounted [OF one Cons.prems(2)]] r(2) of
  obtain rs where "accounted res'" "wr_records res' = wr_records res @ (r # rs)"
    "map rr_sequence_id (r # rs) = map (\<lambda>it. sequence_id (it_correlation it)) (it # its)"
    "\<forall>r' \<in> set (r # rs). phase r' = record_phase ws we r' \<and> rec_window_start r' = Some ws \<and> rec_window_end r' = Some we"
    "wr_outstanding_at_window_start res' = length before + length (filter (record_outstanding ws) (r # rs))"
    "wr_outstanding_at_window_end res' = length pend + length (filter (record_outstanding we) (r # rs))"
    by (auto simp: records_of_def)
  then show ?case by blast
qed auto

text \<open>The sequence numbers given out are the busy ones and the completed ones.\<close>

definition busy_sequences :: "slot list \<Rightarrow> nat multiset" where
  "busy_sequences ss = mset (concat (map (\<lambda>s. case s of Busy q \<Rightarrow> [q] | _ \<Rightarrow> []) ss))"

definition loop_ok :: "nat \<Rightarrow> closed_loop \<Rightarrow> bool" where
  "loop_ok c l \<longleftrightarrow> length (slots l) = c \<and>
     image_mset int (busy_sequences (slots l)) + mset (map (\<lambda>it. sequence_id (it_correlation it)) (completed_its l)) =
       mset (map int [1..<next_sequence l]) \<and> 1 \<le> next_sequence l"

lemma mset_update_at:
  "i < length xs \<Longrightarrow> mset (concat (map f (xs[i := x]))) + mset (f (xs ! i)) = mset (concat (map f xs)) + mset (f x)"
proof (induction xs arbitrary: i)
  case (Cons y ys)
  then show ?case by (cases i) (auto simp: ac_simps)
qed simp

lemma busy_update:
  assumes "i < length ss"
  shows "ss ! i = Idle \<Longrightarrow> busy_sequences (ss[i := Busy q]) = add_mset q (busy_sequences ss)"
    and "ss ! i = Busy q \<Longrightarrow> add_mset q (busy_sequences (ss[i := Idle])) = busy_sequences ss"
    and "ss ! i = Idle \<Longrightarrow> busy_sequences (ss[i := Stopped]) = busy_sequences ss"
  using mset_update_at [OF assms, of "\<lambda>s. case s of Busy q \<Rightarrow> [q] | _ \<Rightarrow> []"]
  by (auto simp: busy_sequences_def)

lemma slot_step_ok [step_inv]: "slot_step we l l' \<Longrightarrow> loop_ok c l \<Longrightarrow> loop_ok c l'"
proof (induction rule: slot_step.induct)
  case (slot_initiates i l now)
  then show ?case by (simp add: loop_ok_def busy_update(1))
next
  case (slot_returns i l q now it)
  from busy_update(2) [OF slot_returns(1,2)]
  have "image_mset int (busy_sequences (slots l)) =
      add_mset (int q) (image_mset int (busy_sequences ((slots l)[i := Idle])))"
    by (metis image_mset_add_mset)
  with slot_returns show ?case by (simp add: loop_ok_def)
next
  case (slot_stops i l now)
  then show ?case by (simp add: loop_ok_def busy_update(3))
qed

lemma start_loop_ok: "loop_ok c (start_loop c start)"
proof -
  have "busy_sequences (replicate c Idle) = {#}" by (induction c) (simp_all add: busy_sequences_def)
  then show ?thesis by (simp add: loop_ok_def start_loop_def)
qed

lemma slot_steps_ok: "slot_steps we (start_loop c start) l \<Longrightarrow> loop_ok c l"
  by (induction rule: rtranclp_induct) (auto simp: start_loop_ok intro: slot_step_ok)

lemma busy_at_most: "size (busy_sequences ss) \<le> length ss"
  by (induction ss) (auto simp: busy_sequences_def split: slot.splits)

lemma none_busy: "\<forall>s \<in> set ss. s = Stopped \<Longrightarrow> busy_sequences ss = {#}"
  by (induction ss) (simp_all add: busy_sequences_def)

text \<open>Work left to a slot once nothing is initiated any more.\<close>

fun slot_work :: "slot \<Rightarrow> nat" where
  "slot_work (Busy _) = 2" | "slot_work Idle = 1" | "slot_work Stopped = 0"

definition work :: "closed_loop \<Rightarrow> nat" where
  "work l = sum_list (map slot_work (slots l))"

lemma work_update:
  "i < length ss \<Longrightarrow> sum_list (map slot_work (ss[i := s])) + slot_work (ss ! i) =
    sum_list (map slot_work ss) + slot_work s"
proof (induction ss arbitrary: i)
  case (Cons x ss)
  then show ?case by (cases i) auto
qed simp

lemma late_step:
  "slot_step we l l' \<Longrightarrow> we \<le> loop_now l \<Longrightarrow>
    work l' + 1 = work l \<and> next_sequence l' = next_sequence l \<and> we \<le> loop_now l'"
proof (induction rule: slot_step.induct)
  case (slot_returns i l q now it)
  with work_update [OF slot_returns(1), of Idle] show ?case by (simp add: work_def)
next
  case (slot_stops i l now)
  with work_update [OF slot_stops(1), of Stopped] show ?case by (simp add: work_def)
qed auto

lemma late_steps:
  "(slot_step we ^^ n) l l' \<Longrightarrow> we \<le> loop_now l \<Longrightarrow>
    work l' + n = work l \<and> next_sequence l' = next_sequence l \<and> we \<le> loop_now l'"
proof (induction n arbitrary: l')
  case (Suc n)
  then obtain m where "(slot_step we ^^ n) l m" "slot_step we m l'" by auto
  with Suc.IH [of m] Suc.prems(2) late_step [of we m l'] show ?case by simp
qed simp

lemma work_bound: "work l \<le> 2 * length (slots l)"
proof -
  have "sum_list (map slot_work ss) \<le> 2 * length ss" for ss
  proof (induction ss)
    case (Cons s ss)
    then show ?case by (cases s) auto
  qed simp
  then show ?thesis by (simp add: work_def)
qed

lemma late_progress:
  assumes "\<not> gathered l" and "we \<le> loop_now l"
  shows "\<exists>l'. slot_step we l l'"
proof -
  from assms(1) obtain i where i: "i < length (slots l)" "slots l ! i \<noteq> Stopped"
    by (auto simp: gathered_def in_set_conv_nth)
  show ?thesis
  proof (cases "slots l ! i")
    case Idle
    from slot_stops [OF i(1) Idle order_refl assms(2)] show ?thesis by blast
  next
    case (Busy q)
    from slot_returns [OF i(1) Busy order_refl,
        of "new_interaction (\<lparr>experiment_name = [], run_id = [], sequence_id = int q\<rparr>) [] 0 Awaiting"]
    show ?thesis by auto
  qed (use i in simp)
qed

section \<open>Properties\<close>

text \<open>
  C11: If \<open>request\<close> returns the interaction it was asked for, a latency run that returns has
  one record per interaction, with the sequence numbers 1, 2, ... in order, the warm-up
  ones first and labelled so and exactly the others measured; every total of the result is
  the one its records give.
\<close>

theorem latency_run_exact:
  assumes "answers_its_request request"
    and "run_latency_workload request clock outstanding cfg w = (Inr res, w')"
  shows "map rr_sequence_id (wr_records res) =
      map int [1..<1 + rc_warmup_interactions cfg + rc_measured_interactions cfg] \<and>
    measured_records res = drop (rc_warmup_interactions cfg) (wr_records res) \<and>
    length (measured_records res) = rc_measured_interactions cfg \<and> accounted res"
proof -
  let ?W = "rc_warmup_interactions cfg" and ?M = "rc_measured_interactions cfg"
  obtain t0 w1 res1 w2 t1 w3 res2 w4 where
    warm: "latency_phase request cfg PHASE_WARMUP ?W 1 (new_workload_result\<lparr>wr_loop_start := Some t0\<rparr>) w1 = (Inr res1, w2)"
    and meas: "latency_phase request cfg PHASE_MEASURED ?M (1 + ?W) (res1\<lparr>wr_window_start := Some t1\<rparr>) w3 = (Inr res2, w4)"
    and res: "wr_records res = wr_records res2" "accounted res = accounted res2"
    using assms(2) unfolding run_latency_workload_def Let_def
    by (fastforce split: prod.splits sum.splits if_splits)
  from latency_phase_records [OF assms(1) warm] obtain rs1 where
    1: "accounted res1" "wr_records res1 = rs1" "map rr_sequence_id rs1 = map int [1..<1 + ?W]"
      "\<forall>r \<in> set rs1. phase r = PHASE_WARMUP" by (auto simp del: upt_Suc)
  from latency_phase_records [OF assms(1) meas] 1 obtain rs2 where
    2: "accounted res2" "wr_records res2 = rs1 @ rs2" "map rr_sequence_id rs2 = map int [1 + ?W..<1 + ?W + ?M]"
      "\<forall>r \<in> set rs2. phase r = PHASE_MEASURED" by auto
  have len: "length rs1 = ?W" "length rs2 = ?M"
    using arg_cong [OF 1(3), of length] arg_cong [OF 2(3), of length] by simp_all
  have seqs: "map rr_sequence_id (rs1 @ rs2) = map int [1..<1 + ?W + ?M]"
    unfolding map_append 1(3) 2(3) by (simp only: map_append [symmetric] upt_add_eq_append [symmetric])
  have "filter (\<lambda>r. phase r \<noteq> PHASE_WARMUP) (rs1 @ rs2) = rs2"
    using 1(4) 2(4) by (simp add: filter_id_conv filter_empty_conv phase_names)
  with seqs len 2(1,2) res show ?thesis by (simp add: measured_records_def)
qed

definition example_run_config :: run_config where
  "example_run_config = (make_run_config ''r1'' E3_WORKLOAD_LATENCY ''b1'' 1 E3_TOPOLOGY_LOCAL ''agent''
     ''@h'' ''!r'' 1)\<lparr>rc_warmup_interactions := 1, rc_measured_interactions := 2\<rparr>"

definition example_request :: "correlation \<Rightarrow> int \<Rightarrow> (exn + interaction) \<times> int" where
  "example_request c t = (Inr ((new_interaction c ''t'' t Returned)\<lparr>it_completed := Some (t + 5),
     it_ack_ids := [''$a'', ''$b'']\<rparr>), t + 10)"

theorem latency_run_exact_witness:
  "\<exists>res w'. run_latency_workload example_request (\<lambda>t. (t, t + 1)) (\<lambda>_. 0) example_run_config 0 = (Inr res, w') \<and>
    map rr_sequence_id (wr_records res) = [1, 2, 3] \<and> length (measured_records res) = 2 \<and>
    wr_duplicate_ack_observations res = 3"
proof -
  have asked: "answers_its_request example_request"
    by (simp add: answers_its_request_def example_request_def)
  define run where "run = run_latency_workload example_request (\<lambda>t. (t, t + 1)) (\<lambda>_. 0) example_run_config 0"
  have "\<not> isl (fst run)" and dup: "wr_duplicate_ack_observations (projr (fst run)) = 3"
    unfolding run_def by code_simp+
  then obtain res w' where run: "run = (Inr res, w')"
    by (cases "fst run"; cases run) auto
  have size: "rc_warmup_interactions example_run_config = 1" "rc_measured_interactions example_run_config = 2"
    by (simp_all add: example_run_config_def make_run_config_def)
  from latency_run_exact [OF asked run [unfolded run_def], unfolded size]
  have "length (measured_records res) = 2" "map rr_sequence_id (wr_records res) = map int [1..<1 + 1 + 2]"
    by blast+
  then have "map rr_sequence_id (wr_records res) = [1, 2, 3]" "length (measured_records res) = 2"
    by (simp_all add: upt_rec)
  with run dup show ?thesis unfolding run_def by auto
qed

text \<open>
  C12: When the closed loop has come to its end, its accounting has one record for each
  sequence number given out; each record's phase label and the two outstanding figures
  are what the timestamps of the records themselves say, and every total of the result is
  the one its records give.
\<close>

theorem throughput_run_exact:
  assumes "slot_steps we (start_loop c start) l" and "gathered l"
    and "account cfg ws we (completed_its l) new_workload_result [] [] = Inr res"
  shows "mset (map rr_sequence_id (wr_records res)) = mset (map int [1..<next_sequence l]) \<and>
    wr_initiated res = next_sequence l - 1 \<and>
    (\<forall>r \<in> set (wr_records res). phase r = record_phase ws we r) \<and>
    wr_outstanding_at_window_start res = length (filter (record_outstanding ws) (wr_records res)) \<and>
    wr_outstanding_at_window_end res = length (filter (record_outstanding we) (wr_records res)) \<and>
    accounted res"
proof -
  from account_exact [OF assms(3)]
  have acc: "accounted res" and
    seqs: "map rr_sequence_id (wr_records res) = map (\<lambda>it. sequence_id (it_correlation it)) (completed_its l)"
    and ph: "\<forall>r \<in> set (wr_records res). phase r = record_phase ws we r"
    and out: "wr_outstanding_at_window_start res = length (filter (record_outstanding ws) (wr_records res))"
      "wr_outstanding_at_window_end res = length (filter (record_outstanding we) (wr_records res))"
    by auto
  from assms(2) have "busy_sequences (slots l) = {#}" by (simp add: gathered_def none_busy)
  with slot_steps_ok [OF assms(1)]
  have m: "mset (map rr_sequence_id (wr_records res)) = mset (map int [1..<next_sequence l])"
    by (simp add: loop_ok_def seqs)
  have "length (wr_records res) = next_sequence l - 1" using arg_cong [OF m, of size] by simp
  with acc m ph out show ?thesis by (simp add: accounted_def)
qed

definition example_interaction :: "nat \<Rightarrow> int \<Rightarrow> int option \<Rightarrow> interaction" where
  "example_interaction q t f =
     (new_interaction (\<lparr>experiment_name = ''E3'', run_id = ''r1'', sequence_id = int q\<rparr>) ''t'' t Returned)
       \<lparr>it_completed := f\<rparr>"

theorem throughput_run_exact_witness:
  "\<exists>l res. slot_steps 30 (start_loop 1 0) l \<and> gathered l \<and>
    account example_run_config 10 30 (completed_its l) new_workload_result [] [] = Inr res \<and>
    wr_initiated res = 2 \<and> wr_outstanding_at_window_end res = 1"
proof -
  let ?a = "example_interaction 1 5 (Some 12)" and ?b = "example_interaction 2 20 None"
  let ?l0 = "start_loop 1 0"
  let ?l1 = "?l0\<lparr>slots := (slots ?l0)[0 := Busy 1], next_sequence := 2, loop_now := 5\<rparr>"
  let ?l2 = "?l1\<lparr>slots := (slots ?l1)[0 := Idle], completed_its := [?a], loop_now := 12\<rparr>"
  let ?l3 = "?l2\<lparr>slots := (slots ?l2)[0 := Busy 2], next_sequence := 3, loop_now := 20\<rparr>"
  let ?l4 = "?l3\<lparr>slots := (slots ?l3)[0 := Idle], completed_its := [?a, ?b], loop_now := 40\<rparr>"
  let ?l5 = "?l4\<lparr>slots := (slots ?l4)[0 := Stopped], loop_now := 41\<rparr>"
  note slot = numeral_2_eq_2 numeral_3_eq_3 start_loop_def example_interaction_def
  have "slot_step 30 ?l0 ?l1" using slot_initiates [of 0 ?l0 5 30] by (simp add: slot)
  moreover have "slot_step 30 ?l1 ?l2" using slot_returns [of 0 ?l1 1 12 ?a 30] by (simp add: slot)
  moreover have "slot_step 30 ?l2 ?l3" using slot_initiates [of 0 ?l2 20 30] by (simp add: slot)
  moreover have "slot_step 30 ?l3 ?l4" using slot_returns [of 0 ?l3 2 40 ?b 30] by (simp add: slot)
  moreover have "slot_step 30 ?l4 ?l5" using slot_stops [of 0 ?l4 41 30] by (simp add: slot)
  ultimately have steps: "slot_steps 30 ?l0 ?l5"
    by (meson converse_rtranclp_into_rtranclp rtranclp.rtrancl_refl)
  have g: "gathered ?l5" by (simp add: gathered_def start_loop_def)
  define acc where "acc = account example_run_config 10 30 (completed_its ?l5) new_workload_result [] []"
  have "\<not> isl acc" unfolding acc_def by code_simp
  then obtain res where res: "acc = Inr res" by (cases acc) auto
  have "wr_outstanding_at_window_end (projr acc) = 1" unfolding acc_def by code_simp
  with res throughput_run_exact [OF steps g, of example_run_config 10 res] have
    "wr_initiated res = 2 \<and> wr_outstanding_at_window_end res = 1" by (simp add: acc_def)
  with steps g res show ?thesis unfolding acc_def by blast
qed

text \<open>
  C13: The closed loop never has more requests in flight than it has slots. From the end of
  the window on it initiates nothing, cannot get stuck before every slot has stopped, and
  takes at most two steps per slot to get there, so the drain ends once requests return.
\<close>

theorem closed_loop_drains:
  assumes "slot_steps we (start_loop c start) l"
  shows "size (busy_sequences (slots l)) \<le> c \<and>
    (we \<le> loop_now l \<longrightarrow>
       (\<not> gathered l \<longrightarrow> (\<exists>l'. slot_step we l l')) \<and>
       (\<forall>n l'. (slot_step we ^^ n) l l' \<longrightarrow> n \<le> 2 * c \<and> next_sequence l' = next_sequence l))"
proof -
  from slot_steps_ok [OF assms] have c: "length (slots l) = c" by (simp add: loop_ok_def)
  have "n \<le> 2 * c \<and> next_sequence l' = next_sequence l"
    if "we \<le> loop_now l" "(slot_step we ^^ n) l l'" for n l'
    using late_steps [OF that(2,1)] work_bound [of l] c by simp
  with busy_at_most [of "slots l"] late_progress [of l we] c show ?thesis by blast
qed

theorem closed_loop_drains_witness:
  "size (busy_sequences (slots (start_loop 8 0))) \<le> 8 \<and> (\<exists>l'. slot_step 0 (start_loop 8 0) l')"
proof -
  have "\<not> gathered (start_loop 8 0)" "0 \<le> loop_now (start_loop 8 0)"
    by (simp_all add: gathered_def start_loop_def)
  with closed_loop_drains [of 0 8 0 "start_loop 8 0"] show ?thesis by blast
qed

end
