(* ===== verification/Py_Float.thy ===== *)
theory Py_Float
  imports Complex_Main "HOL-Library.Log_Nat"
begin

text \<open>
  Python's \<open>float\<close> as far as the program depends on it. A float is a rational; \<open>fl\<close> is the
  double nearest to a rational (53 significant bits, ties to even; overflow and subnormal
  numbers are left out), \<open>py_round\<close> the decimal rounding of \<open>round(x, n)\<close>. Only where a
  product decides a rank does the model round it; other results are exact rationals.
\<close>

definition round_even :: "rat \<Rightarrow> int" where
  "round_even x =
     (let f = \<lfloor>x\<rfloor>; d = x - of_int f in
      if d < 1 / 2 then f else if 1 / 2 < d then f + 1 else if even f then f else f + 1)"

definition py_round :: "nat \<Rightarrow> rat \<Rightarrow> rat" where
  "py_round n x = of_int (round_even (x * 10 ^ n)) / 10 ^ n"

definition pow2 :: "int \<Rightarrow> rat" where
  "pow2 e = (if 0 \<le> e then 2 ^ nat e else 1 / 2 ^ nat (- e))"

text \<open>The binary exponent of a positive rational.\<close>

definition exponent :: "rat \<Rightarrow> int" where
  "exponent x =
     (let (a, b) = quotient_of x; e = bitlen a - bitlen b
      in if pow2 e \<le> x then e else e - 1)"

definition fl :: "rat \<Rightarrow> rat" where
  "fl x = (if x = 0 then 0
     else let u = pow2 (exponent \<bar>x\<bar> - 52) in of_int (round_even (x / u)) * u)"

section \<open>Rounding to an integer\<close>

lemma round_even_bounds: "\<bar>of_int (round_even x) - x\<bar> \<le> 1 / 2"
proof -
  have "of_int \<lfloor>x\<rfloor> \<le> x" "x < of_int \<lfloor>x\<rfloor> + 1" by linarith+
  then show ?thesis unfolding round_even_def Let_def by (auto simp: abs_le_iff)
qed

lemma round_even_of_int [simp]: "round_even (of_int n) = n"
  by (simp add: round_even_def)

lemma round_even_mono: "x \<le> y \<Longrightarrow> round_even x \<le> round_even y"
proof -
  assume le: "x \<le> y"
  have f: "of_int \<lfloor>x\<rfloor> \<le> x" "x < of_int \<lfloor>x\<rfloor> + 1" "of_int \<lfloor>y\<rfloor> \<le> y" "y < of_int \<lfloor>y\<rfloor> + 1" by linarith+
  have r: "\<lfloor>z\<rfloor> \<le> round_even z \<and> round_even z \<le> \<lfloor>z\<rfloor> + 1" for z :: rat
    by (simp add: round_even_def Let_def)
  show ?thesis
  proof (cases "\<lfloor>x\<rfloor> = \<lfloor>y\<rfloor>")
    case True
    with le show ?thesis by (auto simp: round_even_def Let_def)
  next
    case False
    with floor_mono [OF le] have "\<lfloor>x\<rfloor> + 1 \<le> \<lfloor>y\<rfloor>" by simp
    with r [of x] r [of y] show ?thesis by simp
  qed
qed

section \<open>Rounding to a double\<close>

lemma pow2_pos [simp]: "0 < pow2 e"
  by (simp add: pow2_def)

lemma pow2_add: "pow2 (a + b) = pow2 a * pow2 b"
proof -
  have p: "pow2 e = 2 powi e" for e by (simp add: pow2_def power_int_def power_one_over inverse_eq_divide)
  show ?thesis by (simp add: p power_int_add)
qed

lemma pow2_mono: "a \<le> b \<Longrightarrow> pow2 a \<le> pow2 b"
proof -
  assume "a \<le> b"
  then have "pow2 b = pow2 a * pow2 (b - a)" by (simp flip: pow2_add)
  moreover have "1 \<le> pow2 (b - a)" using \<open>a \<le> b\<close> by (simp add: pow2_def)
  ultimately show ?thesis using pow2_pos [of a] by simp
qed

lemma pow2_nat: "pow2 (int n) = 2 ^ n"
  by (simp add: pow2_def)

lemma bitlen_bounds':
  assumes "0 < (a :: int)"
  shows "pow2 (bitlen a - 1) \<le> of_int a" and "of_int a < pow2 (bitlen a)"
proof -
  have ab: "2 ^ nat (bitlen a - 1) \<le> a \<and> a < 2 ^ nat (bitlen a)" by (rule bitlen_bounds [OF assms])
  have b: "0 < bitlen a"
  proof (rule ccontr)
    assume "\<not> 0 < bitlen a"
    then have "nat (bitlen a) = 0" by simp
    with ab assms show False by simp
  qed
  from ab have "(2::rat) ^ nat (bitlen a - 1) \<le> of_int a \<and> of_int a < (2::rat) ^ nat (bitlen a)"
    by (metis of_int_less_iff of_int_le_iff of_int_numeral of_int_power)
  with b show "pow2 (bitlen a - 1) \<le> of_int a" "of_int a < pow2 (bitlen a)" by (simp_all add: pow2_def)
qed

lemma exponent_bounds:
  assumes "0 < x"
  shows "pow2 (exponent x) \<le> x" and "x < pow2 (exponent x + 1)"
proof -
  obtain a b where q: "quotient_of x = (a, b)" by (cases "quotient_of x")
  have b: "0 < b" by (rule quotient_of_denom_pos [OF q])
  have x: "x = of_int a / of_int b" by (rule quotient_of_div [OF q])
  with assms b have a: "0 < a" by (simp add: zero_less_divide_iff)
  note A = bitlen_bounds' [OF a] and B = bitlen_bounds' [OF b]
  define e where "e = bitlen a - bitlen b"
  have "x < pow2 (e + 1)"
  proof -
    have "of_int a < pow2 (e + 1) * pow2 (bitlen b - 1)" using A(2) by (simp add: e_def flip: pow2_add)
    also have "\<dots> \<le> pow2 (e + 1) * of_int b" using B(1) by simp
    finally show ?thesis using b by (simp add: x divide_less_eq)
  qed
  moreover have "pow2 (e - 1) \<le> x"
  proof -
    have "pow2 (e - 1) * of_int b \<le> pow2 (e - 1) * pow2 (bitlen b)" using B(2) by simp
    also have "\<dots> \<le> of_int a" using A(1) by (simp add: e_def flip: pow2_add)
    finally show ?thesis using b by (simp add: x le_divide_eq)
  qed
  moreover have "exponent x = (if pow2 e \<le> x then e else e - 1)" by (simp add: exponent_def q e_def)
  ultimately show "pow2 (exponent x) \<le> x" "x < pow2 (exponent x + 1)" by auto
qed

text \<open>A positive number stays within its binade, whose ends are doubles.\<close>

lemma fl_binade:
  assumes "0 < x"
  shows "pow2 (exponent x) \<le> fl x" and "fl x \<le> pow2 (exponent x + 1)"
proof -
  define u where "u = pow2 (exponent x - 52)"
  have u: "0 < u" by (simp add: u_def)
  have lo: "pow2 (exponent x) = of_int (2 ^ 52) * u" and hi: "pow2 (exponent x + 1) = of_int (2 ^ 53) * u"
    using pow2_add [of 52 "exponent x - 52"] pow2_add [of 53 "exponent x - 52"] pow2_nat [of 52] pow2_nat [of 53]
    by (simp_all add: u_def ac_simps)
  have fl: "fl x = of_int (round_even (x / u)) * u" using assms by (simp add: fl_def u_def Let_def)
  have "of_int (2 ^ 52) \<le> x / u" "x / u \<le> of_int (2 ^ 53)"
    using exponent_bounds [OF assms] u unfolding lo hi by (simp_all add: le_divide_eq divide_le_eq)
  then have "2 ^ 52 \<le> round_even (x / u)" "round_even (x / u) \<le> 2 ^ 53"
    using round_even_mono [of "of_int (2 ^ 52)" "x / u"] round_even_mono [of "x / u" "of_int (2 ^ 53)"]
    by (simp_all only: round_even_of_int)
  then show "pow2 (exponent x) \<le> fl x" "fl x \<le> pow2 (exponent x + 1)"
    unfolding lo hi fl using u by (simp_all only: of_int_le_iff mult_le_cancel_right) auto
qed

lemma fl_pos: "0 < x \<Longrightarrow> 0 < fl x"
  using fl_binade(1) [of x] pow2_pos [of "exponent x"] by linarith

lemma fl_mono:
  assumes "0 \<le> x" and "x \<le> y"
  shows "fl x \<le> fl y"
proof (cases "x = 0")
  case True
  then show ?thesis using fl_pos [of y] assms by (cases "y = 0") (auto simp: fl_def)
next
  case False
  with assms have pos: "0 < x" "0 < y" by auto
  show ?thesis
  proof (cases "exponent x = exponent y")
    case True
    have "round_even (x / u) \<le> round_even (y / u)" if "0 < u" for u
      by (rule round_even_mono) (use that assms in \<open>simp add: divide_right_mono\<close>)
    with True pos show ?thesis by (simp add: fl_def Let_def)
  next
    case False
    have "\<not> exponent y + 1 \<le> exponent x"
    proof
      assume "exponent y + 1 \<le> exponent x"
      from pow2_mono [OF this] exponent_bounds [OF pos(1)] exponent_bounds [OF pos(2)] assms(2)
      show False by linarith
    qed
    with False have "exponent x + 1 \<le> exponent y" by simp
    from pow2_mono [OF this] fl_binade(2) [OF pos(1)] fl_binade(1) [OF pos(2)] show ?thesis by linarith
  qed
qed

lemma fl_nonneg: "0 \<le> x \<Longrightarrow> 0 \<le> fl x"
  using fl_pos [of x] by (cases "x = 0") (auto simp: fl_def)

end
