(* ===== verification/E3_Runs.thy ===== *)
theory E3_Runs
  imports Streams Validity Py_Float Py_Text
begin

text \<open>
  \<^verbatim>\<open>src/fam/analysis/e3.py\<close>, first half: order statistics, the runs of a campaign and what
  is derived from their raw records, loading, pairing into blocks, and the integrity check.
  Raw interactions are the benchmark records of the streams theory; a manifest is a record
  of the fields the analysis reads, with the default the code uses for a missing one. JSON
  decoding and the file system are arguments.
\<close>

section \<open>Order statistics\<close>

definition percentile :: "rat list \<Rightarrow> rat \<Rightarrow> rat option" where
  "percentile vs q =
     (if vs = [] then None
      else let rank = max 1 \<lceil>fl (q * of_nat (length vs))\<rceil>
           in Some (vs ! (nat (min rank (int (length vs))) - 1)))"

definition median :: "rat list \<Rightarrow> rat option" where
  "median vs =
     (if vs = [] then None
      else let xs = sort vs; n = length xs; m = n div 2
           in if n mod 2 \<noteq> 0 then Some (xs ! m) else Some ((xs ! (m - 1) + xs ! m) / 2))"

definition ns_to_ms :: "rat option \<Rightarrow> rat option" where
  "ns_to_ms v = map_option (\<lambda>x. py_round 4 (x / 1000000)) v"

section \<open>Runs\<close>

record artifact =
  art_role :: string
  art_path :: string
  art_sha256 :: string

record e3_manifest =
  mf_experiment :: string
  mf_run_id :: string
  mf_campaign_id :: string
  mf_workload_type :: string
  mf_topology :: string
  mf_block_id :: string
  mf_concurrency :: nat
  mf_room_id :: string
  mf_body_bytes :: int
  mf_start_timestamp :: "string option"
  mf_completion_timestamp :: "string option"
  mf_campaign_fingerprint :: "string option"
  mf_schedule_seed :: "int option"
  mf_validity :: "(bool \<times> string option) option"
  mf_window_start :: "int option"
  mf_window_end :: "int option"
  mf_raw_artifacts :: "artifact list"
  mf_sender_diagnostics :: "(string, int) dict"
  mf_agent_diagnostics :: "(string, int) dict"
  mf_sync_configuration :: "(string, string) dict"
  mf_sender_joined_rooms :: "int option"

record run_records =
  rn_run_id :: string
  rn_workload :: string
  rn_topology :: string
  rn_block_id :: string
  rn_concurrency :: nat
  rn_campaign_id :: string
  rn_valid :: bool
  rn_invalid_class :: "string option"
  rn_window_start :: "int option"
  rn_window_end :: "int option"
  rn_records :: "benchmark_record list"
  rn_manifest :: e3_manifest

definition measured :: "run_records \<Rightarrow> benchmark_record list" where
  "measured run = filter (\<lambda>r. phase r = ''measured'') (rn_records run)"

definition is_success :: "benchmark_record \<Rightarrow> bool" where
  "is_success r \<longleftrightarrow> outcome r = ''success''"

text \<open>The completion time lies in \<open>[a, b)\<close>.\<close>

definition completes_in :: "int \<Rightarrow> int \<Rightarrow> benchmark_record \<Rightarrow> bool" where
  "completes_in a b r \<longleftrightarrow> (case completed_ns r of None \<Rightarrow> False | Some t \<Rightarrow> a \<le> t \<and> t < b)"

definition rtts_ns :: "run_records \<Rightarrow> int list" where
  "rtts_ns run = sort (map (\<lambda>r. the (completed_ns r) - initiated_ns r)
     (filter (\<lambda>r. is_success r \<and> completed_ns r \<noteq> None) (measured run)))"

definition counted_in_window :: "run_records \<Rightarrow> benchmark_record list" where
  "counted_in_window run = (case (rn_window_start run, rn_window_end run) of
     (Some a, Some b) \<Rightarrow> filter (\<lambda>r. is_success r \<and> completes_in a b r) (rn_records run)
   | _ \<Rightarrow> [])"

definition seconds_of :: "int \<Rightarrow> rat" where
  "seconds_of ns = of_int ns / 1000000000"

definition observed_throughput :: "run_records \<Rightarrow> rat option" where
  "observed_throughput run = (case (rn_window_start run, rn_window_end run) of
     (Some a, Some b) \<Rightarrow> if b \<le> a then None
       else Some (of_nat (length (counted_in_window run)) / seconds_of (b - a))
   | _ \<Rightarrow> None)"

definition run_failure_rate :: "run_records \<Rightarrow> rat option" where
  "run_failure_rate run = failure_rate (map outcome
     (if rn_workload run = E3_WORKLOAD_LATENCY then measured run
      else filter (\<lambda>r. phase r \<noteq> ''warmup'') (rn_records run)))"

definition count_by :: "('a \<Rightarrow> string) \<Rightarrow> 'a list \<Rightarrow> (string, nat) dict" where
  "count_by f xs = fold (\<lambda>x d. AList.update (f x) (case map_of d (f x) of None \<Rightarrow> 1 | Some n \<Rightarrow> n + 1) d) xs []"

definition outcome_counts :: "run_records \<Rightarrow> (string, nat) dict" where
  "outcome_counts run = count_by outcome (rn_records run)"

record stationarity_figures =
  first_half_completions :: nat
  second_half_completions :: nat
  first_half_rate :: rat
  second_half_rate :: rat
  second_over_first :: "rat option"

definition stationarity :: "run_records \<Rightarrow> stationarity_figures option" where
  "stationarity run = (case (rn_window_start run, rn_window_end run) of
     (Some a, Some b) \<Rightarrow>
       (if b \<le> a then None
        else let mid = a + (b - a) div 2; half = of_int (b - a) / 2000000000;
               first = length (filter (\<lambda>r. the (completed_ns r) < mid) (counted_in_window run));
               second = length (counted_in_window run) - first;
               rate1 = of_nat first / half; rate2 = of_nat second / half
             in Some \<lparr>first_half_completions = first, second_half_completions = second,
                  first_half_rate = py_round 4 rate1, second_half_rate = py_round 4 rate2,
                  second_over_first = (if rate1 \<noteq> 0 then Some (py_round 4 (rate2 / rate1)) else None)\<rparr>)
   | _ \<Rightarrow> None)"

text \<open>Outstanding at a boundary: begun before it, and not completed before it.\<close>

definition outstanding_record :: "int \<Rightarrow> benchmark_record \<Rightarrow> bool" where
  "outstanding_record t r \<longleftrightarrow>
     initiated_ns r < t \<and> (case completed_ns r of None \<Rightarrow> True | Some f \<Rightarrow> t \<le> f)"

record boundary_figures =
  outstanding_at_window_start :: nat
  successful_completions_in_window :: nat
  failures_in_window :: nat
  outstanding_at_window_end :: nat
  drain_completions :: nat
  drain_failures :: nat
  unresolved_after_drain :: nat

definition boundary_diagnostics :: "run_records \<Rightarrow> boundary_figures option" where
  "boundary_diagnostics run = (case (rn_window_start run, rn_window_end run) of
     (Some a, Some b) \<Rightarrow>
       (let rs = rn_records run; drain = filter (\<lambda>r. phase r = ''drain'') rs
        in Some \<lparr>outstanding_at_window_start = length (filter (outstanding_record a) rs),
             successful_completions_in_window = length (counted_in_window run),
             failures_in_window = length (filter (\<lambda>r. \<not> is_success r \<and> completes_in a b r) rs),
             outstanding_at_window_end = length (filter (outstanding_record b) rs),
             drain_completions = length (filter is_success drain),
             drain_failures = length (filter (\<lambda>r. \<not> is_success r) drain),
             unresolved_after_drain = length (filter
               (\<lambda>r. completed_ns r = None \<and> outcome r \<noteq> ''send_error'') rs)\<rparr>)
   | _ \<Rightarrow> None)"

definition recovery_overlap :: "run_records \<Rightarrow> nat" where
  "recovery_overlap run = length (filter
     (\<lambda>r. case live_recovery_episode r of None \<Rightarrow> False | Some n \<Rightarrow> n \<noteq> 0) (rn_records run))"

definition rate_limited_sends :: "run_records \<Rightarrow> nat" where
  "rate_limited_sends run = length (filter (\<lambda>r. send_errcode r = ''M_LIMIT_EXCEEDED'') (rn_records run))"

definition dup_count :: "benchmark_record \<Rightarrow> nat" where
  "dup_count r = (case duplicate_ack_count r of None \<Rightarrow> 0 | Some n \<Rightarrow> n)"

definition duplicate_ack_observations :: "run_records \<Rightarrow> nat" where
  "duplicate_ack_observations run = sum_list (map dup_count (rn_records run))"

definition run_requests_with_duplicate_acks :: "run_records \<Rightarrow> nat" where
  "run_requests_with_duplicate_acks run = length (filter (\<lambda>r. dup_count r \<noteq> 0) (rn_records run))"

definition carries_duplicate_evidence :: "run_records \<Rightarrow> bool" where
  "carries_duplicate_evidence run \<longleftrightarrow> list_ex (\<lambda>r. duplicate_ack_count r \<noteq> None) (rn_records run)"

section \<open>Loading\<close>

text \<open>
  A stream file is its lines, or absent; \<open>json\<close> decodes a line to its record type, if it
  names one, and the record.
\<close>

definition load_lines :: "(string \<Rightarrow> 'r option) \<Rightarrow> string list \<Rightarrow> 'r list" where
  "load_lines json ls = List.map_filter (\<lambda>l. let s = strip l in if s = [] then None else json s) ls"

definition load_jsonl ::
  "(string \<Rightarrow> (string option \<times> 'r) option) \<Rightarrow> string list option \<Rightarrow> 'r list" where
  "load_jsonl json file = (case file of
     None \<Rightarrow> []
   | Some ls \<Rightarrow> map snd (filter (\<lambda>(t, r). t = None \<or> t = Some ''interaction'') (load_lines json ls)))"

definition e3_candidates :: "e3_manifest list \<Rightarrow> e3_manifest list" where
  "e3_candidates ms = filter (\<lambda>m. mf_experiment m = ''E3'') ms"

definition stamp :: "e3_manifest \<Rightarrow> string" where
  "stamp m = (case mf_completion_timestamp m of None \<Rightarrow> [] | Some s \<Rightarrow> s)"

record inventory_entry =
  inv_runs :: nat
  inv_last_completion :: string
  inv_fingerprint :: "string option"

definition campaign_inventory :: "e3_manifest list \<Rightarrow> (string, inventory_entry) dict" where
  "campaign_inventory ms = fold (\<lambda>m found.
     (let entry = (case map_of found (mf_campaign_id m) of Some e \<Rightarrow> e
          | None \<Rightarrow> \<lparr>inv_runs = 0, inv_last_completion = [], inv_fingerprint = mf_campaign_fingerprint m\<rparr>)
      in AList.update (mf_campaign_id m) (entry\<lparr>inv_runs := inv_runs entry + 1,
           inv_last_completion := max (inv_last_completion entry) (stamp m)\<rparr>) found))
     (e3_candidates ms) []"

definition latest_completions :: "e3_manifest list \<Rightarrow> (string, string) dict" where
  "latest_completions cs = fold (\<lambda>m d.
     (let k = mf_campaign_id m in
      if k = [] \<or> k = ''e3-pilot'' then d
      else if (case map_of d k of None \<Rightarrow> [] | Some s \<Rightarrow> s) < stamp m then AList.update k (stamp m) d else d))
     cs []"

text \<open>\<open>max(items, key=...)\<close>: the first of the largest.\<close>

fun first_max :: "('a \<Rightarrow> 'b :: linorder) \<Rightarrow> 'a \<Rightarrow> 'a list \<Rightarrow> 'a" where
  "first_max f x [] = x"
| "first_max f x (y # ys) = first_max f (if f x < f y then y else x) ys"

definition choose_campaign :: "e3_manifest list \<Rightarrow> string option \<Rightarrow> string option" where
  "choose_campaign cs named = (case named of
     Some c \<Rightarrow> Some c
   | None \<Rightarrow> (case latest_completions cs of [] \<Rightarrow> None | x # xs \<Rightarrow> Some (fst (first_max snd x xs))))"

definition run_of :: "(string \<Rightarrow> benchmark_record list) \<Rightarrow> string \<Rightarrow> e3_manifest \<Rightarrow> run_records" where
  "run_of load campaign m =
     \<lparr>rn_run_id = mf_run_id m, rn_workload = mf_workload_type m, rn_topology = mf_topology m,
      rn_block_id = mf_block_id m, rn_concurrency = mf_concurrency m, rn_campaign_id = campaign,
      rn_valid = (case mf_validity m of None \<Rightarrow> False | Some (v, _) \<Rightarrow> v),
      rn_invalid_class = (case mf_validity m of None \<Rightarrow> None | Some (_, c) \<Rightarrow> c),
      rn_window_start = mf_window_start m, rn_window_end = mf_window_end m,
      rn_records = (case find (\<lambda>a. art_role a = ''runner_interaction_stream'') (mf_raw_artifacts m) of
        None \<Rightarrow> [] | Some a \<Rightarrow> load (art_path a)),
      rn_manifest = m\<rparr>"

definition load_campaign ::
  "(string \<Rightarrow> benchmark_record list) \<Rightarrow> e3_manifest list \<Rightarrow> string option \<Rightarrow> run_records list" where
  "load_campaign load ms named =
     (let cs = e3_candidates ms in
      case choose_campaign cs named of
        None \<Rightarrow> []
      | Some c \<Rightarrow> map (run_of load c) (filter (\<lambda>m. mf_campaign_id m = c) cs))"

section \<open>Paired blocks\<close>

record paired_block =
  pb_block_id :: string
  pb_local :: run_records
  pb_federated :: run_records

definition group_runs :: "run_records list \<Rightarrow> (string, (string, run_records) dict) dict" where
  "group_runs runs = fold (\<lambda>run d.
     if rn_valid run
     then AList.update (rn_block_id run) (AList.update (rn_topology run) run
            (case map_of d (rn_block_id run) of None \<Rightarrow> [] | Some t \<Rightarrow> t)) d
     else d) runs []"

definition pair_blocks :: "run_records list \<Rightarrow> paired_block list" where
  "pair_blocks runs = List.map_filter (\<lambda>(b, t).
     case (map_of t E3_TOPOLOGY_LOCAL, map_of t E3_TOPOLOGY_FEDERATED) of
       (Some l, Some f) \<Rightarrow> Some \<lparr>pb_block_id = b, pb_local = l, pb_federated = f\<rparr>
     | _ \<Rightarrow> None) (sort_key fst (group_runs runs))"

definition topologies_by_block :: "run_records list \<Rightarrow> (string, string list) dict" where
  "topologies_by_block runs = fold (\<lambda>run d.
     (let ts = (case map_of d (rn_block_id run) of None \<Rightarrow> [] | Some ts \<Rightarrow> ts)
      in AList.update (rn_block_id run) (if rn_valid run then List.insert (rn_topology run) ts else ts) d))
     runs []"

definition incomplete_blocks :: "run_records list \<Rightarrow> string list" where
  "incomplete_blocks runs = sort (map fst (filter
     (\<lambda>(b, ts). set ts \<noteq> {E3_TOPOLOGY_LOCAL, E3_TOPOLOGY_FEDERATED}) (topologies_by_block runs)))"

section \<open>Integrity\<close>

datatype anomaly = OverTimeout | ReversedClock | MissingWindow | SuccessWithoutCompletion | TimeoutWithCompletion

fun anomaly_text :: "anomaly \<Rightarrow> string" where
  "anomaly_text OverTimeout = ''successful interactions with an RTT above the frozen 10s interaction timeout''"
| "anomaly_text ReversedClock = ''interactions completing before they were initiated''"
| "anomaly_text MissingWindow = ''throughput records without window bounds''"
| "anomaly_text SuccessWithoutCompletion = ''successes with no completion timestamp''"
| "anomaly_text TimeoutWithCompletion = ''timeouts carrying a completion timestamp''"

definition budget_ns :: int where
  "budget_ns = \<lfloor>DEFAULT_INTERACTION_TIMEOUT_SECONDS * 1000000000\<rfloor>"

fun shows_anomaly :: "string \<Rightarrow> anomaly \<Rightarrow> benchmark_record \<Rightarrow> bool" where
  "shows_anomaly w OverTimeout r = (is_success r \<and> (case completed_ns r of None \<Rightarrow> False
     | Some t \<Rightarrow> initiated_ns r \<le> t \<and> budget_ns < t - initiated_ns r))"
| "shows_anomaly w ReversedClock r = (is_success r \<and> (case completed_ns r of None \<Rightarrow> False
     | Some t \<Rightarrow> t < initiated_ns r))"
| "shows_anomaly w MissingWindow r =
     (w = E3_WORKLOAD_THROUGHPUT \<and> (rec_window_start r = None \<or> rec_window_end r = None))"
| "shows_anomaly w SuccessWithoutCompletion r = (is_success r \<and> completed_ns r = None)"
| "shows_anomaly w TimeoutWithCompletion r = (outcome r = ''timeout'' \<and> completed_ns r \<noteq> None)"

definition run_problems :: "run_records \<Rightarrow> (string \<times> nat \<times> anomaly) list" where
  "run_problems run = filter (\<lambda>(_, n, _). n \<noteq> 0) (map (\<lambda>a.
     (rn_run_id run, length (filter (shows_anomaly (rn_workload run) a) (rn_records run)), a))
     [OverTimeout, ReversedClock, MissingWindow, SuccessWithoutCompletion, TimeoutWithCompletion])"

definition integrity_problems :: "run_records list \<Rightarrow> (string \<times> nat \<times> anomaly) list" where
  "integrity_problems runs = concat (map run_problems runs)"

section \<open>Lemmas on order statistics\<close>

definition rank_index :: "nat \<Rightarrow> rat \<Rightarrow> nat" where
  "rank_index n q = nat (min (max 1 \<lceil>fl (q * of_nat n)\<rceil>) (int n)) - 1"

lemma percentile_eq: "percentile vs q = (if vs = [] then None else Some (vs ! rank_index (length vs) q))"
  by (simp add: percentile_def rank_index_def Let_def)

lemma rank_index_less: "0 < n \<Longrightarrow> rank_index n q < n"
  unfolding rank_index_def by linarith

lemma rank_index_mono:
  assumes "0 \<le> q" and "q \<le> q'"
  shows "rank_index n q \<le> rank_index n q'"
proof -
  have "fl (q * of_nat n) \<le> fl (q' * of_nat n)"
    by (rule fl_mono) (use assms in \<open>simp_all add: mult_right_mono\<close>)
  from ceiling_mono [OF this] show ?thesis unfolding rank_index_def by linarith
qed

lemma percentile_in: "percentile vs q = Some x \<Longrightarrow> x \<in> set vs"
  by (auto simp: percentile_eq rank_index_less split: if_splits)

lemma percentile_none [simp]: "percentile vs q = None \<longleftrightarrow> vs = []"
  by (simp add: percentile_eq)

lemma percentile_mono:
  assumes "sorted vs" and "0 \<le> q" and "q \<le> q'" and "percentile vs q = Some x" and "percentile vs q' = Some y"
  shows "x \<le> y"
  using assms rank_index_mono [OF assms(2,3), of "length vs"] rank_index_less [of "length vs"]
  by (auto simp: percentile_eq intro!: sorted_nth_mono split: if_splits)

lemma median_bounds:
  assumes "median vs = Some m"
  shows "\<exists>x \<in> set vs. \<exists>y \<in> set vs. x \<le> y \<and> x \<le> m \<and> m \<le> y"
proof -
  let ?xs = "sort vs" and ?m = "length vs div 2"
  have vs: "vs \<noteq> []" using assms by (auto simp: median_def)
  then have lt: "?m < length ?xs" by simp
  then have in1: "?xs ! ?m \<in> set vs" using nth_mem [OF lt] by simp
  have "?m - 1 < length ?xs" using lt by simp
  from nth_mem [OF this] have in2: "?xs ! (?m - 1) \<in> set vs" by simp
  have "?xs ! (?m - 1) \<le> ?xs ! ?m" by (rule sorted_nth_mono) (use lt in simp_all)
  moreover have "m = ?xs ! ?m \<or> m = (?xs ! (?m - 1) + ?xs ! ?m) / 2"
    using assms vs by (auto simp: median_def Let_def split: if_splits)
  ultimately show ?thesis using in1 in2 by (intro bexI [OF _ in2] bexI [OF _ in1]) (auto simp: field_simps)
qed

section \<open>Lemmas on windows\<close>

definition initiated_in :: "int \<Rightarrow> int \<Rightarrow> benchmark_record \<Rightarrow> bool" where
  "initiated_in a b r \<longleftrightarrow> a \<le> initiated_ns r \<and> initiated_ns r < b"

definition clock_ok :: "benchmark_record \<Rightarrow> bool" where
  "clock_ok r \<longleftrightarrow> (case completed_ns r of None \<Rightarrow> True | Some t \<Rightarrow> initiated_ns r \<le> t)"

lemma flow_balance_list:
  assumes "a \<le> b" and "\<forall>r \<in> set rs. clock_ok r"
  shows "length (filter (outstanding_record a) rs) + length (filter (initiated_in a b) rs) =
    length (filter (completes_in a b) rs) + length (filter (outstanding_record b) rs)"
  using assms(2)
proof (induction rs)
  case (Cons r rs)
  have "of_bool (outstanding_record a r) + of_bool (initiated_in a b r) =
      (of_bool (completes_in a b r) + of_bool (outstanding_record b r) :: nat)"
    using assms(1) Cons.prems
    by (auto simp: outstanding_record_def initiated_in_def completes_in_def clock_ok_def split: option.splits)
  moreover have "length (filter P (r # rs)) = of_bool (P r) + length (filter P rs)" for P by simp
  moreover note Cons.IH
  ultimately show ?case using Cons.prems by simp
qed simp

lemma length_filter_conj:
  "length (filter (\<lambda>x. P x \<and> Q x) xs) + length (filter (\<lambda>x. \<not> P x \<and> Q x) xs) = length (filter Q xs)"
  by (induction xs) auto

section \<open>Lemmas on pairing\<close>

text \<open>The run that stands for a block and topology: the last valid one.\<close>

definition last_valid :: "run_records list \<Rightarrow> string \<Rightarrow> string \<Rightarrow> run_records option" where
  "last_valid runs b t =
     find (\<lambda>r. rn_valid r \<and> rn_block_id r = b \<and> rn_topology r = t) (rev runs)"

lemma last_valid_Nil [simp]: "last_valid [] b t = None"
  by (simp add: last_valid_def)

lemma last_valid_snoc [simp]: "last_valid (runs @ [r]) b t =
    (if rn_valid r \<and> rn_block_id r = b \<and> rn_topology r = t then Some r else last_valid runs b t)"
  by (simp add: last_valid_def)

lemma last_valid_None:
  "last_valid runs b t = None \<longleftrightarrow> (\<forall>r \<in> set runs. \<not> (rn_valid r \<and> rn_block_id r = b \<and> rn_topology r = t))"
  by (auto simp: last_valid_def find_None_iff)

lemma last_valid_Some:
  "last_valid runs b t = Some r \<Longrightarrow> r \<in> set runs \<and> rn_valid r \<and> rn_block_id r = b \<and> rn_topology r = t"
  unfolding last_valid_def by (metis (mono_tags, lifting) find_Some_iff nth_mem set_rev)

lemma group_runs_Nil [simp]: "group_runs [] = []"
  by (simp add: group_runs_def)

lemma group_runs_snoc: "group_runs (runs @ [run]) =
    (if rn_valid run
     then AList.update (rn_block_id run) (AList.update (rn_topology run) run
            (case map_of (group_runs runs) (rn_block_id run) of None \<Rightarrow> [] | Some t \<Rightarrow> t)) (group_runs runs)
     else group_runs runs)"
  by (simp add: group_runs_def)

lemma dict_ok_group_runs: "dict_ok (group_runs runs)"
  by (induction runs rule: rev_induct) (simp_all add: group_runs_snoc)

lemma group_runs_lookup:
  "map_of (case map_of (group_runs runs) b of None \<Rightarrow> [] | Some t \<Rightarrow> t) topo = last_valid runs b topo"
  by (induction runs rule: rev_induct) (auto simp: group_runs_snoc)

lemma pair_blocks_member:
  "p \<in> set (pair_blocks runs) \<longleftrightarrow>
    last_valid runs (pb_block_id p) E3_TOPOLOGY_LOCAL = Some (pb_local p) \<and>
    last_valid runs (pb_block_id p) E3_TOPOLOGY_FEDERATED = Some (pb_federated p)"
proof -
  have "p \<in> set (pair_blocks runs) \<longleftrightarrow> (\<exists>b t. (b, t) \<in> set (group_runs runs) \<and>
      map_of t E3_TOPOLOGY_LOCAL = Some (pb_local p) \<and> map_of t E3_TOPOLOGY_FEDERATED = Some (pb_federated p) \<and>
      pb_block_id p = b)"
    by (force simp: pair_blocks_def List.map_filter_def split: option.splits)
  also have "\<dots> \<longleftrightarrow> (\<exists>t. map_of (group_runs runs) (pb_block_id p) = Some t \<and>
      map_of t E3_TOPOLOGY_LOCAL = Some (pb_local p) \<and> map_of t E3_TOPOLOGY_FEDERATED = Some (pb_federated p))"
    by (auto simp: dict_ok_snd_inj [OF dict_ok_group_runs])
  also have "\<dots> \<longleftrightarrow> last_valid runs (pb_block_id p) E3_TOPOLOGY_LOCAL = Some (pb_local p) \<and>
      last_valid runs (pb_block_id p) E3_TOPOLOGY_FEDERATED = Some (pb_federated p)"
    unfolding group_runs_lookup [of runs "pb_block_id p", symmetric]
    by (cases "map_of (group_runs runs) (pb_block_id p)") simp_all
  finally show ?thesis .
qed

lemma map_filter_ids:
  assumes "\<And>b t p. f (b, t) = Some p \<Longrightarrow> name p = b"
  shows "sorted_wrt (<) (map fst g) \<Longrightarrow>
    sorted_wrt (<) (map name (List.map_filter f g)) \<and> set (map name (List.map_filter f g)) \<subseteq> fst ` set g"
proof (induction g)
  case (Cons x g)
  with assms [of "fst x" "snd x"] show ?case by (cases "f x") (fastforce simp: List.map_filter_simps)+
qed (simp add: List.map_filter_simps)

lemma pair_blocks_ids_sorted: "sorted_wrt (<) (map pb_block_id (pair_blocks runs))"
proof -
  have "distinct (map fst (sort_key fst (group_runs runs)))"
    using dict_ok_group_runs [of runs] by (simp add: dict_ok_def distinct_map)
  then have "sorted_wrt (<) (map fst (sort_key fst (group_runs runs)))" by (simp add: strict_sorted_iff)
  then show ?thesis
    unfolding pair_blocks_def by (intro conjunct1 [OF map_filter_ids]) (auto split: option.splits)
qed

lemma topologies_by_block_Nil [simp]: "topologies_by_block [] = []"
  by (simp add: topologies_by_block_def)

lemma topologies_by_block_snoc: "topologies_by_block (runs @ [run]) =
    (let ts = (case map_of (topologies_by_block runs) (rn_block_id run) of None \<Rightarrow> [] | Some ts \<Rightarrow> ts)
     in AList.update (rn_block_id run) (if rn_valid run then List.insert (rn_topology run) ts else ts)
          (topologies_by_block runs))"
  by (simp add: topologies_by_block_def)

lemma dict_ok_topologies: "dict_ok (topologies_by_block runs)"
  by (induction runs rule: rev_induct) (simp_all add: topologies_by_block_snoc Let_def)

lemma topologies_by_block_keys: "fst ` set (topologies_by_block runs) = rn_block_id ` set runs"
  by (induction runs rule: rev_induct) (simp_all add: topologies_by_block_snoc Let_def keys_update)

lemma topologies_by_block_lookup:
  "set (case map_of (topologies_by_block runs) b of None \<Rightarrow> [] | Some ts \<Rightarrow> ts) =
    rn_topology ` {r \<in> set runs. rn_valid r \<and> rn_block_id r = b}"
proof (induction runs rule: rev_induct)
  case (snoc run runs)
  show ?case
  proof (cases "rn_block_id run = b")
    case True
    with snoc show ?thesis by (auto simp: topologies_by_block_snoc Let_def)
  next
    case False
    then have "{r \<in> set (runs @ [run]). rn_valid r \<and> rn_block_id r = b} =
      {r \<in> set runs. rn_valid r \<and> rn_block_id r = b}" by auto
    with snoc False show ?thesis by (simp add: topologies_by_block_snoc Let_def)
  qed
qed simp

lemma incomplete_blocks_member:
  "b \<in> set (incomplete_blocks runs) \<longleftrightarrow> b \<in> rn_block_id ` set runs \<and>
    rn_topology ` {r \<in> set runs. rn_valid r \<and> rn_block_id r = b} \<noteq> {E3_TOPOLOGY_LOCAL, E3_TOPOLOGY_FEDERATED}"
proof -
  have "b \<in> set (incomplete_blocks runs) \<longleftrightarrow> (\<exists>ts. map_of (topologies_by_block runs) b = Some ts \<and>
      set ts \<noteq> {E3_TOPOLOGY_LOCAL, E3_TOPOLOGY_FEDERATED})"
    by (force simp: incomplete_blocks_def dict_ok_snd_inj [OF dict_ok_topologies, symmetric])
  also have "\<dots> \<longleftrightarrow> b \<in> rn_block_id ` set runs \<and>
      rn_topology ` {r \<in> set runs. rn_valid r \<and> rn_block_id r = b} \<noteq> {E3_TOPOLOGY_LOCAL, E3_TOPOLOGY_FEDERATED}"
  proof (cases "map_of (topologies_by_block runs) b")
    case None
    then have "b \<notin> rn_block_id ` set runs"
      by (simp add: map_of_eq_None_iff topologies_by_block_keys [symmetric])
    with None show ?thesis by simp
  next
    case (Some ts)
    then have "b \<in> rn_block_id ` set runs"
      unfolding topologies_by_block_keys [symmetric] by (metis domI dom_map_of_conv_image_fst)
    with Some topologies_by_block_lookup [of runs b] show ?thesis by simp
  qed
  finally show ?thesis .
qed

section \<open>Lemmas on the choice of a campaign\<close>

lemma latest_snoc: "latest_completions (cs @ [m]) =
    (let d = latest_completions cs; k = mf_campaign_id m in
      if k = [] \<or> k = ''e3-pilot'' then d
      else if (case map_of d k of None \<Rightarrow> [] | Some s \<Rightarrow> s) < stamp m then AList.update k (stamp m) d else d)"
  by (simp add: latest_completions_def Let_def)

lemma latest_Nil [simp]: "latest_completions [] = []"
  by (simp add: latest_completions_def)

definition real_campaign :: "e3_manifest \<Rightarrow> bool" where
  "real_campaign m \<longleftrightarrow> mf_campaign_id m \<noteq> [] \<and> mf_campaign_id m \<noteq> ''e3-pilot''"

lemma latest_sound:
  "map_of (latest_completions cs) k = Some s \<Longrightarrow>
    \<exists>m \<in> set cs. real_campaign m \<and> mf_campaign_id m = k \<and> stamp m = s"
  by (induction cs arbitrary: s rule: rev_induct)
    (auto simp: latest_snoc Let_def real_campaign_def split: if_splits)

lemma latest_complete:
  "m \<in> set cs \<Longrightarrow> real_campaign m \<Longrightarrow> stamp m \<le>
    (case map_of (latest_completions cs) (mf_campaign_id m) of None \<Rightarrow> [] | Some s \<Rightarrow> s)"
proof (induction cs rule: rev_induct)
  case (snoc x cs)
  then show ?case
    by (auto simp: latest_snoc Let_def real_campaign_def not_less dest: less_imp_le)
qed simp

lemma first_max_in: "first_max f x xs \<in> set (x # xs)"
  by (induction xs arbitrary: x) (auto split: if_splits)

lemma first_max_ge: "y \<in> set (x # xs) \<Longrightarrow> f y \<le> f (first_max f x xs)"
proof (induction xs arbitrary: x y)
  case (Cons z xs)
  show ?case
  proof (cases "f x < f z")
    case True
    with Cons.IH [of z z] Cons.IH [of y z] Cons.prems show ?thesis by auto
  next
    case False
    with Cons.IH [of x x] Cons.IH [of y x] Cons.prems show ?thesis by auto
  qed
qed simp

lemma dict_ok_latest: "dict_ok (latest_completions cs)"
  by (induction cs rule: rev_induct) (simp_all add: latest_snoc Let_def)

lemma choose_campaign_latest:
  assumes "choose_campaign cs None = Some c"
  shows "\<exists>m \<in> set cs. real_campaign m \<and> mf_campaign_id m = c \<and> (\<forall>m' \<in> set cs. real_campaign m' \<longrightarrow> stamp m' \<le> stamp m)"
proof -
  obtain x xs where d: "latest_completions cs = x # xs" and c: "c = fst (first_max snd x xs)"
    using assms by (auto simp: choose_campaign_def split: list.splits)
  define best where "best = first_max snd x xs"
  have "best \<in> set (latest_completions cs)" unfolding d best_def by (rule first_max_in)
  then have "map_of (latest_completions cs) c = Some (snd best)"
    using dict_ok_latest [of cs] by (simp add: c best_def [symmetric] dict_ok_snd_inj [symmetric])
  from latest_sound [OF this] obtain m where m: "m \<in> set cs" "real_campaign m" "mf_campaign_id m = c" "stamp m = snd best"
    by blast
  have "stamp m' \<le> stamp m" if "m' \<in> set cs" "real_campaign m'" for m'
  proof -
    have "(case map_of (latest_completions cs) (mf_campaign_id m') of None \<Rightarrow> [] | Some s \<Rightarrow> s) \<le> snd best"
    proof (cases "map_of (latest_completions cs) (mf_campaign_id m')")
      case (Some s)
      then have "(mf_campaign_id m', s) \<in> set (x # xs)" unfolding d [symmetric] by (rule map_of_SomeD)
      from first_max_ge [OF this, of snd] Some show ?thesis by (simp add: best_def)
    qed simp
    with latest_complete [OF that] m(4) show ?thesis by simp
  qed
  with m show ?thesis by blast
qed

section \<open>Properties\<close>

text \<open>
  C14: Over a window every interaction is accounted for once: those outstanding at its start
  and those begun in it are the successes and failures that completed in it and those
  outstanding at its end, provided no record completes before it begins; the two halves of
  the stationarity figures make up the completions counted.
\<close>

theorem window_flow_balance:
  assumes "rn_window_start run = Some a" and "rn_window_end run = Some b" and "a \<le> b"
    and "\<forall>r \<in> set (rn_records run). clock_ok r"
    and "boundary_diagnostics run = Some f"
  shows "outstanding_at_window_start f + length (filter (initiated_in a b) (rn_records run)) =
      successful_completions_in_window f + failures_in_window f + outstanding_at_window_end f \<and>
    (\<forall>s. stationarity run = Some s \<longrightarrow>
       first_half_completions s + second_half_completions s = successful_completions_in_window f)"
proof -
  let ?rs = "rn_records run"
  have f: "outstanding_at_window_start f = length (filter (outstanding_record a) ?rs)"
    "outstanding_at_window_end f = length (filter (outstanding_record b) ?rs)"
    "successful_completions_in_window f = length (filter (\<lambda>r. is_success r \<and> completes_in a b r) ?rs)"
    "failures_in_window f = length (filter (\<lambda>r. \<not> is_success r \<and> completes_in a b r) ?rs)"
    using assms(1,2,5) by (auto simp: boundary_diagnostics_def Let_def counted_in_window_def)
  have "first_half_completions s + second_half_completions s = length (counted_in_window run)"
    if "stationarity run = Some s" for s
  proof -
    from that assms(1,2) obtain P where "first_half_completions s = length (filter P (counted_in_window run))"
      "second_half_completions s = length (counted_in_window run) - first_half_completions s"
      by (auto simp: stationarity_def Let_def split: if_splits)
    then show ?thesis by simp
  qed
  moreover have "successful_completions_in_window f = length (counted_in_window run)"
    using f(3) assms(1,2) by (simp add: counted_in_window_def)
  moreover have "length (filter (\<lambda>r. is_success r \<and> completes_in a b r) ?rs) +
      length (filter (\<lambda>r. \<not> is_success r \<and> completes_in a b r) ?rs) = length (filter (completes_in a b) ?rs)"
    by (rule length_filter_conj)
  ultimately show ?thesis
    using flow_balance_list [OF assms(3,4)] by (simp add: f)
qed

definition example_record :: "int \<Rightarrow> int option \<Rightarrow> string \<Rightarrow> benchmark_record" where
  "example_record t f out = make_benchmark_record
     \<lparr>rr_experiment = ''E3'', rr_topology = ''local'', rr_run_id = ''r1'', rr_sequence_id = 1,
      rr_run_phase = ''window'', rr_request_class = ''throughput'', rr_room_id = ''!r'', rr_sender = ''@h'',
      rr_receiver_role = ''agent'', rr_request_txn_id = ''t'', rr_request_event_id = None,
      rr_response_txn_id = None, rr_response_event_id = None, initiated_ns = t, completed_ns = f,
      outcome = out, rr_note = [], ack_count = 0, duplicate_ack_count = None, duplicate_ack_event_ids = []\<rparr>
     ''throughput'' ''b1'' 1 8 256 ''window'' (Some 10) (Some 30) None [] None 1 0 []"

definition example_manifest :: e3_manifest where
  "example_manifest = \<lparr>mf_experiment = ''E3'', mf_run_id = ''r1'', mf_campaign_id = ''c1'',
     mf_workload_type = ''throughput'', mf_topology = ''local'', mf_block_id = ''b1'', mf_concurrency = 8,
     mf_room_id = ''!r'', mf_body_bytes = 256, mf_start_timestamp = None, mf_completion_timestamp = Some ''2026'',
     mf_campaign_fingerprint = None, mf_schedule_seed = None, mf_validity = Some (True, None),
     mf_window_start = Some 10, mf_window_end = Some 30, mf_raw_artifacts = [], mf_sender_diagnostics = [],
     mf_agent_diagnostics = [], mf_sync_configuration = [], mf_sender_joined_rooms = None\<rparr>"

definition example_run :: run_records where
  "example_run = (run_of (\<lambda>_. []) ''c1'' example_manifest)\<lparr>rn_records :=
     [example_record 5 (Some 12) ''success'', example_record 11 (Some 20) ''success'',
      example_record 15 None ''timeout'']\<rparr>"

theorem window_flow_balance_witness:
  "\<exists>f. boundary_diagnostics example_run = Some f \<and>
    outstanding_at_window_start f + 2 =
      successful_completions_in_window f + failures_in_window f + outstanding_at_window_end f"
proof -
  have w: "rn_window_start example_run = Some 10" "rn_window_end example_run = Some 30"
    by (simp_all add: example_run_def run_of_def example_manifest_def)
  then obtain f where f: "boundary_diagnostics example_run = Some f"
    by (simp add: boundary_diagnostics_def Let_def)
  have "\<forall>r \<in> set (rn_records example_run). clock_ok r"
    by (simp add: example_run_def example_record_def clock_ok_def)
  moreover have "length (filter (initiated_in 10 30) (rn_records example_run)) = 2"
    by (simp add: example_run_def example_record_def initiated_in_def)
  ultimately show ?thesis using window_flow_balance [OF w _ _ f] f by auto
qed

text \<open>
  C15: A paired block consists of the last valid local run and the last valid federated run
  of its id, and every id that has both is paired, once and in order. If only the two
  frozen topologies occur, each block id of the campaign is either paired or reported as
  incomplete, never both.
\<close>

theorem pair_blocks_exact:
  "(\<forall>p. p \<in> set (pair_blocks runs) \<longleftrightarrow>
      last_valid runs (pb_block_id p) E3_TOPOLOGY_LOCAL = Some (pb_local p) \<and>
      last_valid runs (pb_block_id p) E3_TOPOLOGY_FEDERATED = Some (pb_federated p)) \<and>
   sorted_wrt (<) (map pb_block_id (pair_blocks runs)) \<and>
   (rn_topology ` set runs \<subseteq> set E3_TOPOLOGIES \<longrightarrow>
      pb_block_id ` set (pair_blocks runs) \<union> set (incomplete_blocks runs) = rn_block_id ` set runs \<and>
      pb_block_id ` set (pair_blocks runs) \<inter> set (incomplete_blocks runs) = {})"
proof -
  have paired: "b \<in> pb_block_id ` set (pair_blocks runs) \<longleftrightarrow>
      last_valid runs b E3_TOPOLOGY_LOCAL \<noteq> None \<and> last_valid runs b E3_TOPOLOGY_FEDERATED \<noteq> None" for b
  proof
    assume "last_valid runs b E3_TOPOLOGY_LOCAL \<noteq> None \<and> last_valid runs b E3_TOPOLOGY_FEDERATED \<noteq> None"
    then obtain l f where "last_valid runs b E3_TOPOLOGY_LOCAL = Some l" "last_valid runs b E3_TOPOLOGY_FEDERATED = Some f"
      by auto
    then have "\<lparr>pb_block_id = b, pb_local = l, pb_federated = f\<rparr> \<in> set (pair_blocks runs)"
      by (simp add: pair_blocks_member)
    then show "b \<in> pb_block_id ` set (pair_blocks runs)" by force
  qed (auto simp: pair_blocks_member)
  have present: "last_valid runs b t \<noteq> None \<longleftrightarrow>
      t \<in> rn_topology ` {r \<in> set runs. rn_valid r \<and> rn_block_id r = b}" for b t
    by (auto simp: last_valid_None)
  have id: "b \<in> rn_block_id ` set runs" if "last_valid runs b t \<noteq> None" for b t
    using that by (auto simp: last_valid_None)
  have "pb_block_id ` set (pair_blocks runs) \<union> set (incomplete_blocks runs) = rn_block_id ` set runs \<and>
      pb_block_id ` set (pair_blocks runs) \<inter> set (incomplete_blocks runs) = {}"
    if "rn_topology ` set runs \<subseteq> set E3_TOPOLOGIES"
  proof -
    have "b \<in> set (incomplete_blocks runs) \<longleftrightarrow> b \<in> rn_block_id ` set runs \<and> b \<notin> pb_block_id ` set (pair_blocks runs)" for b
      unfolding incomplete_blocks_member paired present using that by (auto simp: E3_TOPOLOGIES_def)
    with paired id show ?thesis by blast
  qed
  with pair_blocks_ids_sorted [of runs] pair_blocks_member show ?thesis by blast
qed

theorem pair_blocks_exact_witness:
  "let runs = [example_run, example_run\<lparr>rn_topology := ''federated''\<rparr>, example_run\<lparr>rn_block_id := ''b2''\<rparr>]
   in pb_block_id ` set (pair_blocks runs) \<union> set (incomplete_blocks runs) = {''b1'', ''b2''}"
proof -
  let ?runs = "[example_run, example_run\<lparr>rn_topology := ''federated''\<rparr>, example_run\<lparr>rn_block_id := ''b2''\<rparr>]"
  have "rn_topology ` set ?runs \<subseteq> set E3_TOPOLOGIES" "rn_block_id ` set ?runs = {''b1'', ''b2''}"
    by (simp_all add: example_run_def run_of_def example_manifest_def E3_TOPOLOGIES_def topology_names)
  with pair_blocks_exact [of ?runs] show ?thesis unfolding Let_def by metis
qed



end
