(* ===== verification/E3_Report.thy ===== *)
theory E3_Report
  imports E3_Runs Runtime
begin

text \<open>
  \<^verbatim>\<open>src/fam/analysis/e3.py\<close>, second half: the paired-block bootstrap, the summaries per
  topology, the diagnostics, the whole analysis and its tidy tables. The index lists drawn
  by the random generator and the square root are arguments. A result dictionary is a
  record; explanatory notes are left out.
\<close>

section \<open>Bootstrap\<close>

record interval =
  low :: "rat option"
  high :: "rat option"

definition interval_of :: "rat list \<Rightarrow> rat \<Rightarrow> interval" where
  "interval_of vs conf =
     (if vs = [] then \<lparr>low = None, high = None\<rparr>
      else let ordered = sort vs; tail = fl (fl (1 - fl conf) / 2)
           in \<lparr>low = percentile ordered tail, high = percentile ordered (fl (1 - tail))\<rparr>)"

definition map_interval :: "(rat option \<Rightarrow> rat option) \<Rightarrow> interval \<Rightarrow> interval" where
  "map_interval f i = \<lparr>low = f (low i), high = f (high i)\<rparr>"

definition round_interval :: "interval \<Rightarrow> interval" where
  "round_interval i = map_interval (map_option (py_round 4)) i"

definition pooled :: "nat list \<Rightarrow> int list list \<Rightarrow> int list" where
  "pooled ix src = sort (concat (map (\<lambda>i. src ! i) ix))"

definition quantile_of :: "int list \<Rightarrow> rat \<Rightarrow> rat option" where
  "quantile_of xs q = percentile (map of_int xs) q"

text \<open>The pairs of percentiles of the replicates; one with an empty pool is skipped.\<close>

definition replicate_pairs :: "rat \<Rightarrow> int list list \<Rightarrow> int list list \<Rightarrow> nat list list \<Rightarrow> (rat \<times> rat) list" where
  "replicate_pairs q local fed samples = List.map_filter (\<lambda>ix.
     case (quantile_of (pooled ix local) q, quantile_of (pooled ix fed) q) of
       (Some lo, Some fe) \<Rightarrow> Some (lo, fe)
     | _ \<Rightarrow> None) samples"

definition ratios :: "(rat \<times> rat) list \<Rightarrow> rat list" where
  "ratios ps = map (\<lambda>(lo, fe). fe / lo) (filter (\<lambda>(lo, fe). lo \<noteq> 0) ps)"

record percentile_comparison =
  pc_quantile :: rat
  pc_local_ms :: "rat option"
  pc_federated_ms :: "rat option"
  pc_difference_ms :: "rat option"
  pc_ratio :: "rat option"
  pc_local_ci_ms :: interval
  pc_federated_ci_ms :: interval
  pc_difference_ci_ms :: interval
  pc_ratio_ci :: interval

record latency_bootstrap =
  lb_blocks :: nat
  lb_replicates :: nat
  lb_local_interactions :: nat
  lb_federated_interactions :: nat
  lb_percentiles :: "percentile_comparison list"

definition compare_percentile ::
  "rat \<Rightarrow> rat \<Rightarrow> int list list \<Rightarrow> int list list \<Rightarrow> nat list list \<Rightarrow> percentile_comparison" where
  "compare_percentile conf q local fed samples =
     (let all = [0..<length local];
          lp = quantile_of (pooled all local) q; fp = quantile_of (pooled all fed) q;
          diff = (case (lp, fp) of (Some l, Some f) \<Rightarrow> Some (f - l) | _ \<Rightarrow> None);
          ratio = (case (lp, fp) of (Some l, Some f) \<Rightarrow> if l \<noteq> 0 then Some (f / l) else None | _ \<Rightarrow> None);
          ps = replicate_pairs q local fed samples;
          ms = (\<lambda>vs. map_interval ns_to_ms (interval_of vs conf))
      in \<lparr>pc_quantile = q, pc_local_ms = ns_to_ms lp, pc_federated_ms = ns_to_ms fp,
          pc_difference_ms = ns_to_ms diff,
          pc_ratio = (case ratio of None \<Rightarrow> None | Some r \<Rightarrow> if r \<noteq> 0 then Some (py_round 4 r) else None),
          pc_local_ci_ms = ms (map fst ps), pc_federated_ci_ms = ms (map snd ps),
          pc_difference_ci_ms = ms (map (\<lambda>(lo, fe). fe - lo) ps),
          pc_ratio_ci = round_interval (interval_of (ratios ps) conf)\<rparr>)"

definition paired_bootstrap_latency ::
  "paired_block list \<Rightarrow> rat list \<Rightarrow> nat list list \<Rightarrow> rat \<Rightarrow> latency_bootstrap option" where
  "paired_bootstrap_latency blocks quantiles samples conf =
     (if blocks = [] then None
      else let local = map (\<lambda>b. rtts_ns (pb_local b)) blocks; fed = map (\<lambda>b. rtts_ns (pb_federated b)) blocks;
             all = [0..<length blocks]
        in Some \<lparr>lb_blocks = length blocks, lb_replicates = length samples,
             lb_local_interactions = length (pooled all local),
             lb_federated_interactions = length (pooled all fed),
             lb_percentiles = map (\<lambda>q. compare_percentile conf q local fed samples) quantiles\<rparr>)"

record throughput_bootstrap =
  tb_blocks :: nat
  tb_replicates :: nat
  tb_local :: rat
  tb_federated :: rat
  tb_difference :: rat
  tb_ratio :: "rat option"
  tb_local_ci :: interval
  tb_federated_ci :: interval
  tb_difference_ci :: interval
  tb_ratio_ci :: interval
  tb_local_runs :: "rat list"
  tb_federated_runs :: "rat list"

definition median_pairs :: "rat option list \<Rightarrow> rat option list \<Rightarrow> nat list list \<Rightarrow> (rat \<times> rat) list" where
  "median_pairs local fed samples = map (\<lambda>ix.
     (the (median (map (\<lambda>i. the (local ! i)) ix)), the (median (map (\<lambda>i. the (fed ! i)) ix)))) samples"

definition usable_blocks :: "rat option list \<Rightarrow> rat option list \<Rightarrow> nat list" where
  "usable_blocks local fed = filter (\<lambda>i. local ! i \<noteq> None \<and> fed ! i \<noteq> None) [0..<length local]"

definition paired_bootstrap_throughput ::
  "paired_block list \<Rightarrow> (nat list \<Rightarrow> nat list list) \<Rightarrow> rat \<Rightarrow> throughput_bootstrap option" where
  "paired_bootstrap_throughput blocks draw conf =
     (let local = map (\<lambda>b. observed_throughput (pb_local b)) blocks;
          fed = map (\<lambda>b. observed_throughput (pb_federated b)) blocks;
          usable = usable_blocks local fed
      in if usable = [] then None
         else let pl = the (median (map (\<lambda>i. the (local ! i)) usable));
                  pf = the (median (map (\<lambda>i. the (fed ! i)) usable));
                  ps = median_pairs local fed (draw usable);
                  ci = (\<lambda>vs. round_interval (interval_of vs conf))
           in Some \<lparr>tb_blocks = length usable, tb_replicates = length (draw usable),
                tb_local = py_round 4 pl, tb_federated = py_round 4 pf, tb_difference = py_round 4 (pf - pl),
                tb_ratio = (if pl \<noteq> 0 then Some (py_round 4 (pf / pl)) else None),
                tb_local_ci = ci (map fst ps), tb_federated_ci = ci (map snd ps),
                tb_difference_ci = ci (map (\<lambda>(lo, fe). fe - lo) ps), tb_ratio_ci = ci (ratios ps),
                tb_local_runs = map (\<lambda>i. py_round 4 (the (local ! i))) usable,
                tb_federated_runs = map (\<lambda>i. py_round 4 (the (fed ! i))) usable\<rparr>)"

section \<open>Topology views\<close>

record latency_summary =
  ls_runs :: nat
  ls_initiated :: nat
  ls_successful :: nat
  ls_failures_by_category :: "(string, nat) dict"
  ls_failure_rate :: "rat option"
  ls_p50_ms :: "rat option"
  ls_p95_ms :: "rat option"
  ls_p99_ms :: "rat option"
  ls_mean_ms :: "rat option"
  ls_min_ms :: "rat option"
  ls_max_ms :: "rat option"

definition mean :: "rat list \<Rightarrow> rat option" where
  "mean vs = (if vs = [] then None else Some (sum_list vs / of_nat (length vs)))"

definition selected_latency :: "run_records list \<Rightarrow> string \<Rightarrow> run_records list" where
  "selected_latency runs name =
     filter (\<lambda>r. rn_workload r = E3_WORKLOAD_LATENCY \<and> rn_topology r = name \<and> rn_valid r) runs"

definition summarise_latency :: "run_records list \<Rightarrow> latency_summary" where
  "summarise_latency sel =
     (let pool = sort (concat (map rtts_ns sel)); ms = concat (map measured sel); initiated = length ms
      in \<lparr>ls_runs = length sel, ls_initiated = initiated, ls_successful = length pool,
          ls_failures_by_category = count_by outcome (filter (\<lambda>r. \<not> is_success r) ms),
          ls_failure_rate = (if initiated \<noteq> 0
            then Some (py_round 6 (of_int (int initiated - int (length pool)) / of_nat initiated)) else None),
          ls_p50_ms = ns_to_ms (quantile_of pool (fl (50 / 100))),
          ls_p95_ms = ns_to_ms (quantile_of pool (fl (95 / 100))),
          ls_p99_ms = ns_to_ms (quantile_of pool (fl (99 / 100))),
          ls_mean_ms = map_option (\<lambda>x. py_round 4 (x / 1000000)) (mean (map of_int pool)),
          ls_min_ms = (if pool = [] then None else ns_to_ms (Some (of_int (hd pool)))),
          ls_max_ms = (if pool = [] then None else ns_to_ms (Some (of_int (last pool))))\<rparr>)"

definition latency_topology_summary :: "run_records list \<Rightarrow> (string, latency_summary) dict" where
  "latency_topology_summary runs =
     map (\<lambda>name. (name, summarise_latency (selected_latency runs name))) [E3_TOPOLOGY_LOCAL, E3_TOPOLOGY_FEDERATED]"

record throughput_summary =
  ts_runs :: nat
  ts_observed :: "rat list"
  ts_median :: "rat option"
  ts_min :: "rat option"
  ts_max :: "rat option"
  ts_mean_failure_rate :: "rat option"
  ts_stationarity :: "stationarity_figures option list"
  ts_boundary :: "boundary_figures option list"

definition summarise_throughput :: "run_records list \<Rightarrow> throughput_summary" where
  "summarise_throughput sel =
     (let ordered = sort (List.map_filter observed_throughput sel);
          rates = List.map_filter run_failure_rate sel
      in \<lparr>ts_runs = length sel, ts_observed = map (py_round 4) ordered,
          ts_median = map_option (py_round 4) (median ordered),
          ts_min = (if ordered = [] then None else Some (py_round 4 (hd ordered))),
          ts_max = (if ordered = [] then None else Some (py_round 4 (last ordered))),
          ts_mean_failure_rate = map_option (py_round 6) (mean rates),
          ts_stationarity = map stationarity sel, ts_boundary = map boundary_diagnostics sel\<rparr>)"

definition throughput_topology_summary :: "run_records list \<Rightarrow> nat \<Rightarrow> (string, throughput_summary) dict" where
  "throughput_topology_summary runs c = map (\<lambda>name. (name, summarise_throughput (filter
     (\<lambda>r. rn_workload r = E3_WORKLOAD_THROUGHPUT \<and> rn_topology r = name \<and> rn_concurrency r = c \<and> rn_valid r) runs)))
     [E3_TOPOLOGY_LOCAL, E3_TOPOLOGY_FEDERATED]"

record c1_check =
  c1_mean_rtt_ms :: "rat option"
  c1_predicted :: "rat option"
  c1_observed :: "(nat, rat option) dict"
  c1_ratio :: "(nat, rat option) dict"

text \<open>A value that is \<open>None\<close> or zero is false.\<close>

definition truthy_rat :: "rat option \<Rightarrow> rat option" where
  "truthy_rat v = (case v of None \<Rightarrow> None | Some x \<Rightarrow> if x = 0 then None else Some x)"

definition derived_c1_check ::
  "(string, latency_summary) dict \<Rightarrow> (nat, (string, throughput_summary) dict) dict \<Rightarrow> (string, c1_check) dict" where
  "derived_c1_check lat thr = map (\<lambda>name.
     (let mean_ms = (case map_of lat name of None \<Rightarrow> None | Some s \<Rightarrow> ls_mean_ms s);
          predicted = map_option (\<lambda>m. 1000 / m) (truthy_rat mean_ms);
          observed = map (\<lambda>(level, d). (level, case map_of d name of None \<Rightarrow> None | Some s \<Rightarrow> ts_median s)) thr
      in (name, \<lparr>c1_mean_rtt_ms = mean_ms, c1_predicted = map_option (py_round 4) (truthy_rat predicted),
          c1_observed = observed,
          c1_ratio = map (\<lambda>(level, v). (level, case (truthy_rat predicted, truthy_rat v) of
             (Some p, Some x) \<Rightarrow> Some (py_round 4 (x / p)) | _ \<Rightarrow> None)) observed\<rparr>)))
     [E3_TOPOLOGY_LOCAL, E3_TOPOLOGY_FEDERATED]"

section \<open>Diagnostics\<close>

text \<open>Failures the agent observed itself, one per request event, from its own stream.\<close>

definition contains :: "string \<Rightarrow> string \<Rightarrow> bool" where
  "contains pat s \<longleftrightarrow> list_ex (\<lambda>i. take (length pat) (drop i s) = pat) [0..<length s + 1]"

definition show_int :: "int \<Rightarrow> string" where
  "show_int n = (if n < 0 then ''-'' @ dec (nat (- n)) else dec (nat n))"

definition failure_key :: "agent_record \<Rightarrow> string" where
  "failure_key r = (case request_event_id r of
     Some e \<Rightarrow> if e \<noteq> [] then e else ''seq:'' @ (case rec_sequence_id r of None \<Rightarrow> ''None'' | Some n \<Rightarrow> show_int n)
   | None \<Rightarrow> ''seq:'' @ (case rec_sequence_id r of None \<Rightarrow> ''None'' | Some n \<Rightarrow> show_int n))"

definition load_agent_records :: "(string \<Rightarrow> agent_record option) \<Rightarrow> string list \<Rightarrow> agent_record list" where
  "load_agent_records json ls = load_lines json ls"

definition agent_failures :: "agent_record list \<Rightarrow> (string, string) dict" where
  "agent_failures rs = fold (\<lambda>r d. AList.update (failure_key r) (rec_note r) d)
     (filter (\<lambda>r. action r = ''send_failed'' \<or> action r = ''execution_failed'') rs) []"

definition agent_limited :: "agent_record list \<Rightarrow> (string, string) dict" where
  "agent_limited rs = fold (\<lambda>r d. AList.update (failure_key r) (rec_note r) d)
     (filter (\<lambda>r. (action r = ''send_failed'' \<or> action r = ''execution_failed'') \<and>
        contains ''M_LIMIT_EXCEEDED'' (rec_note r)) rs) []"

record agent_failure_row =
  af_run_id :: string
  af_topology :: string
  af_workload :: string
  af_concurrency :: nat
  af_failed :: nat
  af_limited :: nat
  af_request_event_ids :: "string list"

definition agent_failure_row_of ::
  "(string \<Rightarrow> agent_record option) \<Rightarrow> (string \<Rightarrow> string list option) \<Rightarrow> run_records \<Rightarrow> agent_failure_row option" where
  "agent_failure_row_of json file run =
     (case find (\<lambda>a. art_role a = ''agent_telemetry_stream'') (mf_raw_artifacts (rn_manifest run)) of
        None \<Rightarrow> None
      | Some a \<Rightarrow> (case file (art_path a) of
          None \<Rightarrow> None
        | Some ls \<Rightarrow>
            (let rs = load_agent_records json ls; failed = agent_failures rs in
             if failed = [] then None
             else Some \<lparr>af_run_id = rn_run_id run, af_topology = rn_topology run, af_workload = rn_workload run,
               af_concurrency = rn_concurrency run, af_failed = length failed,
               af_limited = length (agent_limited rs),
               af_request_event_ids = take 20 (sort (map fst failed))\<rparr>)))"

record agent_failure_report =
  agent_send_failed_total :: nat
  agent_m_limit_exceeded_total :: nat
  runs_affected :: "agent_failure_row list"

definition agent_send_failures ::
  "(string \<Rightarrow> agent_record option) \<Rightarrow> (string \<Rightarrow> string list option) \<Rightarrow> run_records list \<Rightarrow> agent_failure_report" where
  "agent_send_failures json file runs =
     (let rows = List.map_filter (agent_failure_row_of json file) runs
      in \<lparr>agent_send_failed_total = sum_list (map af_failed rows),
          agent_m_limit_exceeded_total = sum_list (map af_limited rows), runs_affected = rows\<rparr>)"

definition get0 :: "(string, int) dict \<Rightarrow> string \<Rightarrow> int" where
  "get0 d k = (case map_of d k of None \<Rightarrow> 0 | Some n \<Rightarrow> n)"

definition workload_episodes :: "run_records \<Rightarrow> int" where
  "workload_episodes run = get0 (mf_sender_diagnostics (rn_manifest run)) ''live_recovery_episodes'' +
     get0 (mf_agent_diagnostics (rn_manifest run)) ''productive_recovery_episodes''"

record recovery_row =
  rv_run_id :: string
  rv_sender_episodes :: "int option"
  rv_sender_pages :: "int option"
  rv_agent_productive :: "int option"
  rv_agent_events :: "int option"
  rv_overlap :: nat

record recovery_report =
  rp_duplicates_total :: nat
  rp_duplicate_rows :: "(string \<times> nat \<times> nat) list"
  rp_without_evidence :: nat
  rp_live_recovery :: "recovery_row list"
  rp_setup_only :: nat
  rp_overlap_total :: nat
  rp_rate_limited :: "(string \<times> nat) list"

definition recovery_and_rate_limit_diagnostics :: "run_records list \<Rightarrow> recovery_report" where
  "recovery_and_rate_limit_diagnostics runs =
     \<lparr>rp_duplicates_total = sum_list (map duplicate_ack_observations runs),
      rp_duplicate_rows = map (\<lambda>r. (rn_run_id r, duplicate_ack_observations r, run_requests_with_duplicate_acks r))
        (filter (\<lambda>r. duplicate_ack_observations r \<noteq> 0) runs),
      rp_without_evidence = length (filter (\<lambda>r. \<not> carries_duplicate_evidence r) runs),
      rp_live_recovery = map (\<lambda>r. let s = mf_sender_diagnostics (rn_manifest r); a = mf_agent_diagnostics (rn_manifest r)
        in \<lparr>rv_run_id = rn_run_id r, rv_sender_episodes = map_of s ''live_recovery_episodes'',
            rv_sender_pages = map_of s ''live_recovery_pages'',
            rv_agent_productive = map_of a ''productive_recovery_episodes'',
            rv_agent_events = map_of a ''events_recovered_from_history'', rv_overlap = recovery_overlap r\<rparr>)
        (filter (\<lambda>r. workload_episodes r \<noteq> 0) runs),
      rp_setup_only = length (filter (\<lambda>r. workload_episodes r = 0 \<and>
        get0 (mf_agent_diagnostics (rn_manifest r)) ''live_recovery_episodes'' \<noteq> 0) runs),
      rp_overlap_total = sum_list (map recovery_overlap runs),
      rp_rate_limited = map (\<lambda>r. (rn_run_id r, rate_limited_sends r)) (filter (\<lambda>r. rate_limited_sends r \<noteq> 0) runs)\<rparr>"

record drift_row =
  dr_run_id :: string
  dr_position :: nat
  dr_block_id :: string
  dr_topology :: string
  dr_joined_rooms :: "int option"
  dr_p50_ms :: "rat option"
  dr_successful :: nat

definition start_stamp :: "run_records \<Rightarrow> string" where
  "start_stamp r = (case mf_start_timestamp (rn_manifest r) of None \<Rightarrow> [] | Some s \<Rightarrow> s)"

definition drift_rows :: "run_records list \<Rightarrow> drift_row list" where
  "drift_rows runs =
     (let ordered = sort_key start_stamp (filter (\<lambda>r. rn_workload r = E3_WORKLOAD_LATENCY \<and> rn_valid r) runs)
      in map (\<lambda>(i, r). \<lparr>dr_run_id = rn_run_id r, dr_position = i, dr_block_id = rn_block_id r,
           dr_topology = rn_topology r, dr_joined_rooms = mf_sender_joined_rooms (rn_manifest r),
           dr_p50_ms = ns_to_ms (quantile_of (rtts_ns r) (fl (50 / 100))), dr_successful = length (rtts_ns r)\<rparr>)
         (enumerate 1 ordered))"

definition pearson :: "(rat \<Rightarrow> rat) \<Rightarrow> rat list \<Rightarrow> rat list \<Rightarrow> rat option" where
  "pearson sqroot xs ys =
     (if length xs < 3 then None
      else let mx = sum_list xs / of_nat (length xs); my = sum_list ys / of_nat (length ys);
             cov = sum_list (map (\<lambda>(x, y). (x - mx) * (y - my)) (zip xs ys));
             vx = sum_list (map (\<lambda>x. (x - mx)\<^sup>2) xs); vy = sum_list (map (\<lambda>y. (y - my)\<^sup>2) ys)
        in if vx = 0 \<or> vy = 0 then None else Some (py_round 4 (cov / sqroot (vx * vy))))"

record drift_report =
  dp_rows :: "drift_row list"
  dp_rooms_first :: "int option"
  dp_rooms_last :: "int option"
  dp_pearson :: "(string, rat option) dict"
  dp_halves :: "(string, rat \<times> rat) dict"

definition environment_drift :: "(rat \<Rightarrow> rat) \<Rightarrow> run_records list \<Rightarrow> drift_report" where
  "environment_drift sqroot runs =
     (let rows = drift_rows runs; usable = filter (\<lambda>r. dr_p50_ms r \<noteq> None) rows;
          subset = (\<lambda>name. filter (\<lambda>r. dr_topology r = name) usable);
          p50 = (\<lambda>r. the (dr_p50_ms r))
      in \<lparr>dp_rows = rows,
          dp_rooms_first = (if usable = [] then None else dr_joined_rooms (hd usable)),
          dp_rooms_last = (if usable = [] then None else dr_joined_rooms (last usable)),
          dp_pearson = map (\<lambda>name. (name, pearson sqroot (map (\<lambda>r. of_nat (dr_position r)) (subset name))
            (map p50 (subset name)))) [E3_TOPOLOGY_LOCAL, E3_TOPOLOGY_FEDERATED],
          dp_halves = List.map_filter (\<lambda>name. let s = subset name; m = length s div 2 in
            if 4 \<le> length s then Some (name, py_round 3 (the (mean (map p50 (take m s)))),
              py_round 3 (the (mean (map p50 (drop m s))))) else None)
            [E3_TOPOLOGY_LOCAL, E3_TOPOLOGY_FEDERATED]\<rparr>)"

record sync_report =
  sy_requested :: "(string, string) dict"
  sy_max_timeline :: int
  sy_limited :: int

definition sync_configuration_summary :: "run_records list \<Rightarrow> sync_report option" where
  "sync_configuration_summary runs =
     (if runs = [] then None
      else Some \<lparr>sy_requested = mf_sync_configuration (rn_manifest (hd runs)),
        sy_max_timeline = fold (\<lambda>r m. max m (get0 (mf_sender_diagnostics (rn_manifest r)) ''max_timeline_events_observed''))
          runs 0,
        sy_limited = sum_list (map (\<lambda>r. get0 (mf_sender_diagnostics (rn_manifest r)) ''limited_syncs_observed'') runs)\<rparr>)"

section \<open>The analysis\<close>

record analysis =
  an_campaign_id :: "string option"
  an_campaign_fingerprint :: "string option"
  an_schedule_seed :: "int option"
  an_source_run_ids :: "string list"
  an_source_block_ids :: "string list"
  an_source_digests :: "(string, (string, string) dict) dict"
  an_sync_configuration :: "sync_report option"
  an_runs_total :: nat
  an_runs_valid :: nat
  an_runs_invalid :: "(string \<times> string option) list"
  an_integrity_problems :: "(string \<times> nat \<times> anomaly) list"
  an_latency :: "(string, latency_summary) dict"
  an_paired_blocks :: nat
  an_incomplete_blocks :: "string list"
  an_latency_bootstrap :: "latency_bootstrap option"
  an_throughput :: "(nat, (string, throughput_summary) dict) dict"
  an_throughput_bootstrap :: "(nat, throughput_bootstrap option) dict"
  an_throughput_paired :: "(nat, nat) dict"
  an_c1 :: "(string, c1_check) dict"
  an_diagnostics :: recovery_report
  an_agent_failures :: "agent_failure_report option"
  an_drift :: drift_report

definition latency_runs :: "run_records list \<Rightarrow> run_records list" where
  "latency_runs runs = filter (\<lambda>r. rn_workload r = E3_WORKLOAD_LATENCY) runs"

definition throughput_runs :: "run_records list \<Rightarrow> nat \<Rightarrow> run_records list" where
  "throughput_runs runs level =
     filter (\<lambda>r. rn_workload r = E3_WORKLOAD_THROUGHPUT \<and> rn_concurrency r = level) runs"

definition concurrency_levels :: "run_records list \<Rightarrow> nat list" where
  "concurrency_levels runs =
     sort (remdups (map rn_concurrency (filter (\<lambda>r. rn_workload r = E3_WORKLOAD_THROUGHPUT) runs)))"

definition analyse ::
  "(nat \<Rightarrow> nat list list) \<Rightarrow> (nat list \<Rightarrow> nat list list) \<Rightarrow> (rat \<Rightarrow> rat) \<Rightarrow>
   (run_records list \<Rightarrow> agent_failure_report) option \<Rightarrow> run_records list \<Rightarrow> analysis" where
  "analyse draw_latency draw_throughput sqroot agent_report runs =
     (let lat = latency_runs runs; blocks = pair_blocks lat; levels = concurrency_levels runs;
          summary = latency_topology_summary lat;
          thr = map (\<lambda>c. (c, throughput_topology_summary (throughput_runs runs c) c)) levels
      in \<lparr>an_campaign_id = (if runs = [] then None else Some (rn_campaign_id (hd runs))),
          an_campaign_fingerprint = (if runs = [] then None else mf_campaign_fingerprint (rn_manifest (hd runs))),
          an_schedule_seed = (if runs = [] then None else mf_schedule_seed (rn_manifest (hd runs))),
          an_source_run_ids = sort (map rn_run_id runs),
          an_source_block_ids = sort (remdups (filter (\<lambda>b. b \<noteq> []) (map rn_block_id runs))),
          an_source_digests = fold (\<lambda>r d. AList.update (rn_run_id r)
            (fold (\<lambda>a e. AList.update (art_role a) (art_sha256 a) e) (mf_raw_artifacts (rn_manifest r)) []) d) runs [],
          an_sync_configuration = sync_configuration_summary runs,
          an_runs_total = length runs, an_runs_valid = length (filter rn_valid runs),
          an_runs_invalid = map (\<lambda>r. (rn_run_id r, rn_invalid_class r)) (filter (\<lambda>r. \<not> rn_valid r) runs),
          an_integrity_problems = integrity_problems runs, an_latency = summary,
          an_paired_blocks = length blocks, an_incomplete_blocks = incomplete_blocks lat,
          an_latency_bootstrap = paired_bootstrap_latency blocks [fl (50 / 100), fl (95 / 100), fl (99 / 100)]
            (draw_latency (length blocks)) E3_BOOTSTRAP_CONFIDENCE,
          an_throughput = thr,
          an_throughput_bootstrap = map (\<lambda>c. (c, paired_bootstrap_throughput (pair_blocks (throughput_runs runs c))
            draw_throughput E3_BOOTSTRAP_CONFIDENCE)) levels,
          an_throughput_paired = map (\<lambda>c. (c, length (pair_blocks (throughput_runs runs c)))) levels,
          an_c1 = derived_c1_check summary thr,
          an_diagnostics = recovery_and_rate_limit_diagnostics runs,
          an_agent_failures = (case agent_report of None \<Rightarrow> None | Some f \<Rightarrow> Some (f runs)),
          an_drift = environment_drift sqroot runs\<rparr>)"

section \<open>Tidy tables\<close>

record latency_row =
  lr_topology :: string
  lr_percentile :: string
  lr_value_ms :: "rat option"
  lr_successful :: nat
  lr_initiated :: nat
  lr_failure_rate :: "rat option"
  lr_runs :: nat

record comparison_row =
  cr_workload :: string
  cr_metric :: string
  cr_local :: "rat option"
  cr_federated :: "rat option"
  cr_difference :: "rat option"
  cr_difference_ci :: interval
  cr_ratio :: "rat option"
  cr_ratio_ci :: interval

record throughput_row =
  tr_concurrency :: nat
  tr_topology :: string
  tr_run_index :: nat
  tr_observed :: rat

record stationarity_row =
  st_concurrency :: nat
  st_topology :: string
  st_run_index :: nat
  st_figures :: stationarity_figures

definition latency_rows :: "analysis \<Rightarrow> latency_row list" where
  "latency_rows an = concat (map (\<lambda>(name, s). map (\<lambda>(label, v).
     \<lparr>lr_topology = name, lr_percentile = label, lr_value_ms = v, lr_successful = ls_successful s,
      lr_initiated = ls_initiated s, lr_failure_rate = ls_failure_rate s, lr_runs = ls_runs s\<rparr>)
     [(''p50'', ls_p50_ms s), (''p95'', ls_p95_ms s), (''p99'', ls_p99_ms s)]) (an_latency an))"

definition percentile_label :: "rat \<Rightarrow> string" where
  "percentile_label q = ''p'' @ show_int \<lfloor>fl (q * 100)\<rfloor>"

definition comparison_rows :: "analysis \<Rightarrow> comparison_row list" where
  "comparison_rows an =
     (case an_latency_bootstrap an of None \<Rightarrow> [] | Some b \<Rightarrow> map (\<lambda>p.
        \<lparr>cr_workload = ''latency'', cr_metric = percentile_label (pc_quantile p), cr_local = pc_local_ms p,
         cr_federated = pc_federated_ms p, cr_difference = pc_difference_ms p,
         cr_difference_ci = pc_difference_ci_ms p, cr_ratio = pc_ratio p, cr_ratio_ci = pc_ratio_ci p\<rparr>)
        (lb_percentiles b)) @
     List.map_filter (\<lambda>(level, _). case map_of (an_throughput_bootstrap an) level of
        Some (Some b) \<Rightarrow> Some
          \<lparr>cr_workload = ''throughput'', cr_metric = ''C='' @ dec level @ '' median observed throughput'',
           cr_local = Some (tb_local b), cr_federated = Some (tb_federated b),
           cr_difference = Some (tb_difference b), cr_difference_ci = tb_difference_ci b,
           cr_ratio = tb_ratio b, cr_ratio_ci = tb_ratio_ci b\<rparr>
      | _ \<Rightarrow> None) (an_throughput an)"

definition throughput_rows :: "analysis \<Rightarrow> throughput_row list" where
  "throughput_rows an = concat (map (\<lambda>(level, d). concat (map (\<lambda>(name, s).
     map (\<lambda>(i, v). \<lparr>tr_concurrency = level, tr_topology = name, tr_run_index = i, tr_observed = v\<rparr>)
       (enumerate 0 (ts_observed s))) d)) (an_throughput an))"

definition stationarity_rows :: "analysis \<Rightarrow> stationarity_row list" where
  "stationarity_rows an = concat (map (\<lambda>(level, d). concat (map (\<lambda>(name, s).
     List.map_filter (\<lambda>(i, v). map_option
         (\<lambda>f. \<lparr>st_concurrency = level, st_topology = name, st_run_index = i, st_figures = f\<rparr>) v)
       (enumerate 0 (ts_stationarity s))) d)) (an_throughput an))"

section \<open>Lemmas\<close>

lemma interval_of_bounds:
  assumes "vs \<noteq> []" and "0 \<le> tail" and "tail \<le> tail'" and "tail = fl (fl (1 - fl c) / 2)" and "tail' = fl (1 - tail)"
  obtains lo hi where "low (interval_of vs c) = Some lo" "high (interval_of vs c) = Some hi" "lo \<le> hi"
    "lo \<in> set vs" "hi \<in> set vs"
proof -
  obtain lo hi where l: "percentile (sort vs) tail = Some lo" and h: "percentile (sort vs) tail' = Some hi"
    using assms(1) by (metis not_None_eq percentile_none set_empty set_sort)
  moreover have "lo \<le> hi" by (rule percentile_mono [OF _ assms(2,3) l h]) simp
  moreover have "lo \<in> set vs" "hi \<in> set vs" using percentile_in [OF l] percentile_in [OF h] by simp_all
  ultimately show thesis using that assms(1,4,5) by (simp add: interval_of_def Let_def)
qed

text \<open>The two tails of the frozen confidence, as doubles.\<close>

definition frozen_tail :: rat where
  "frozen_tail = fl (fl (1 - fl E3_BOOTSTRAP_CONFIDENCE) / 2)"

lemma frozen_tail_value: "frozen_tail = 225179981368525 / 9007199254740992"
  by code_simp

lemma frozen_tail_mirror: "fl (1 - frozen_tail) = 8782019273372467 / 9007199254740992"
  unfolding frozen_tail_value by code_simp

lemma frozen_tail_order: "0 \<le> frozen_tail \<and> frozen_tail \<le> fl (1 - frozen_tail)"
  unfolding frozen_tail_mirror unfolding frozen_tail_value by simp

lemma frozen_ranks: "rank_index 2000 frozen_tail = 50 \<and> rank_index 2000 (fl (1 - frozen_tail)) = 1949"
proof -
  have "\<lceil>fl (frozen_tail * 2000)\<rceil> = 51" "\<lceil>fl (fl (1 - frozen_tail) * 2000)\<rceil> = 1950"
    unfolding frozen_tail_mirror unfolding frozen_tail_value by code_simp+
  then show ?thesis by (simp add: rank_index_def)
qed

lemma length_pooled: "length (pooled ix src) = sum_list (map (\<lambda>i. length (src ! i)) ix)"
  by (simp add: pooled_def length_concat comp_def)

lemma set_pooled: "set (pooled ix src) = (\<Union>i \<in> set ix. set (src ! i))"
  by (simp add: pooled_def)

lemma count_by_snoc: "count_by f (xs @ [x]) = AList.update (f x)
    (case map_of (count_by f xs) (f x) of None \<Rightarrow> 1 | Some n \<Rightarrow> n + 1) (count_by f xs)"
  by (simp add: count_by_def)

lemma sum_count_by: "sum_list (map snd (count_by f xs)) = length xs"
proof (induction xs rule: rev_induct)
  case (snoc x xs)
  show ?case
  proof (cases "map_of (count_by f xs) (f x)")
    case None
    with snoc show ?thesis by (simp add: count_by_snoc update_none)
  next
    case (Some n)
    with snoc sum_list_update_old [OF Some, of id "n + 1"] show ?thesis by (simp add: count_by_snoc)
  qed
qed (simp add: count_by_def)

lemma length_rtts: "length (rtts_ns run) = length (filter (\<lambda>r. is_success r \<and> completed_ns r \<noteq> None) (measured run))"
  by (simp add: rtts_ns_def)

lemma length_all_rtts:
  "length (concat (map rtts_ns sel)) =
    length (filter (\<lambda>r. is_success r \<and> completed_ns r \<noteq> None) (concat (map measured sel)))"
  by (induction sel) (simp_all add: length_rtts)

lemma replicate_pairs_member:
  "p \<in> set (replicate_pairs q local fed samples) \<longleftrightarrow> (\<exists>ix \<in> set samples.
    quantile_of (pooled ix local) q = Some (fst p) \<and> quantile_of (pooled ix fed) q = Some (snd p))"
  unfolding replicate_pairs_def List.map_filter_def by (cases p) (force split: option.splits)

lemma quantile_of_in: "quantile_of xs q = Some v \<Longrightarrow> v \<in> of_int ` set xs"
  unfolding quantile_of_def using percentile_in by fastforce

lemma length_replicate_pairs:
  "(\<And>ix. ix \<in> set samples \<Longrightarrow> pooled ix local \<noteq> [] \<and> pooled ix fed \<noteq> []) \<Longrightarrow>
    length (replicate_pairs q local fed samples) = length samples"
proof (induction samples)
  case (Cons ix samples)
  then have "quantile_of (pooled ix local) q \<noteq> None" "quantile_of (pooled ix fed) q \<noteq> None"
    by (simp_all add: quantile_of_def)
  with Cons show ?case by (auto simp: replicate_pairs_def List.map_filter_simps)
qed (simp add: replicate_pairs_def List.map_filter_simps)

section \<open>Properties\<close>

text \<open>
  A confidence interval of the frozen confidence has both ends among the replicate
  values, the lower not above the upper. Of the frozen 2000 replicates the ends are the
  51st and the 1950th in order: the tail computed in floating point exceeds 1/40, which
  moves the lower rank from 50 to 51 and leaves 50 replicates outside on either side.
\<close>

theorem interval_exact:
  assumes "vs \<noteq> []"
  shows "\<exists>lo hi. interval_of vs E3_BOOTSTRAP_CONFIDENCE = \<lparr>low = Some lo, high = Some hi\<rparr> \<and>
    lo \<in> set vs \<and> hi \<in> set vs \<and> lo \<le> hi \<and>
    (length vs = E3_BOOTSTRAP_REPLICATES \<longrightarrow> lo = sort vs ! 50 \<and> hi = sort vs ! 1949)"
proof -
  obtain lo hi where i: "low (interval_of vs E3_BOOTSTRAP_CONFIDENCE) = Some lo"
    "high (interval_of vs E3_BOOTSTRAP_CONFIDENCE) = Some hi" "lo \<le> hi" "lo \<in> set vs" "hi \<in> set vs"
    using interval_of_bounds [OF assms conjunct1 [OF frozen_tail_order] conjunct2 [OF frozen_tail_order]
      frozen_tail_def refl] by blast
  have "lo = sort vs ! 50 \<and> hi = sort vs ! 1949" if "length vs = E3_BOOTSTRAP_REPLICATES"
  proof -
    have len: "length vs = 2000" using that by (simp add: E3_BOOTSTRAP_REPLICATES_def)
    have "sort vs \<noteq> []" using assms by (metis set_empty set_sort)
    then have "low (interval_of vs E3_BOOTSTRAP_CONFIDENCE) = Some (sort vs ! 50)"
      "high (interval_of vs E3_BOOTSTRAP_CONFIDENCE) = Some (sort vs ! 1949)"
      using frozen_ranks assms
      by (simp_all add: interval_of_def percentile_eq len Let_def flip: frozen_tail_def)
    with i show ?thesis by simp
  qed
  with i show ?thesis by (metis (mono_tags) interval.surjective old.unit.exhaust)
qed

theorem interval_exact_witness:
  "\<exists>lo hi. interval_of (map of_nat [0..<2000]) E3_BOOTSTRAP_CONFIDENCE = \<lparr>low = Some lo, high = Some hi\<rparr> \<and>
    lo = 50 \<and> hi = 1949"
proof -
  let ?vs = "map of_nat [0..<2000] :: rat list"
  have "?vs \<noteq> []" by simp
  from interval_exact [OF this] obtain lo hi where
    "interval_of ?vs E3_BOOTSTRAP_CONFIDENCE = \<lparr>low = Some lo, high = Some hi\<rparr>"
    "length ?vs = E3_BOOTSTRAP_REPLICATES \<longrightarrow> lo = sort ?vs ! 50 \<and> hi = sort ?vs ! 1949" by blast
  moreover have "length ?vs = E3_BOOTSTRAP_REPLICATES" by (simp add: E3_BOOTSTRAP_REPLICATES_def)
  moreover have "sort ?vs = ?vs" by (rule sort_key_id_if_sorted) (simp add: sorted_map sorted_wrt_upt)
  ultimately show ?thesis by simp
qed

text \<open>
  The bootstrap resamples blocks: in each replicate the local and the federated value
  are RTTs of runs of the same selected blocks, a replicate is used if every block has a
  success on both sides, and resampling each block exactly once in order gives the point
  estimate.
\<close>

theorem bootstrap_resamples_blocks:
  fixes blocks :: "paired_block list"
  assumes "local = map (\<lambda>b. rtts_ns (pb_local b)) blocks" and "fed = map (\<lambda>b. rtts_ns (pb_federated b)) blocks"
    and "\<forall>ix \<in> set samples. ix \<noteq> [] \<and> set ix \<subseteq> {..<length blocks}"
  shows "(\<forall>p \<in> set (replicate_pairs q local fed samples). \<exists>ix \<in> set samples.
      (\<exists>i \<in> set ix. fst p \<in> of_int ` set (rtts_ns (pb_local (blocks ! i)))) \<and>
      (\<exists>i \<in> set ix. snd p \<in> of_int ` set (rtts_ns (pb_federated (blocks ! i))))) \<and>
    ((\<forall>b \<in> set blocks. rtts_ns (pb_local b) \<noteq> [] \<and> rtts_ns (pb_federated b) \<noteq> []) \<longrightarrow>
      length (replicate_pairs q local fed samples) = length samples) \<and>
    set (replicate_pairs q local fed [[0..<length blocks]]) \<subseteq>
      {(lo, fe). quantile_of (pooled [0..<length local] local) q = Some lo \<and>
                 quantile_of (pooled [0..<length local] fed) q = Some fe}"
proof (intro conjI ballI impI)
  fix p
  assume "p \<in> set (replicate_pairs q local fed samples)"
  then obtain ix where ix: "ix \<in> set samples" "quantile_of (pooled ix local) q = Some (fst p)"
    "quantile_of (pooled ix fed) q = Some (snd p)" by (auto simp: replicate_pairs_member)
  from ix(1) assms(3) have "set ix \<subseteq> {..<length blocks}" by blast
  then have "\<forall>i \<in> set ix. local ! i = rtts_ns (pb_local (blocks ! i)) \<and>
      fed ! i = rtts_ns (pb_federated (blocks ! i))" by (auto simp: assms(1,2))
  with quantile_of_in [OF ix(2)] quantile_of_in [OF ix(3)]
  have "(\<exists>i \<in> set ix. fst p \<in> of_int ` set (rtts_ns (pb_local (blocks ! i)))) \<and>
      (\<exists>i \<in> set ix. snd p \<in> of_int ` set (rtts_ns (pb_federated (blocks ! i))))"
    unfolding set_pooled by fastforce
  with ix(1) show "\<exists>ix \<in> set samples. (\<exists>i \<in> set ix. fst p \<in> of_int ` set (rtts_ns (pb_local (blocks ! i)))) \<and>
      (\<exists>i \<in> set ix. snd p \<in> of_int ` set (rtts_ns (pb_federated (blocks ! i))))" by blast
next
  assume ne: "\<forall>b \<in> set blocks. rtts_ns (pb_local b) \<noteq> [] \<and> rtts_ns (pb_federated b) \<noteq> []"
  have "pooled ix local \<noteq> [] \<and> pooled ix fed \<noteq> []" if "ix \<in> set samples" for ix
  proof -
    from that assms(3) obtain i where i: "i \<in> set ix" "i < length blocks" by (metis hd_in_set lessThan_iff subsetD)
    with ne have "local ! i \<noteq> []" "fed ! i \<noteq> []" by (simp_all add: assms(1,2))
    with i(1) show ?thesis by (metis UN_iff list.set_intros(1) neq_Nil_conv set_pooled empty_iff list.set(1))
  qed
  then show "length (replicate_pairs q local fed samples) = length samples" by (rule length_replicate_pairs)
qed (auto simp: replicate_pairs_member assms(1))

theorem bootstrap_resamples_blocks_witness:
  "let b = \<lparr>pb_block_id = ''b1'', pb_local = example_run, pb_federated = example_run\<rparr>;
       runs = map (\<lambda>b. rtts_ns (pb_local b)) [b, b]
   in set (replicate_pairs (1 / 2) runs runs [[0..<2]]) \<subseteq>
        {(lo, fe). quantile_of (pooled [0..<2] runs) (1 / 2) = Some lo \<and>
                   quantile_of (pooled [0..<2] runs) (1 / 2) = Some fe}"
proof -
  define b where "b = \<lparr>pb_block_id = ''b1'', pb_local = example_run, pb_federated = example_run\<rparr>"
  have "map (\<lambda>b. rtts_ns (pb_local b)) [b, b] = map (\<lambda>b. rtts_ns (pb_federated b)) [b, b]" by (simp add: b_def)
  from bootstrap_resamples_blocks [OF refl this, of "[[0, 1]]" "1 / 2"]
  show ?thesis unfolding Let_def b_def [symmetric] by (simp add: numeral_2_eq_2)
qed

text \<open>
  If every measured success carries its completion time, the latency summary accounts
  for each measured interaction as one success or one categorised failure; and if none was
  sent offline, its failure rate is the frozen one of the measured outcomes, rounded.
\<close>

theorem latency_summary_exact:
  assumes "\<forall>run \<in> set sel. \<forall>r \<in> set (measured run). is_success r \<longrightarrow> completed_ns r \<noteq> None"
    and "s = summarise_latency sel" and "outs = map outcome (concat (map measured sel))"
  shows "ls_initiated s = ls_successful s + sum_list (map snd (ls_failures_by_category s)) \<and>
    (''offline_send'' \<notin> set outs \<longrightarrow> ls_failure_rate s = map_option (py_round 6) (failure_rate outs))"
proof -
  let ?ms = "concat (map measured sel)"
  have "filter (\<lambda>r. is_success r \<and> completed_ns r \<noteq> None) ?ms = filter is_success ?ms"
    using assms(1) by (intro filter_cong) auto
  then have suc: "ls_successful s = length (filter is_success ?ms)"
    using length_all_rtts [of sel] by (simp add: assms(2) summarise_latency_def Let_def)
  have ini: "ls_initiated s = length ?ms" by (simp add: assms(2) summarise_latency_def Let_def)
  have fail: "sum_list (map snd (ls_failures_by_category s)) = length (filter (\<lambda>r. \<not> is_success r) ?ms)"
    by (simp add: assms(2) summarise_latency_def Let_def sum_count_by)
  have split: "length (filter is_success ?ms) + length (filter (\<lambda>r. \<not> is_success r) ?ms) = length ?ms"
    by (rule length_filter_split)
  have "ls_failure_rate s = map_option (py_round 6) (failure_rate outs)" if "''offline_send'' \<notin> set outs"
  proof -
    have "filter (\<lambda>o'. o' \<notin> EXCLUDED_FROM_FAILURE_RATE) outs = outs"
      using that by (simp add: filter_id_conv EXCLUDED_FROM_FAILURE_RATE_def) metis
    moreover have "length (filter (\<lambda>o'. o' \<noteq> outcome_value SUCCESS) outs) = length (filter (\<lambda>r. \<not> is_success r) ?ms)"
      by (simp add: assms(3) filter_map comp_def is_success_def)
    ultimately have fr: "failure_rate outs = (if ?ms = [] then None
        else Some (of_nat (length (filter (\<lambda>r. \<not> is_success r) ?ms)) / of_nat (length ?ms)))"
      by (simp add: failure_rate_def Let_def assms(3) del: outcome_value.simps)
    have "ls_failure_rate s = (if length ?ms \<noteq> 0
        then Some (py_round 6 (of_int (int (length ?ms) - int (ls_successful s)) / of_nat (length ?ms))) else None)"
      by (simp add: assms(2) summarise_latency_def Let_def)
    moreover have "int (length ?ms) - int (ls_successful s) = int (length (filter (\<lambda>r. \<not> is_success r) ?ms))"
      using split suc by simp
    ultimately show ?thesis unfolding fr by simp
  qed
  with suc ini fail split show ?thesis by simp
qed

definition measured_run :: run_records where
  "measured_run = example_run\<lparr>rn_records := [(example_record 5 (Some 12) ''success'')\<lparr>phase := ''measured''\<rparr>,
     (example_record 15 None ''timeout'')\<lparr>phase := ''measured''\<rparr>]\<rparr>"

theorem latency_summary_exact_witness:
  "ls_initiated (summarise_latency [measured_run]) = 2 \<and>
   ls_successful (summarise_latency [measured_run]) +
     sum_list (map snd (ls_failures_by_category (summarise_latency [measured_run]))) = 2"
proof -
  have ms: "measured measured_run = rn_records measured_run"
    by (simp add: measured_run_def measured_def)
  then have "\<forall>run \<in> set [measured_run]. \<forall>r \<in> set (measured run). is_success r \<longrightarrow> completed_ns r \<noteq> None"
    by (simp add: measured_run_def example_record_def is_success_def make_benchmark_record_def
      runner_record.defs benchmark_record.defs)
  from latency_summary_exact [OF this refl refl]
  have "ls_initiated (summarise_latency [measured_run]) = ls_successful (summarise_latency [measured_run]) +
     sum_list (map snd (ls_failures_by_category (summarise_latency [measured_run])))" by blast
  moreover have "ls_initiated (summarise_latency [measured_run]) = 2"
    by (simp add: summarise_latency_def Let_def ms) (simp add: measured_run_def)
  ultimately show ?thesis by simp
qed

end
