(* ===== verification/Integrity.thy ===== *)
theory Integrity
  imports E3_Runs
begin

text \<open>
  \<^verbatim>\<open>src/fam/analysis/integrity.py\<close>: what the analysis reads from a manifest is compared
  with the raw stream it describes. A value of either side is a string, a number or absent;
  a problem is a value of a datatype instead of a line of text.
\<close>

datatype field_value = FStr string | FInt int | FNone

definition opt_int :: "int option \<Rightarrow> field_value" where
  "opt_int v = (case v of None \<Rightarrow> FNone | Some n \<Rightarrow> FInt n)"

text \<open>\<open>COMPARABLE\<close>, with what each side holds.\<close>

definition COMPARABLE :: "(string \<times> (e3_manifest \<Rightarrow> field_value) \<times> (benchmark_record \<Rightarrow> field_value)) list" where
  "COMPARABLE =
     [(''run_id'', \<lambda>m. FStr (mf_run_id m), \<lambda>r. FStr (rr_run_id r)),
      (''experiment'', \<lambda>m. FStr (mf_experiment m), \<lambda>r. FStr (rr_experiment r)),
      (''topology'', \<lambda>m. FStr (mf_topology m), \<lambda>r. FStr (rr_topology r)),
      (''workload_type'', \<lambda>m. FStr (mf_workload_type m), \<lambda>r. FStr (workload r)),
      (''paired_block_id'', \<lambda>m. FStr (mf_block_id m), \<lambda>r. FStr (block_id r)),
      (''concurrency'', \<lambda>m. FInt (int (mf_concurrency m)), \<lambda>r. FInt (int (concurrency r))),
      (''room_id'', \<lambda>m. FStr (mf_room_id m), \<lambda>r. FStr (rr_room_id r)),
      (''message_body_bytes'', \<lambda>m. FInt (mf_body_bytes m), \<lambda>r. FInt (message_body_bytes r)),
      (''window_start_ns'', \<lambda>m. opt_int (mf_window_start m), \<lambda>r. opt_int (rec_window_start r)),
      (''window_end_ns'', \<lambda>m. opt_int (mf_window_end m), \<lambda>r. opt_int (rec_window_end r))]"

definition MANIFEST_ONLY :: "string list" where
  "MANIFEST_ONLY = [''validity_classification'', ''publication_data'']"

definition WINDOW_FIELDS :: "string list" where
  "WINDOW_FIELDS = [''window_start_ns'', ''window_end_ns'']"

datatype problem =
    FieldMismatch string string field_value "field_value list"
  | NoWindow string
  | WrongDuration string
  | WindowReversed string
  | NoStream string
  | StreamMissing string string

record integrity_report =
  runs_checked :: nat
  fields_compared :: nat
  records_compared :: nat
  mismatches :: "problem list"

definition empty_report :: integrity_report where
  "empty_report = \<lparr>runs_checked = 0, fields_compared = 0, records_compared = 0, mismatches = []\<rparr>"

definition report_ok :: "integrity_report \<Rightarrow> bool" where
  "report_ok r \<longleftrightarrow> mismatches r = []"

definition load_raw :: "(string \<Rightarrow> (string option \<times> 'r) option) \<Rightarrow> string list \<Rightarrow> 'r list" where
  "load_raw json ls = load_jsonl json (Some ls)"

definition is_throughput :: "e3_manifest \<Rightarrow> bool" where
  "is_throughput m \<longleftrightarrow> mf_workload_type m = E3_WORKLOAD_THROUGHPUT"

definition compared_fields ::
  "e3_manifest \<Rightarrow> (string \<times> (e3_manifest \<Rightarrow> field_value) \<times> (benchmark_record \<Rightarrow> field_value)) list" where
  "compared_fields m = filter (\<lambda>(k, _). \<not> (k \<in> set WINDOW_FIELDS \<and> \<not> is_throughput m)) COMPARABLE"

definition field_problems :: "e3_manifest \<Rightarrow> benchmark_record list \<Rightarrow> problem list" where
  "field_problems m rs = List.map_filter (\<lambda>(k, want, got).
     let observed = remdups (map got rs) in
     if observed = [] \<or> set observed = {want m} then None
     else Some (FieldMismatch (mf_run_id m) k (want m) observed)) (compared_fields m)"

definition window_problems :: "e3_manifest \<Rightarrow> problem list" where
  "window_problems m =
     (if \<not> is_throughput m then []
      else case (mf_window_start m, mf_window_end m) of
        (Some a, Some b) \<Rightarrow>
          (if 1 / 1000000 < \<bar>of_int (b - a) / 1000000000 - E3_MEASUREMENT_SECONDS\<bar>
           then [WrongDuration (mf_run_id m)] else []) @
          (if b \<le> a then [WindowReversed (mf_run_id m)] else [])
      | _ \<Rightarrow> [NoWindow (mf_run_id m)])"

definition check_run :: "e3_manifest \<Rightarrow> benchmark_record list \<Rightarrow> problem list \<times> nat \<times> nat" where
  "check_run m rs = (field_problems m rs @ window_problems m, length (compared_fields m), length rs)"

definition verify_one ::
  "(string \<Rightarrow> (string option \<times> benchmark_record) option) \<Rightarrow> (string \<Rightarrow> string list option) \<Rightarrow>
   e3_manifest \<Rightarrow> integrity_report \<Rightarrow> integrity_report" where
  "verify_one json files m rep =
     (case find (\<lambda>a. art_role a = ''runner_interaction_stream'') (mf_raw_artifacts m) of
        None \<Rightarrow> rep\<lparr>mismatches := mismatches rep @ [NoStream (mf_run_id m)]\<rparr>
      | Some a \<Rightarrow> (case files (art_path a) of
          None \<Rightarrow> rep\<lparr>mismatches := mismatches rep @ [StreamMissing (mf_run_id m) (art_path a)]\<rparr>
        | Some ls \<Rightarrow>
            (let (ps, compared, n) = check_run m (load_raw json ls)
             in rep\<lparr>runs_checked := runs_checked rep + 1, fields_compared := fields_compared rep + compared,
                  records_compared := records_compared rep + n, mismatches := mismatches rep @ ps\<rparr>)))"

definition verify_campaign ::
  "(string \<Rightarrow> (string option \<times> benchmark_record) option) \<Rightarrow> (string \<Rightarrow> string list option) \<Rightarrow>
   e3_manifest list \<Rightarrow> integrity_report" where
  "verify_campaign json files ms = fold (verify_one json files) ms
     empty_report"

section \<open>Lemmas\<close>

text \<open>What passing the comparison means for one run.\<close>

definition agrees :: "e3_manifest \<Rightarrow> benchmark_record \<Rightarrow> bool" where
  "agrees m r \<longleftrightarrow> rr_run_id r = mf_run_id m \<and> rr_experiment r = mf_experiment m \<and>
     rr_topology r = mf_topology m \<and> workload r = mf_workload_type m \<and> block_id r = mf_block_id m \<and>
     concurrency r = mf_concurrency m \<and> rr_room_id r = mf_room_id m \<and>
     message_body_bytes r = mf_body_bytes m \<and>
     (is_throughput m \<longrightarrow> rec_window_start r = mf_window_start m \<and> rec_window_end r = mf_window_end m)"

lemma opt_int_inject [simp]: "opt_int a = opt_int b \<longleftrightarrow> a = b"
  by (auto simp: opt_int_def split: option.splits)

lemma field_problems_none:
  "field_problems m rs = [] \<longleftrightarrow>
    (\<forall>(k, want, got) \<in> set (compared_fields m). \<forall>r \<in> set rs. got r = want m)"
proof -
  have "remdups (map got rs) = [] \<or> set (remdups (map got rs)) = {want m} \<longleftrightarrow> (\<forall>r \<in> set rs. got r = want m)"
    for got :: "benchmark_record \<Rightarrow> field_value" and want :: "e3_manifest \<Rightarrow> field_value"
    by (cases rs) (auto simp: image_constant_conv)
  then show ?thesis
    unfolding field_problems_def List.map_filter_def
    by (auto simp: filter_empty_conv Let_def split: if_splits)
qed

lemma field_problems_agree: "field_problems m rs = [] \<longleftrightarrow> (\<forall>r \<in> set rs. agrees m r)"
  unfolding field_problems_none compared_fields_def COMPARABLE_def WINDOW_FIELDS_def agrees_def
  by (cases "is_throughput m") auto

lemma window_problems_none:
  "window_problems m = [] \<longleftrightarrow> (is_throughput m \<longrightarrow> (\<exists>a b. mf_window_start m = Some a \<and> mf_window_end m = Some b \<and>
     a < b \<and> \<bar>of_int (b - a) / 1000000000 - E3_MEASUREMENT_SECONDS\<bar> \<le> 1 / 1000000))"
  by (auto simp: window_problems_def not_less not_le split: option.splits)

text \<open>What one manifest adds to the mismatches, and when that is nothing.\<close>

definition manifest_problems ::
  "(string \<Rightarrow> (string option \<times> benchmark_record) option) \<Rightarrow> (string \<Rightarrow> string list option) \<Rightarrow>
   e3_manifest \<Rightarrow> problem list" where
  "manifest_problems json files m = mismatches (verify_one json files m empty_report)"

lemma verify_one_mismatches:
  "mismatches (verify_one json files m rep) = mismatches rep @ manifest_problems json files m"
  by (simp add: manifest_problems_def verify_one_def empty_report_def split: option.split prod.split)

lemma verify_campaign_mismatches:
  "mismatches (verify_campaign json files ms) = concat (map (manifest_problems json files) ms)"
proof -
  have "mismatches (fold (verify_one json files) ms rep) = mismatches rep @ concat (map (manifest_problems json files) ms)"
    for rep
  proof (induction ms arbitrary: rep)
    case (Cons m ms)
    then show ?case by (simp add: verify_one_mismatches)
  qed simp
  then show ?thesis by (simp add: verify_campaign_def empty_report_def)
qed

definition window_ok :: "e3_manifest \<Rightarrow> bool" where
  "window_ok m \<longleftrightarrow> \<not> is_throughput m \<or> (\<exists>a b. mf_window_start m = Some a \<and> mf_window_end m = Some b \<and>
     a < b \<and> \<bar>of_int (b - a) / 1000000000 - E3_MEASUREMENT_SECONDS\<bar> \<le> 1 / 1000000)"

lemma manifest_problems_none:
  "manifest_problems json files m = [] \<longleftrightarrow>
    (\<exists>a ls. find (\<lambda>a. art_role a = ''runner_interaction_stream'') (mf_raw_artifacts m) = Some a \<and>
       files (art_path a) = Some ls \<and> (\<forall>r \<in> set (load_raw json ls). agrees m r) \<and> window_ok m)"
proof -
  have "field_problems m rs @ window_problems m = [] \<longleftrightarrow> (\<forall>r \<in> set rs. agrees m r) \<and> window_ok m" for rs
    unfolding append_is_Nil_conv field_problems_agree window_problems_none window_ok_def imp_conv_disj ..
  then show ?thesis
    by (simp add: manifest_problems_def verify_one_def empty_report_def check_run_def split: option.split)
qed

section \<open>Properties\<close>

text \<open>
  C17: A campaign passes exactly when each manifest names a raw stream that exists, every
  interaction in it carries the run's identity, topology, workload, block, concurrency,
  room, body size and (for throughput) window, and each throughput window is the frozen
  sixty seconds to a microsecond. So a run whose stream decodes to nothing passes.
\<close>

theorem campaign_verified_iff:
  "report_ok (verify_campaign json files ms) \<longleftrightarrow>
    (\<forall>m \<in> set ms. \<exists>a ls. find (\<lambda>a. art_role a = ''runner_interaction_stream'') (mf_raw_artifacts m) = Some a \<and>
       files (art_path a) = Some ls \<and> (\<forall>r \<in> set (load_raw json ls). agrees m r) \<and> window_ok m)"
  unfolding report_ok_def verify_campaign_mismatches by (simp add: manifest_problems_none)

definition latency_manifest :: e3_manifest where
  "latency_manifest = example_manifest\<lparr>mf_workload_type := ''latency'', mf_raw_artifacts :=
     [\<lparr>art_role = ''runner_interaction_stream'', art_path = ''raw.jsonl'', art_sha256 = []\<rparr>]\<rparr>"

theorem campaign_verified_iff_witness:
  "report_ok (verify_campaign (\<lambda>_. None) (\<lambda>_. Some [''not json'']) [latency_manifest]) \<and>
   \<not> report_ok (verify_campaign (\<lambda>_. None) (\<lambda>_. None) [latency_manifest])"
  unfolding campaign_verified_iff
  by (simp add: latency_manifest_def window_ok_def is_throughput_def workload_names load_raw_def load_jsonl_def
      load_lines_def List.map_filter_def)

end
