(* ===== verification/E3_Evidence.thy ===== *)
theory E3_Evidence
  imports Engine E3_Report Integrity
begin

text \<open>
  The benchmark engine and the analysis together: what the engine puts into a manifest can
  be recomputed from the raw records it wrote, and which records of a run the integrity
  check of the analysis objects to.
\<close>

lemma outstanding_record_eq: "record_outstanding t = outstanding_record t"
  by (simp add: fun_eq_iff record_outstanding_def outstanding_record_def)

lemma run_problems_none:
  "run_problems run = [] \<longleftrightarrow> (\<forall>r \<in> set (rn_records run). \<forall>a. \<not> shows_anomaly (rn_workload run) a r)"
proof -
  have "(\<forall>a. P a) \<longleftrightarrow> P OverTimeout \<and> P ReversedClock \<and> P MissingWindow \<and> P SuccessWithoutCompletion \<and>
      P TimeoutWithCompletion" for P
    by (metis anomaly.exhaust)
  then show ?thesis
    by (auto simp: run_problems_def filter_empty_conv simp del: shows_anomaly.simps)
qed

lemma throughput_tallies_agree:
  assumes "accounted res" and "rn_records run = wr_records res"
    and "\<forall>r \<in> set (wr_records res). duplicate_ack_count r \<noteq> None"
  shows "duplicate_ack_observations run = wr_duplicate_ack_observations res"
    and "run_requests_with_duplicate_acks run = wr_requests_with_duplicate_acks res"
    and "rate_limited_sends run = wr_rate_limited_sends res"
proof -
  have dup: "dup_count r = the (duplicate_ack_count r)" "(dup_count r \<noteq> 0) = (duplicate_ack_count r \<noteq> Some 0)"
    if "r \<in> set (wr_records res)" for r
    using assms(3) that by (auto simp: dup_count_def)
  show "duplicate_ack_observations run = wr_duplicate_ack_observations res"
    using assms(1) dup(1) by (simp add: duplicate_ack_observations_def accounted_def assms(2) cong: map_cong)
  show "run_requests_with_duplicate_acks run = wr_requests_with_duplicate_acks res"
    using assms(1) filter_cong [OF refl dup(2), of "wr_records res" "\<lambda>r. r"]
    unfolding run_requests_with_duplicate_acks_def accounted_def assms(2) by metis
  have "length (filter (\<lambda>r. send_errcode r = c) rs) = count_list (map send_errcode rs) c" for rs c
    by (induction rs) auto
  with assms(1) show "rate_limited_sends run = wr_rate_limited_sends res"
    by (simp add: rate_limited_sends_def accounted_def assms(2))
qed

lemma account_duplicates_present:
  "account cfg ws we its res before pend = Inr res' \<Longrightarrow>
    \<forall>r \<in> set (wr_records res). duplicate_ack_count r \<noteq> None \<Longrightarrow>
    \<forall>r \<in> set (wr_records res'). duplicate_ack_count r \<noteq> None"
proof (induction its arbitrary: res before pend)
  case (Cons it its)
  from Cons.prems(1) obtain res1 where
    one: "account_one cfg (phase_of ws we it) (Some ws) (Some we) it res = Inr res1"
    and rest: "account cfg ws we its res1 (if outstanding_at ws it then before @ [it] else before)
        (if outstanding_at we it then pend @ [it] else pend) = Inr res'"
    by (auto simp: rbind_eq_Inr)
  from one obtain r where "interaction_record cfg it (phase_of ws we it) (Some ws) (Some we) = Inr r"
    "wr_records res1 = wr_records res @ [r]" by (rule account_one_appends) blast
  with Cons.prems(2) have "\<forall>r \<in> set (wr_records res1). duplicate_ack_count r \<noteq> None"
    by (auto dest!: interaction_record_of simp: records_of_def)
  with Cons.IH [OF rest] show ?case by blast
qed auto

section \<open>Properties\<close>

text \<open>
  C18: Whatever interactions a throughput loop returned, the analysis recomputes from the raw
  records alone the figures the engine reported: both outstanding counts, the rate-limited
  sends and both duplicate-ACK totals; and the drain the analysis sees is the records that
  completed after the window.
\<close>

theorem figures_reconstructable:
  assumes "account cfg ws we its new_workload_result [] [] = Inr res"
    and "rn_records run = wr_records res" and "rn_window_start run = Some ws" and "rn_window_end run = Some we"
    and "ws \<le> we"
  shows "\<exists>f. boundary_diagnostics run = Some f \<and>
    outstanding_at_window_start f = wr_outstanding_at_window_start res \<and>
    outstanding_at_window_end f = wr_outstanding_at_window_end res \<and>
    drain_completions f + drain_failures f =
      length (filter (\<lambda>r. \<exists>t. completed_ns r = Some t \<and> we \<le> t) (wr_records res)) \<and>
    rate_limited_sends run = wr_rate_limited_sends res \<and>
    duplicate_ack_observations run = wr_duplicate_ack_observations res \<and>
    run_requests_with_duplicate_acks run = wr_requests_with_duplicate_acks res"
proof -
  from account_exact [OF assms(1)]
  have acc: "accounted res" and ph: "\<forall>r \<in> set (wr_records res). phase r = record_phase ws we r"
    and out: "wr_outstanding_at_window_start res = length (filter (outstanding_record ws) (wr_records res))"
      "wr_outstanding_at_window_end res = length (filter (outstanding_record we) (wr_records res))"
    by (auto simp: outstanding_record_eq)
  have "\<forall>r \<in> set (wr_records res). duplicate_ack_count r \<noteq> None"
    using account_duplicates_present [OF assms(1)] by simp
  note tallies = throughput_tallies_agree [OF acc assms(2) this]
  have "(phase r = ''drain'') = (\<exists>t. completed_ns r = Some t \<and> we \<le> t)" if "r \<in> set (wr_records res)" for r
    using ph that assms(5) by (auto simp: record_phase_def phase_names split: option.splits)
  then have "filter (\<lambda>r. phase r = ''drain'') (wr_records res) =
      filter (\<lambda>r. \<exists>t. completed_ns r = Some t \<and> we \<le> t) (wr_records res)"
    by (rule filter_cong [OF refl])
  then have drain: "length (filter is_success (filter (\<lambda>r. phase r = ''drain'') (wr_records res))) +
      length (filter (\<lambda>r. \<not> is_success r) (filter (\<lambda>r. phase r = ''drain'') (wr_records res))) =
      length (filter (\<lambda>r. \<exists>t. completed_ns r = Some t \<and> we \<le> t) (wr_records res))"
    using length_filter_split [of is_success "filter (\<lambda>r. phase r = ''drain'') (wr_records res)"] by simp
  obtain f where f: "boundary_diagnostics run = Some f"
    "outstanding_at_window_start f = length (filter (outstanding_record ws) (wr_records res))"
    "outstanding_at_window_end f = length (filter (outstanding_record we) (wr_records res))"
    "drain_completions f = length (filter is_success (filter (\<lambda>r. phase r = ''drain'') (wr_records res)))"
    "drain_failures f = length (filter (\<lambda>r. \<not> is_success r) (filter (\<lambda>r. phase r = ''drain'') (wr_records res)))"
    using assms(2-4) by (simp add: boundary_diagnostics_def Let_def)
  with out drain tallies show ?thesis by simp
qed

theorem figures_reconstructable_witness:
  "\<exists>res f. account example_run_config 10 30 [example_interaction 1 5 (Some 12), example_interaction 2 20 None]
      new_workload_result [] [] = Inr res \<and>
    boundary_diagnostics (example_run\<lparr>rn_records := wr_records res\<rparr>) = Some f \<and>
    outstanding_at_window_end f = wr_outstanding_at_window_end res"
proof -
  define acc where "acc = account example_run_config 10 30
      [example_interaction 1 5 (Some 12), example_interaction 2 20 None] new_workload_result [] []"
  have "\<not> isl acc" unfolding acc_def by code_simp
  then obtain res where res: "acc = Inr res" by (cases acc) auto
  have w: "rn_window_start (example_run\<lparr>rn_records := wr_records res\<rparr>) = Some 10"
    "rn_window_end (example_run\<lparr>rn_records := wr_records res\<rparr>) = Some 30"
    by (simp_all add: example_run_def run_of_def example_manifest_def)
  from figures_reconstructable [OF res [unfolded acc_def] _ w] res
  show ?thesis unfolding acc_def by auto
qed



end
