(* ===== verification/Manifest.thy ===== *)
theory Manifest
  imports Json Validity E3_Runs
begin

text \<open>
  \<^verbatim>\<open>src/fam/instrumentation/manifest.py\<close>: both manifest types as JSON documents, what
  refuses to be written, and what the analysis reads back. A path is the list of its
  components; the file system gives the digest and size of a file, if it is there. The host
  name is an argument.
\<close>

definition AUTOMATED :: string where "AUTOMATED = ''automated_experiment_manifest''"

definition HUMAN_LLM :: string where "HUMAN_LLM = ''human_llm_validation_manifest''"

type_synonym path = "string list"

type_synonym file_system = "path \<Rightarrow> (string \<times> nat) option"

datatype manifest_error = NoValidity | ReversedSpan string string string | FileNotFound path

definition check_span :: "string \<Rightarrow> string \<Rightarrow> string option \<Rightarrow> manifest_error + unit" where
  "check_span rid started completed = (case completed of
     Some c \<Rightarrow> if c < started then Inl (ReversedSpan rid c started) else Inr ()
   | None \<Rightarrow> Inr ())"

text \<open>\<open>FAM_EXECUTION_HOST\<close>, or what the platform says.\<close>

definition execution_host_identifier :: "string option \<Rightarrow> string \<Rightarrow> string" where
  "execution_host_identifier explicit platform =
     (let e = strip (case explicit of None \<Rightarrow> [] | Some v \<Rightarrow> v) in if e \<noteq> [] then e else platform)"

definition join_slash :: "path \<Rightarrow> string" where
  "join_slash p = (case p of [] \<Rightarrow> ''.'' | x # xs \<Rightarrow> x @ concat (map (\<lambda>y. CHR ''/'' # y) xs))"

text \<open>\<open>relative_to(results_root)\<close>, or the bare name of a file that lies elsewhere.\<close>

definition relative_name :: "path \<Rightarrow> path \<Rightarrow> string" where
  "relative_name results_root p =
     (if take (length results_root) p = results_root then join_slash (drop (length results_root) p)
      else if p = [] then [] else last p)"

record raw_artifact =
  ra_role :: string
  ra_path :: path

definition artifact_to_dict :: "file_system \<Rightarrow> path \<Rightarrow> raw_artifact \<Rightarrow> manifest_error + (string, json) dict" where
  "artifact_to_dict fs results_root a = (case fs (ra_path a) of
     None \<Rightarrow> Inl (FileNotFound (ra_path a))
   | Some (digest, bytes) \<Rightarrow> Inr [(''role'', JStr (ra_role a)),
       (''path'', JStr (relative_name results_root (ra_path a))),
       (''sha256'', JStr digest), (''bytes'', JNum (of_nat bytes))])"

record evidence_artifact = raw_artifact +
  ea_note :: string

definition evidence_to_dict :: "file_system \<Rightarrow> path \<Rightarrow> evidence_artifact \<Rightarrow> manifest_error + (string, json) dict" where
  "evidence_to_dict fs results_root a =
     rbind (artifact_to_dict fs results_root (raw_artifact.truncate a)) (\<lambda>d. Inr (d @ [(''note'', JStr (ea_note a))]))"

fun sequence :: "('e + 'a) list \<Rightarrow> 'e + 'a list" where
  "sequence [] = Inr []"
| "sequence (r # rs) = rbind r (\<lambda>x. rbind (sequence rs) (\<lambda>xs. Inr (x # xs)))"

definition opt_str :: "string option \<Rightarrow> json" where
  "opt_str v = (case v of None \<Rightarrow> JNull | Some s \<Rightarrow> JStr s)"

definition opt_num :: "int option \<Rightarrow> json" where
  "opt_num v = (case v of None \<Rightarrow> JNull | Some n \<Rightarrow> JNum (of_int n))"

definition strings :: "(string, string) dict \<Rightarrow> json" where
  "strings d = JObj (map (\<lambda>(k, v). (k, JStr v)) d)"

definition validity_json :: "run_validity \<Rightarrow> json" where
  "validity_json v = (case validity_to_manifest v of (ok, cls, n) \<Rightarrow>
     JObj [(''valid'', JBool ok), (''invalid_class'', opt_str cls), (''note'', JStr n)])"

text \<open>
  What the two types share: \<open>RunManifest\<close> and \<open>HumanValidationManifest\<close> carry the same
  envelope, with the run or session id.
\<close>

record run_envelope =
  en_experiment :: string
  en_run_id :: string
  en_room_id :: string
  en_participants :: "(string, string) dict"
  en_publication_data :: bool
  en_protocol_git_commit :: string
  en_started_at :: string
  en_environment_manifest :: "string option"
  en_completed_at :: "string option"
  en_completion_status :: string
  en_validity :: "run_validity option"
  en_extra :: "(string, json) dict"
  en_results_root :: path

record run_manifest = run_envelope +
  rm_topology :: string
  rm_artifacts :: "raw_artifact list"

record human_manifest = run_envelope +
  hm_client_name :: string
  hm_client_version :: string
  hm_client_host :: string
  hm_llm_provider :: string
  hm_llm_model :: string
  hm_agent_config_hash :: string
  hm_executor_identifier :: string
  hm_interaction_event_ids :: "json list"
  hm_evidence :: "evidence_artifact list"
  hm_three_party_topology_confirmed :: bool
  hm_functional_result :: string

definition envelope_dict :: "string \<Rightarrow> string \<Rightarrow> run_validity \<Rightarrow> 'm run_envelope_scheme \<Rightarrow> (string, json) dict" where
  "envelope_dict mtype host v m =
     [(''manifest_type'', JStr mtype),
      (''manifest_schema_version'', JStr MANIFEST_SCHEMA_VERSION),
      (''experiment'', JStr (en_experiment m)),
      (''execution_protocol_version'', JStr EXECUTION_PROTOCOL_VERSION),
      (''execution_analysis_spec_version'', JStr EXECUTION_ANALYSIS_SPEC_VERSION),
      (''protocol_git_commit'', JStr (en_protocol_git_commit m)),
      (''raw_schema_version'', JStr RAW_SCHEMA_VERSION),
      (''publication_data'', JBool (en_publication_data m)),
      (''run_id'', JStr (en_run_id m)),
      (''room_id'', JStr (en_room_id m)),
      (''room_version'', JStr ROOM_VERSION),
      (''participants'', strings (en_participants m)),
      (''environment_manifest'', opt_str (en_environment_manifest m)),
      (''execution_host_identifier'', JStr host),
      (''start_timestamp'', JStr (en_started_at m)),
      (''completion_timestamp'', opt_str (en_completed_at m)),
      (''completion_status'', JStr (en_completion_status m)),
      (''validity_classification'', validity_json v)]"

text \<open>The guards both \<open>to_dict\<close> begin with.\<close>

definition with_validity ::
  "'m run_envelope_scheme \<Rightarrow> (run_validity \<Rightarrow> manifest_error + json) \<Rightarrow> manifest_error + json" where
  "with_validity m f = (case en_validity m of
     None \<Rightarrow> Inl NoValidity
   | Some v \<Rightarrow> rbind (check_span (en_run_id m) (en_started_at m) (en_completed_at m)) (\<lambda>_. f v))"

definition run_to_dict :: "string \<Rightarrow> file_system \<Rightarrow> run_manifest \<Rightarrow> manifest_error + json" where
  "run_to_dict host fs m = with_validity m (\<lambda>v.
     rbind (sequence (map (artifact_to_dict fs (en_results_root m)) (rm_artifacts m))) (\<lambda>arts. Inr (JObj (dict_update
       (envelope_dict AUTOMATED host v m @
        [(''topology'', JStr (rm_topology m)), (''raw_artifacts'', JList (map JObj arts))])
       (en_extra m)))))"

definition human_to_dict :: "string \<Rightarrow> file_system \<Rightarrow> human_manifest \<Rightarrow> manifest_error + json" where
  "human_to_dict host fs m = with_validity m (\<lambda>v.
     rbind (sequence (map (evidence_to_dict fs (en_results_root m)) (hm_evidence m))) (\<lambda>arts. Inr (JObj (dict_update
       (envelope_dict HUMAN_LLM host v m @
        [(''human_client_name'', JStr (hm_client_name m)),
         (''human_client_version'', JStr (hm_client_version m)),
         (''human_client_host'', JStr (hm_client_host m)),
         (''llm_provider'', JStr (hm_llm_provider m)),
         (''llm_model'', JStr (hm_llm_model m)),
         (''agent_configuration_hash'', JStr (hm_agent_config_hash m)),
         (''executor_identifier'', JStr (hm_executor_identifier m)),
         (''interaction_event_ids'', JList (hm_interaction_event_ids m)),
         (''evidence_artifacts'', JList (map JObj arts)),
         (''functional_result'', JStr (hm_functional_result m)),
         (''three_party_topology_confirmed'', JBool (hm_three_party_topology_confirmed m))])
       (en_extra m)))))"

text \<open>\<open>write\<close>: the document under the name of its run; it replaces what was there.\<close>

definition manifest_name :: "string \<Rightarrow> string" where
  "manifest_name rid = rid @ ''.manifest.json''"

definition write_manifest ::
  "(manifest_error + json) \<Rightarrow> string \<Rightarrow> (string, json) dict \<Rightarrow> manifest_error + string \<times> (string, json) dict" where
  "write_manifest doc rid dir = rbind doc (\<lambda>d. Inr (manifest_name rid, AList.update (manifest_name rid) d dir))"

section \<open>What the analysis reads\<close>

definition get_str :: "json \<Rightarrow> string \<Rightarrow> string" where
  "get_str d k = (case obj_get d k of Some (JStr s) \<Rightarrow> s | _ \<Rightarrow> [])"

definition get_opt_str :: "json \<Rightarrow> string \<Rightarrow> string option" where
  "get_opt_str d k = (case obj_get d k of Some (JStr s) \<Rightarrow> Some s | _ \<Rightarrow> None)"

definition get_opt_int :: "json \<Rightarrow> string \<Rightarrow> int option" where
  "get_opt_int d k = (case obj_get d k of Some (JNum n) \<Rightarrow> Some \<lfloor>n\<rfloor> | _ \<Rightarrow> None)"

definition get_int :: "json \<Rightarrow> string \<Rightarrow> int" where
  "get_int d k = (case get_opt_int d k of Some n \<Rightarrow> n | None \<Rightarrow> 0)"

definition read_artifact :: "json \<Rightarrow> artifact" where
  "read_artifact a = \<lparr>art_role = get_str a ''role'', art_path = get_str a ''path'', art_sha256 = get_str a ''sha256''\<rparr>"

definition read_validity :: "json \<Rightarrow> (bool \<times> string option) option" where
  "read_validity d = (case obj_get d ''validity_classification'' of
     Some (JObj v) \<Rightarrow> if v = [] then None
       else Some (map_of v ''valid'' = Some (JBool True), get_opt_str (JObj v) ''invalid_class'')
   | _ \<Rightarrow> None)"

definition read_counts :: "json \<Rightarrow> string \<Rightarrow> (string, int) dict" where
  "read_counts d k = (case obj_get d k of
     Some (JObj e) \<Rightarrow> List.map_filter (\<lambda>(k, v). case v of JNum n \<Rightarrow> Some (k, \<lfloor>n\<rfloor>) | _ \<Rightarrow> None) e
   | _ \<Rightarrow> [])"

definition read_manifest :: "(json \<Rightarrow> string) \<Rightarrow> json \<Rightarrow> e3_manifest" where
  "read_manifest render d =
     \<lparr>mf_experiment = get_str d ''experiment'', mf_run_id = get_str d ''run_id'',
      mf_campaign_id = get_str d ''campaign_id'', mf_workload_type = get_str d ''workload_type'',
      mf_topology = get_str d ''topology'', mf_block_id = get_str d ''paired_block_id'',
      mf_concurrency = nat (get_int d ''concurrency''), mf_room_id = get_str d ''room_id'',
      mf_body_bytes = get_int d ''message_body_bytes'',
      mf_start_timestamp = get_opt_str d ''start_timestamp'',
      mf_completion_timestamp = get_opt_str d ''completion_timestamp'',
      mf_campaign_fingerprint = get_opt_str d ''campaign_fingerprint'',
      mf_schedule_seed = get_opt_int d ''schedule_seed'', mf_validity = read_validity d,
      mf_window_start = get_opt_int d ''window_start_ns'', mf_window_end = get_opt_int d ''window_end_ns'',
      mf_raw_artifacts = (case obj_get d ''raw_artifacts'' of Some (JList as) \<Rightarrow> map read_artifact as | _ \<Rightarrow> []),
      mf_sender_diagnostics = read_counts d ''sender_transport_diagnostics'',
      mf_agent_diagnostics = read_counts d ''agent_transport_diagnostics'',
      mf_sync_configuration = (case obj_get d ''sync_configuration'' of
        Some (JObj e) \<Rightarrow> map (\<lambda>(k, v). (k, render v)) e | _ \<Rightarrow> []),
      mf_sender_joined_rooms = (case obj_get d ''host_diagnostics'' of
        Some h \<Rightarrow> get_opt_int h ''sender_joined_rooms'' | None \<Rightarrow> None)\<rparr>"

section \<open>Lemmas\<close>

lemma obj_get_JObj [simp]: "obj_get (JObj d) k = map_of d k"
  by (simp add: obj_get_def)

lemma sequence_Inr: "sequence rs = Inr xs \<longleftrightarrow> list_all2 (\<lambda>r x. r = Inr x) rs xs"
  by (induction rs arbitrary: xs) (auto simp: rbind_eq_Inr list_all2_Cons1)

lemma with_validity_Inr:
  "with_validity m f = Inr d \<longleftrightarrow> (\<exists>v. en_validity m = Some v \<and> f v = Inr d \<and>
     (case en_completed_at m of None \<Rightarrow> True | Some c \<Rightarrow> en_started_at m \<le> c))"
  by (auto simp: with_validity_def check_span_def rbind_eq_Inr not_less split: option.splits)

lemma get_values [simp]:
  "obj_get d k = Some (JStr s) \<Longrightarrow> get_str d k = s"
  "obj_get d k = Some (opt_str so) \<Longrightarrow> get_opt_str d k = so"
  "obj_get d k = Some (opt_num n) \<Longrightarrow> get_opt_int d k = n"
  "obj_get d k = Some (JNum (of_int i)) \<Longrightarrow> get_int d k = i"
  "obj_get d k = Some (JNum (of_nat j)) \<Longrightarrow> get_int d k = int j"
  by (auto simp: get_str_def get_opt_str_def get_opt_int_def get_int_def opt_str_def opt_num_def split: option.splits)

lemma validity_round_trip:
  "obj_get d ''validity_classification'' = Some (validity_json v) \<Longrightarrow>
    read_validity d = Some (valid v, map_option invalid_class_value (invalid_class v))"
  by (auto simp: read_validity_def validity_json_def validity_to_manifest_def get_opt_str_def opt_str_def
      split: option.splits)

end
