(* ===== verification/Accounts.thy ===== *)
theory Accounts
  imports Manifest
begin

text \<open>
  \<^verbatim>\<open>src/fam/common/env.py\<close> and \<^verbatim>\<open>src/fam/common/results.py\<close>: the provisioned accounts, what
  is read from the environment, and where results may be written. The environment is a
  function from names, a file its JSON document if it is there, a path the list of its
  components; what a path resolves to and what the file system permits are arguments.
\<close>

section \<open>Accounts\<close>

definition FROZEN_ACCOUNTS :: "(string, string) dict" where
  "FROZEN_ACCOUNTS =
     [(''@human-a:hs-a.test'', ''A''), (''@human-b:hs-b.test'', ''B''), (''@agent-local:hs-a.test'', ''A''),
      (''@agent:hs-b.test'', ''B''), (''@benchmark-human:hs-a.test'', ''A''),
      (''@benchmark-agent-local:hs-a.test'', ''A''), (''@benchmark-agent-fed:hs-b.test'', ''B''),
      (''@actual-human:hs-a.test'', ''A''), (''@human-role-b:hs-b.test'', ''B''), (''@llm-agent:hs-b.test'', ''B'')]"

type_synonym variables = "string \<Rightarrow> string option"

definition env_or :: "variables \<Rightarrow> string \<Rightarrow> string \<Rightarrow> string" where
  "env_or env name d = (case env name of None \<Rightarrow> d | Some v \<Rightarrow> v)"

definition DOMAIN_NAMES :: "variables \<Rightarrow> (string, string) dict" where
  "DOMAIN_NAMES env = [(''A'', env_or env ''FAM_HS_A_NAME'' ''hs-a.test''), (''B'', env_or env ''FAM_HS_B_NAME'' ''hs-b.test'')]"

definition CS_URLS :: "variables \<Rightarrow> (string, string) dict" where
  "CS_URLS env = [(''A'', env_or env ''FAM_HS_A_CS_URL'' ''http://synapse-a:8008''),
     (''B'', env_or env ''FAM_HS_B_CS_URL'' ''http://synapse-b:8008'')]"

definition CONTAINER_NAMES :: "(string, string) dict" where
  "CONTAINER_NAMES = [(''A'', ''synapse-a''), (''B'', ''synapse-b'')]"

record provisioned_account =
  ac_user_id :: string
  ac_password :: json
  ac_domain_key :: json

datatype account_error = AccountsFileMissing | AccountsMalformed | MissingField string | UnknownDomain | NotProvisioned string

definition by_domain :: "(string, string) dict \<Rightarrow> provisioned_account \<Rightarrow> account_error + string" where
  "by_domain table a = (case ac_domain_key a of
     JStr d \<Rightarrow> (case map_of table d of None \<Rightarrow> Inl UnknownDomain | Some v \<Rightarrow> Inr v)
   | _ \<Rightarrow> Inl UnknownDomain)"

definition homeserver_url :: "variables \<Rightarrow> provisioned_account \<Rightarrow> account_error + string" where
  "homeserver_url env a = by_domain (CS_URLS env) a"

definition server_name :: "variables \<Rightarrow> provisioned_account \<Rightarrow> account_error + string" where
  "server_name env a = by_domain (DOMAIN_NAMES env) a"

definition localpart :: "string \<Rightarrow> string" where
  "localpart user_id = takeWhile (\<lambda>c. c \<noteq> CHR '':'') (dropWhile (\<lambda>c. c = CHR ''@'') user_id)"

text \<open>\<open>record["password"]\<close> and \<open>record["domain"]\<close>.\<close>

definition field :: "json \<Rightarrow> string \<Rightarrow> account_error + json" where
  "field r k = (case r of
     JObj e \<Rightarrow> (case map_of e k of None \<Rightarrow> Inl (MissingField k) | Some v \<Rightarrow> Inr v)
   | _ \<Rightarrow> Inl AccountsMalformed)"

definition read_account :: "string \<times> json \<Rightarrow> account_error + string \<times> provisioned_account" where
  "read_account e = (case e of (user_id, r) \<Rightarrow>
     rbind (field r ''password'') (\<lambda>p. rbind (field r ''domain'') (\<lambda>d.
       Inr (user_id, \<lparr>ac_user_id = user_id, ac_password = p, ac_domain_key = d\<rparr>))))"

definition load_accounts :: "json option \<Rightarrow> account_error + (string, provisioned_account) dict" where
  "load_accounts accounts_file = (case accounts_file of
     None \<Rightarrow> Inl AccountsFileMissing
   | Some (JObj payload) \<Rightarrow> (case map_of payload ''accounts'' of
       None \<Rightarrow> Inr []
     | Some (JObj entries) \<Rightarrow> sequence (map read_account entries)
     | Some _ \<Rightarrow> Inl AccountsMalformed)
   | Some _ \<Rightarrow> Inl AccountsMalformed)"

definition account_of :: "json option \<Rightarrow> string \<Rightarrow> account_error + provisioned_account" where
  "account_of accounts_file user_id =
     rbind (load_accounts accounts_file) (\<lambda>accounts.
       case map_of accounts user_id of None \<Rightarrow> Inl (NotProvisioned user_id) | Some a \<Rightarrow> Inr a)"

section \<open>Provenance from the environment\<close>

definition publication_data :: "variables \<Rightarrow> bool" where
  "publication_data env \<longleftrightarrow> lower (strip (env_or env ''FAM_PUBLICATION_DATA'' ''false'')) = ''true''"

definition protocol_git_commit :: "variables \<Rightarrow> string" where
  "protocol_git_commit env = env_or env ''FAM_PROTOCOL_GIT_COMMIT'' ''unknown''"

definition analysis_code_commit :: "variables \<Rightarrow> string" where
  "analysis_code_commit env =
     (let c = strip (env_or env ''FAM_ANALYSIS_CODE_COMMIT'' []) in if c = [] then ''unresolved'' else c)"

section \<open>The results directory\<close>

text \<open>What exists as a directory, and what the file system lets the program do.\<close>

record file_tree =
  is_dir :: "path \<Rightarrow> bool"
  can_create :: "path \<Rightarrow> bool"
  writable :: "path \<Rightarrow> bool"

definition is_within :: "path \<Rightarrow> path \<Rightarrow> bool" where
  "is_within child parent \<longleftrightarrow> take (length parent) child = parent"

text \<open>\<open>mkdir(parents=True, exist_ok=True)\<close>.\<close>

definition make_dir :: "path \<Rightarrow> file_tree \<Rightarrow> file_tree" where
  "make_dir p w = w\<lparr>is_dir := (\<lambda>q. is_dir w q \<or> is_within p q)\<rparr>"

text \<open>The parents of a file, the nearest first.\<close>

definition parents :: "path \<Rightarrow> path list" where
  "parents p = map (\<lambda>n. take n p) (rev [0..<length p])"

definition repository_root :: "(path \<Rightarrow> bool) \<Rightarrow> file_tree \<Rightarrow> path \<Rightarrow> path option" where
  "repository_root exists w here =
     find (\<lambda>c. exists (c @ [''.git'']) \<or> (is_dir w (c @ [''src'']) \<and> is_dir w (c @ [''scripts'']))) (parents here)"

definition schema_dir :: "path option \<Rightarrow> path option" where
  "schema_dir repo = map_option (\<lambda>r. r @ [''results'', ''schemas'']) repo"

datatype results_error = ResultsNotSet | Unresolvable | InsideRepository path path | CannotCreate path
  | NotADirectory path | NotWritable path

text \<open>
  \<open>resolve\<close> is what \<open>Path(raw).expanduser().resolve()\<close> gives. Every error is an invalid run
  of the class \<open>execution_precondition_violation\<close>.
\<close>

definition resolve_results_dir ::
  "variables \<Rightarrow> (string \<Rightarrow> path option) \<Rightarrow> path option \<Rightarrow> bool \<Rightarrow> file_tree \<Rightarrow> (results_error + path) \<times> file_tree" where
  "resolve_results_dir env resolve repo create w =
     (let raw = strip (env_or env ''FAM_RESULTS_DIR'' []) in
      if raw = [] then (Inl ResultsNotSet, w)
      else case resolve raw of
        None \<Rightarrow> (Inl Unresolvable, w)
      | Some p \<Rightarrow>
          if (case repo of None \<Rightarrow> False | Some r \<Rightarrow> is_within p r) then (Inl (InsideRepository p (the repo)), w)
          else if create \<and> \<not> can_create w p then (Inl (CannotCreate p), w)
          else
            (let w' = (if create then make_dir p w else w) in
             if \<not> is_dir w' p then (Inl (NotADirectory p), w')
             else if \<not> writable w' p then (Inl (NotWritable p), w')
             else (Inr p, w')))"

definition RAW_SUBDIRS :: "path list" where
  "RAW_SUBDIRS = [[''raw'', ''e0''], [''raw'', ''e1''], [''raw'', ''e2''], [''raw'', ''e3'', ''latency''],
     [''raw'', ''e3'', ''throughput''], [''raw'', ''e4''], [''manifests''], [''environment''], [''evidence'']]"

definition ensure_layout :: "path \<Rightarrow> file_tree \<Rightarrow> file_tree" where
  "ensure_layout p w = fold (\<lambda>sub. make_dir (p @ sub)) RAW_SUBDIRS w"

definition raw_dir :: "path \<Rightarrow> string \<Rightarrow> path" where
  "raw_dir p experiment = p @ [''raw'', lower experiment]"

definition manifests_dir :: "path \<Rightarrow> path" where "manifests_dir p = p @ [''manifests'']"
definition environment_dir :: "path \<Rightarrow> path" where "environment_dir p = p @ [''environment'']"
definition evidence_dir :: "path \<Rightarrow> path" where "evidence_dir p = p @ [''evidence'']"

section \<open>Lemmas\<close>

lemma is_within_iff: "is_within q p \<longleftrightarrow> (\<exists>r. q = p @ r)"
  by (metis append_eq_conv_conj is_within_def)

lemma is_within_trans: "is_within c b \<Longrightarrow> is_within b a \<Longrightarrow> is_within c a"
  by (auto simp: is_within_iff)

lemma fold_make_dir:
  "is_dir (fold (\<lambda>s. make_dir (p @ s)) subs w) q \<longleftrightarrow> is_dir w q \<or> (\<exists>s \<in> set subs. is_within (p @ s) q)"
  by (induction subs arbitrary: w) (auto simp: make_dir_def)

lemma outside_parents: "\<not> is_within p r \<Longrightarrow> is_within p q \<Longrightarrow> \<not> is_within q r"
  using is_within_trans by blast

lemma outside_children:
  assumes "\<not> is_within p r" and "\<not> is_within r p"
  shows "\<not> is_within (p @ s) r"
proof
  assume "is_within (p @ s) r"
  then obtain t where t: "p @ s = r @ t" by (auto simp: is_within_iff)
  then have "take (length p) r = p \<or> take (length r) p = r" by (metis append_eq_append_conv_if)
  with assms show False by (auto simp: is_within_def)
qed

lemma resolve_results_Inr:
  assumes "resolve_results_dir env resolve (Some r) create w = (Inr p, w')"
  shows "\<not> is_within p r \<and> is_dir w' p \<and> writable w' p"
  using assms by (auto simp: resolve_results_dir_def Let_def split: if_splits option.splits)

lemma resolve_results_created:
  assumes "resolve_results_dir env resolve (Some r) create w = (res, w')"
    and "is_dir w' q" and "\<not> is_dir w q"
  shows "\<not> is_within q r"
proof -
  from assms obtain p where "\<not> is_within p r" "w' = make_dir p w"
    by (auto simp: resolve_results_dir_def Let_def split: if_splits option.splits)
  moreover from this(2) assms(2,3) have "is_within p q" by (simp add: make_dir_def)
  ultimately show ?thesis using outside_parents by blast
qed

section \<open>Properties\<close>


text \<open>A results directory beside the repository.\<close>

definition sample_tree :: file_tree where
  "sample_tree = \<lparr>is_dir = (\<lambda>q. q = [''repo'']), can_create = (\<lambda>_. True), writable = (\<lambda>_. True)\<rparr>"


end
