(* ===== verification/Final_Audit.thy ===== *)
theory Final_Audit
  imports Lock Schedule E3_Evidence Accounts "HOL-Library.Product_Lexorder"
begin

text \<open>
  \<^verbatim>\<open>scripts/final_audit.py\<close>: the audit of the collected evidence. A raw record is the fields
  the audit reads of it, of the types the record schema requires; a check is recorded with
  its name and verdict, its details are left out.
\<close>

section \<open>What the audit reads\<close>

record audit_record =
  au_type :: "string option"
  au_run :: string
  au_sequence :: "int option"
  au_phase :: "string option"
  au_outcome :: "string option"
  au_started :: "int option"
  au_finished :: "int option"
  au_response :: "string option"
  au_ack_count :: "int option"
  au_dup_count :: "int option"
  au_dup_ids :: "string list option"
  au_body :: "int option"
  au_concurrency :: "int option"
  au_window_start :: "int option"
  au_window_end :: "int option"

text \<open>The limits the lock pins.\<close>

record audit_limits =
  al_timeout_ns :: int
  al_body_bytes :: int
  al_window_ns :: int
  al_concurrency :: int

definition frozen_at :: "json \<Rightarrow> string \<Rightarrow> exn + json" where
  "frozen_at d k = (case sub_get d ''frozen_parameters'' k of None \<Rightarrow> Inl KeyError | Some v \<Rightarrow> Inr v)"

definition number_of :: "json \<Rightarrow> exn + rat" where
  "number_of v = (case v of JNum n \<Rightarrow> Inr n | JBool b \<Rightarrow> Inr (of_flag b) | _ \<Rightarrow> Inl ValueError)"

definition truncate_rat :: "rat \<Rightarrow> int" where
  "truncate_rat x = (if 0 \<le> x then \<lfloor>x\<rfloor> else \<lceil>x\<rceil>)"

text \<open>\<open>int(float(x) * 1e9)\<close>.\<close>

definition limit_ns :: "rat \<Rightarrow> int" where
  "limit_ns x = truncate_rat (fl (fl x * 1000000000))"

definition frozen_number :: "json \<Rightarrow> string \<Rightarrow> exn + rat" where
  "frozen_number d k = rbind (frozen_at d k) number_of"

definition frozen_numbers :: "json \<Rightarrow> string \<Rightarrow> exn + rat list" where
  "frozen_numbers d k = rbind (frozen_at d k) (\<lambda>v. case v of
     JList xs \<Rightarrow> sequence (map number_of xs) | _ \<Rightarrow> Inl ValueError)"

definition limits_of :: "json \<Rightarrow> exn + audit_limits" where
  "limits_of lock =
     rbind (frozen_number lock ''interaction_timeout_seconds'') (\<lambda>timeout.
     rbind (frozen_number lock ''message_body_bytes'') (\<lambda>body.
     rbind (frozen_number lock ''e3_measurement_seconds'') (\<lambda>window.
     rbind (frozen_numbers lock ''e3_concurrency_levels'') (\<lambda>levels.
     rbind (frozen_number lock ''e3_latency_max_in_flight'') (\<lambda>in_flight.
       Inr \<lparr>al_timeout_ns = limit_ns timeout, al_body_bytes = truncate_rat body,
         al_window_ns = limit_ns window,
         al_concurrency = fold max (map truncate_rat levels) (truncate_rat in_flight)\<rparr>)))))"

section \<open>Impossible states\<close>

type_synonym place = "string \<times> int option"

record audit_state =
  interactions :: nat
  sequences :: "(string, (int option \<times> string option) set) dict"
  duplicate_sequences :: "place list"
  completed_once :: "(string, int option set) dict"
  double_completed :: "place list"
  success_without_response :: "place list"
  negative_rtt :: "place list"
  clock_reversal :: "place list"
  over_timeout :: "place list"
  reclassified :: "place list"
  duplicate_inconsistent :: "place list"
  ack_count_wrong :: "place list"
  wrong_body :: "place list"
  over_concurrency :: "place list"
  windows :: "(string, int \<times> int) dict"

definition empty_audit :: audit_state where
  "empty_audit = \<lparr>interactions = 0, sequences = [], duplicate_sequences = [], completed_once = [],
     double_completed = [], success_without_response = [], negative_rtt = [], clock_reversal = [],
     over_timeout = [], reclassified = [], duplicate_inconsistent = [], ack_count_wrong = [], wrong_body = [],
     over_concurrency = [], windows = []\<rparr>"

definition add_if :: "bool \<Rightarrow> 'a \<Rightarrow> 'a list \<Rightarrow> 'a list" where
  "add_if b x xs = (if b then xs @ [x] else xs)"

definition place_of :: "audit_record \<Rightarrow> place" where
  "place_of r = (au_run r, au_sequence r)"

definition seen_of :: "(string, 'a set) dict \<Rightarrow> string \<Rightarrow> 'a set" where
  "seen_of d run = (case map_of d run of None \<Rightarrow> {} | Some s \<Rightarrow> s)"

definition note_sequence :: "audit_record \<Rightarrow> audit_state \<Rightarrow> audit_state" where
  "note_sequence r s =
     (let seen = seen_of (sequences s) (au_run r); phase_key = (au_sequence r, au_phase r) in
      s\<lparr>duplicate_sequences := add_if (phase_key \<in> seen) (place_of r) (duplicate_sequences s),
        sequences := AList.update (au_run r) (insert phase_key seen) (sequences s)\<rparr>)"

definition note_completion :: "audit_record \<Rightarrow> audit_state \<Rightarrow> audit_state" where
  "note_completion r s =
     (if au_finished r = None then s
      else let seen = seen_of (completed_once s) (au_run r) in
        s\<lparr>double_completed := add_if (au_sequence r \<in> seen) (place_of r) (double_completed s),
          completed_once := AList.update (au_run r) (insert (au_sequence r) seen) (completed_once s)\<rparr>)"

definition rtt_of :: "audit_record \<Rightarrow> int option" where
  "rtt_of r = (case (au_started r, au_finished r) of (Some a, Some b) \<Rightarrow> Some (b - a) | _ \<Rightarrow> None)"

definition note_success :: "audit_limits \<Rightarrow> audit_record \<Rightarrow> audit_state \<Rightarrow> audit_state" where
  "note_success L r s =
     (if au_outcome r \<noteq> Some ''success'' then s
      else
        (let s1 = s\<lparr>success_without_response :=
               add_if (\<not> truthy (au_response r)) (place_of r) (success_without_response s)\<rparr> in
         case rtt_of r of
           None \<Rightarrow> s1
         | Some rtt \<Rightarrow>
             if rtt < 0 then s1\<lparr>negative_rtt := negative_rtt s1 @ [place_of r], clock_reversal := clock_reversal s1 @ [place_of r]\<rparr>
             else if al_timeout_ns L < rtt then s1\<lparr>over_timeout := over_timeout s1 @ [place_of r]\<rparr>
             else s1))"

definition note_timeout :: "audit_record \<Rightarrow> audit_state \<Rightarrow> audit_state" where
  "note_timeout r s = s\<lparr>reclassified :=
     add_if (au_outcome r = Some ''timeout'' \<and> au_finished r \<noteq> None) (place_of r) (reclassified s)\<rparr>"

text \<open>The duplicate-ACK evidence: present, as many ids as counted, distinct, without the response.\<close>

definition note_acks :: "audit_record \<Rightarrow> audit_state \<Rightarrow> audit_state" where
  "note_acks r s = (case au_ack_count r of
     None \<Rightarrow> s
   | Some acks \<Rightarrow> (case (au_dup_count r, au_dup_ids r) of
       (Some dups, Some ids) \<Rightarrow>
         (let p = place_of r; expected = dups + (if truthy (au_response r) then 1 else 0);
              bad = add_if (int (length ids) \<noteq> dups) p (duplicate_inconsistent s);
              bad = add_if (length (remdups ids) \<noteq> length ids) p bad in
          s\<lparr>duplicate_inconsistent :=
              add_if (case au_response r of None \<Rightarrow> False | Some e \<Rightarrow> e \<in> set ids) p bad,
            ack_count_wrong := add_if (acks \<noteq> expected) p (ack_count_wrong s)\<rparr>)
     | _ \<Rightarrow> s\<lparr>duplicate_inconsistent := duplicate_inconsistent s @ [place_of r]\<rparr>))"

definition note_size :: "audit_limits \<Rightarrow> audit_record \<Rightarrow> audit_state \<Rightarrow> audit_state" where
  "note_size L r s = s\<lparr>
     wrong_body := add_if (case au_body r of None \<Rightarrow> False | Some n \<Rightarrow> n \<noteq> al_body_bytes L) (place_of r) (wrong_body s),
     over_concurrency := add_if (case au_concurrency r of None \<Rightarrow> False | Some n \<Rightarrow> al_concurrency L < n)
       (place_of r) (over_concurrency s)\<rparr>"

definition note_window :: "audit_record \<Rightarrow> audit_state \<Rightarrow> audit_state" where
  "note_window r s = (case (au_window_start r, au_window_end r) of
     (Some a, Some b) \<Rightarrow> s\<lparr>windows := AList.update (au_run r) (a, b) (windows s)\<rparr>
   | _ \<Rightarrow> s)"

definition audit_one :: "audit_limits \<Rightarrow> audit_record \<Rightarrow> audit_state \<Rightarrow> audit_state" where
  "audit_one L r s =
     (if au_type r \<noteq> Some ''interaction'' then s
      else note_window r (note_size L r (note_acks r (note_timeout r (note_success L r
        (note_completion r (note_sequence r (s\<lparr>interactions := interactions s + 1\<rparr>))))))))"

type_synonym check = "string \<times> bool"

definition findings_of :: "audit_limits \<Rightarrow> audit_state \<Rightarrow> check list" where
  "findings_of L s =
     [(''no success beyond the frozen logical timeout'', over_timeout s = []),
      (''no timeout carries a completion timestamp'', reclassified s = []),
      (''no negative round-trip time'', negative_rtt s = []),
      (''no clock reversal within an interaction'', clock_reversal s = []),
      (''concurrency never exceeds the frozen bound'', over_concurrency s = []),
      (''no request appears twice within one phase'', duplicate_sequences s = []),
      (''no request completes more than once'', double_completed s = []),
      (''no success without a response event id'', success_without_response s = []),
      (''duplicate-ACK evidence is internally consistent'', duplicate_inconsistent s = []),
      (''ack_count matches the distinct ACKs observed'', ack_count_wrong s = []),
      (''every measured body is exactly the frozen size'', wrong_body s = []),
      (''every E3 measurement window is exactly the frozen duration'',
       list_all (\<lambda>(run, (a, b)). b - a = al_window_ns L) (windows s))]"

definition impossible_states :: "json \<Rightarrow> audit_record list \<Rightarrow> exn + check list" where
  "impossible_states lock rs =
     rbind (limits_of lock) (\<lambda>L. Inr (findings_of L (fold (audit_one L) rs empty_audit)))"

section \<open>What the pass over the records finds\<close>

definition is_interaction :: "audit_record \<Rightarrow> bool" where
  "is_interaction r \<longleftrightarrow> au_type r = Some ''interaction''"

definition sound_acks :: "audit_record \<Rightarrow> bool" where
  "sound_acks r \<longleftrightarrow> (\<forall>acks. au_ack_count r = Some acks \<longrightarrow>
     (\<exists>ids. au_dup_ids r = Some ids \<and> au_dup_count r = Some (int (length ids)) \<and> distinct ids \<and>
        acks = int (length ids) + (if truthy (au_response r) then 1 else 0) \<and>
        (\<forall>e. au_response r = Some e \<longrightarrow> e \<notin> set ids)))"

definition sound_record :: "audit_limits \<Rightarrow> audit_record \<Rightarrow> bool" where
  "sound_record L r \<longleftrightarrow>
     (au_outcome r = Some ''success'' \<longrightarrow> truthy (au_response r) \<and>
        (\<forall>rtt. rtt_of r = Some rtt \<longrightarrow> 0 \<le> rtt \<and> rtt \<le> al_timeout_ns L)) \<and>
     (au_outcome r = Some ''timeout'' \<longrightarrow> au_finished r = None) \<and> sound_acks r \<and>
     (\<forall>n. au_body r = Some n \<longrightarrow> n = al_body_bytes L) \<and>
     (\<forall>n. au_concurrency r = Some n \<longrightarrow> n \<le> al_concurrency L)"

definition clean :: "audit_state \<Rightarrow> bool" where
  "clean s \<longleftrightarrow> duplicate_sequences s = [] \<and> double_completed s = [] \<and> success_without_response s = [] \<and>
     negative_rtt s = [] \<and> clock_reversal s = [] \<and> over_timeout s = [] \<and> reclassified s = [] \<and>
     duplicate_inconsistent s = [] \<and> ack_count_wrong s = [] \<and> wrong_body s = [] \<and> over_concurrency s = []"

lemma add_if_Nil [simp]: "add_if b x xs = [] \<longleftrightarrow> \<not> b \<and> xs = []"
  by (simp add: add_if_def)

lemma seen_of_update [simp]: "seen_of (AList.update k v d) run = (if run = k then v else seen_of d run)"
  by (simp add: seen_of_def)

lemma length_remdups_eq: "length (remdups xs) = length xs \<longleftrightarrow> distinct xs"
  by (metis length_remdups_card_conv card_distinct distinct_card)

lemma clean_steps:
  "clean (note_window r s) = clean s"
  "clean (note_size L r s) \<longleftrightarrow> clean s \<and> (\<forall>n. au_body r = Some n \<longrightarrow> n = al_body_bytes L) \<and>
     (\<forall>n. au_concurrency r = Some n \<longrightarrow> n \<le> al_concurrency L)"
  "clean (note_acks r s) \<longleftrightarrow> clean s \<and> sound_acks r"
  "clean (note_timeout r s) \<longleftrightarrow> clean s \<and> (au_outcome r = Some ''timeout'' \<longrightarrow> au_finished r = None)"
  "clean (note_success L r s) \<longleftrightarrow> clean s \<and> (au_outcome r = Some ''success'' \<longrightarrow> truthy (au_response r) \<and>
     (\<forall>rtt. rtt_of r = Some rtt \<longrightarrow> 0 \<le> rtt \<and> rtt \<le> al_timeout_ns L))"
  "clean (note_completion r s) \<longleftrightarrow> clean s \<and> (au_finished r \<noteq> None \<longrightarrow> au_sequence r \<notin> seen_of (completed_once s) (au_run r))"
  "clean (note_sequence r s) \<longleftrightarrow> clean s \<and> (au_sequence r, au_phase r) \<notin> seen_of (sequences s) (au_run r)"
proof -
  show "clean (note_window r s) = clean s" by (simp add: note_window_def clean_def split: option.split)
  show "clean (note_size L r s) \<longleftrightarrow> clean s \<and> (\<forall>n. au_body r = Some n \<longrightarrow> n = al_body_bytes L) \<and>
     (\<forall>n. au_concurrency r = Some n \<longrightarrow> n \<le> al_concurrency L)"
    by (auto simp: note_size_def clean_def split: option.splits)
  show "clean (note_acks r s) \<longleftrightarrow> clean s \<and> sound_acks r"
  proof (cases "au_ack_count r")
    case (Some acks)
    then show ?thesis
      by (cases "au_dup_count r"; cases "au_dup_ids r"; cases "au_response r")
        (auto simp: note_acks_def clean_def sound_acks_def length_remdups_eq Let_def)
  qed (simp add: note_acks_def sound_acks_def)
  show "clean (note_timeout r s) \<longleftrightarrow> clean s \<and> (au_outcome r = Some ''timeout'' \<longrightarrow> au_finished r = None)"
    by (auto simp: note_timeout_def clean_def)
  show "clean (note_success L r s) \<longleftrightarrow> clean s \<and> (au_outcome r = Some ''success'' \<longrightarrow> truthy (au_response r) \<and>
     (\<forall>rtt. rtt_of r = Some rtt \<longrightarrow> 0 \<le> rtt \<and> rtt \<le> al_timeout_ns L))"
    by (cases "rtt_of r") (auto simp: note_success_def clean_def Let_def)
  show "clean (note_completion r s) \<longleftrightarrow> clean s \<and> (au_finished r \<noteq> None \<longrightarrow> au_sequence r \<notin> seen_of (completed_once s) (au_run r))"
    by (auto simp: note_completion_def clean_def Let_def)
  show "clean (note_sequence r s) \<longleftrightarrow> clean s \<and> (au_sequence r, au_phase r) \<notin> seen_of (sequences s) (au_run r)"
    by (auto simp: note_sequence_def clean_def Let_def)
qed

lemma memory_frame:
  "sequences (note_window r s) = sequences s" "completed_once (note_window r s) = completed_once s"
  "sequences (note_size L r s) = sequences s" "completed_once (note_size L r s) = completed_once s"
  "sequences (note_acks r s) = sequences s" "completed_once (note_acks r s) = completed_once s"
  "sequences (note_timeout r s) = sequences s" "completed_once (note_timeout r s) = completed_once s"
  "sequences (note_success L r s) = sequences s" "completed_once (note_success L r s) = completed_once s"
  "sequences (note_completion r s) = sequences s" "completed_once (note_sequence r s) = completed_once s"
  "windows (note_size L r s) = windows s" "windows (note_acks r s) = windows s" "windows (note_timeout r s) = windows s"
  "windows (note_success L r s) = windows s" "windows (note_completion r s) = windows s"
  "windows (note_sequence r s) = windows s"
  by (simp_all add: note_window_def note_size_def note_acks_def note_timeout_def note_success_def note_completion_def
    note_sequence_def Let_def split: option.split)

lemma clean_one:
  "clean (audit_one L r s) \<longleftrightarrow> clean s \<and> (is_interaction r \<longrightarrow> sound_record L r \<and>
     (au_sequence r, au_phase r) \<notin> seen_of (sequences s) (au_run r) \<and>
     (au_finished r \<noteq> None \<longrightarrow> au_sequence r \<notin> seen_of (completed_once s) (au_run r)))"
proof -
  have "clean (s\<lparr>interactions := n\<rparr>) = clean s" for n by (simp add: clean_def)
  then show ?thesis
    by (auto simp: audit_one_def is_interaction_def sound_record_def clean_steps memory_frame)
qed

text \<open>What the pass remembers.\<close>

lemma remembered:
  "seen_of (sequences (fold (audit_one L) rs empty_audit)) run =
     (\<lambda>r. (au_sequence r, au_phase r)) ` {r \<in> set rs. is_interaction r \<and> au_run r = run} \<and>
   seen_of (completed_once (fold (audit_one L) rs empty_audit)) run =
     au_sequence ` {r \<in> set rs. is_interaction r \<and> au_finished r \<noteq> None \<and> au_run r = run}"
proof (induction rs rule: rev_induct)
  case Nil
  show ?case by (simp add: empty_audit_def seen_of_def)
next
  case (snoc r rs)
  let ?s = "fold (audit_one L) rs empty_audit"
  have one: "seen_of (sequences (audit_one L r ?s)) run =
      (if is_interaction r \<and> au_run r = run then insert (au_sequence r, au_phase r) (seen_of (sequences ?s) run)
       else seen_of (sequences ?s) run)"
    "seen_of (completed_once (audit_one L r ?s)) run =
      (if is_interaction r \<and> au_finished r \<noteq> None \<and> au_run r = run
       then insert (au_sequence r) (seen_of (completed_once ?s) run) else seen_of (completed_once ?s) run)"
    by (auto simp: audit_one_def is_interaction_def memory_frame note_sequence_def note_completion_def Let_def)
  have sets: "{x \<in> set (rs @ [r]). P x} = (if P r then insert r {x \<in> set rs. P x} else {x \<in> set rs. P x})" for P
    by auto
  show ?case using snoc.IH by (simp add: one sets del: set_append)
qed

lemma clean_pass:
  "clean (fold (audit_one L) rs empty_audit) \<longleftrightarrow>
     (\<forall>r \<in> set rs. is_interaction r \<longrightarrow> sound_record L r) \<and>
     distinct (map (\<lambda>r. (au_run r, au_sequence r, au_phase r)) (filter is_interaction rs)) \<and>
     distinct (map (\<lambda>r. (au_run r, au_sequence r)) (filter (\<lambda>r. is_interaction r \<and> au_finished r \<noteq> None) rs))"
proof (induction rs rule: rev_induct)
  case Nil
  show ?case by (simp add: clean_def empty_audit_def)
next
  case (snoc r rs)
  show ?case
  proof (cases "is_interaction r")
    case True
    have new: "(au_sequence r, au_phase r) \<notin> seen_of (sequences (fold (audit_one L) rs empty_audit)) (au_run r) \<longleftrightarrow>
        (au_run r, au_sequence r, au_phase r) \<notin> (\<lambda>r. (au_run r, au_sequence r, au_phase r)) ` set (filter is_interaction rs)"
      "au_sequence r \<notin> seen_of (completed_once (fold (audit_one L) rs empty_audit)) (au_run r) \<longleftrightarrow>
        (au_run r, au_sequence r) \<notin> (\<lambda>r. (au_run r, au_sequence r)) ` set (filter (\<lambda>r. is_interaction r \<and> au_finished r \<noteq> None) rs)"
      unfolding remembered [THEN conjunct1] remembered [THEN conjunct2]
      by (simp_all add: image_iff) (metis+)
    show ?thesis using True snoc.IH by (auto simp: clean_one new)
  next
    case False
    with snoc.IH show ?thesis by (auto simp: clean_one)
  qed
qed

text \<open>The last window that the records of a run state.\<close>

definition window_of :: "audit_record \<Rightarrow> (int \<times> int) option" where
  "window_of r = (case (au_window_start r, au_window_end r) of (Some a, Some b) \<Rightarrow> Some (a, b) | _ \<Rightarrow> None)"

definition last_window :: "audit_record list \<Rightarrow> string \<Rightarrow> (int \<times> int) option" where
  "last_window rs run =
     (let ws = List.map_filter window_of (filter (\<lambda>r. is_interaction r \<and> au_run r = run) rs)
      in if ws = [] then None else Some (last ws))"

lemma last_window_snoc:
  "last_window (rs @ [r]) run =
     (if is_interaction r \<and> au_run r = run \<and> window_of r \<noteq> None then window_of r else last_window rs run)"
  by (auto simp: last_window_def List.map_filter_def Let_def)

lemma windows_pass:
  "map_of (windows (fold (audit_one L) rs empty_audit)) run = last_window rs run \<and>
   dict_ok (windows (fold (audit_one L) rs empty_audit))"
proof (induction rs rule: rev_induct)
  case Nil
  show ?case by (simp add: empty_audit_def last_window_def List.map_filter_simps)
next
  case (snoc r rs)
  have "windows (audit_one L r s) = (if is_interaction r then (case window_of r of
      None \<Rightarrow> windows s | Some w \<Rightarrow> AList.update (au_run r) w (windows s)) else windows s)" for s
    by (auto simp: audit_one_def is_interaction_def memory_frame note_window_def window_of_def split: option.split)
  with snoc.IH show ?case by (auto simp: last_window_snoc split: option.split)
qed

section \<open>Properties of the pass\<close>

text \<open>
  C33: The audit of the raw records is complete: all twelve checks pass exactly when every
  interaction record is sound by itself (a success names its response and took between zero
  and the frozen timeout, a timeout completed nothing, the ACK evidence adds up, body and
  concurrency are within the frozen limits), no request is recorded twice in one phase of a
  run or completed twice in a run, and the last window that the records of each run state
  has the frozen length. Earlier windows of a run are not looked at.
\<close>

theorem impossible_states_exact:
  assumes "limits_of lock = Inr L"
  shows "\<exists>checks. impossible_states lock rs = Inr checks \<and> length checks = 12 \<and>
    (list_all snd checks \<longleftrightarrow>
      (\<forall>r \<in> set rs. is_interaction r \<longrightarrow> sound_record L r) \<and>
      distinct (map (\<lambda>r. (au_run r, au_sequence r, au_phase r)) (filter is_interaction rs)) \<and>
      distinct (map (\<lambda>r. (au_run r, au_sequence r)) (filter (\<lambda>r. is_interaction r \<and> au_finished r \<noteq> None) rs)) \<and>
      (\<forall>run a b. last_window rs run = Some (a, b) \<longrightarrow> b - a = al_window_ns L))"
proof -
  let ?s = "fold (audit_one L) rs empty_audit"
  have "list_all (\<lambda>(run, (a, b)). b - a = al_window_ns L) (windows ?s) \<longleftrightarrow>
      (\<forall>run w. map_of (windows ?s) run = Some w \<longrightarrow> snd w - fst w = al_window_ns L)"
    by (auto simp: list_all_iff simp flip: dict_ok_snd_inj [OF windows_pass [THEN conjunct2, of L rs]])
  also have "\<dots> \<longleftrightarrow> (\<forall>run a b. last_window rs run = Some (a, b) \<longrightarrow> b - a = al_window_ns L)"
    using windows_pass [THEN conjunct1] by auto
  finally have windows: "list_all (\<lambda>(run, (a, b)). b - a = al_window_ns L) (windows ?s) \<longleftrightarrow>
      (\<forall>run a b. last_window rs run = Some (a, b) \<longrightarrow> b - a = al_window_ns L)" .
  have "list_all snd (findings_of L ?s) \<longleftrightarrow> clean ?s \<and> list_all (\<lambda>(run, (a, b)). b - a = al_window_ns L) (windows ?s)"
    by (auto simp: findings_of_def clean_def)
  then show ?thesis
    using assms clean_pass [of L rs] windows by (simp add: impossible_states_def) (simp add: findings_of_def)
qed

definition sample_lock :: json where
  "sample_lock = JObj [(''artifact'', JStr LOCK_ARTIFACT), (''frozen_parameters'', JObj frozen_parameters)]"

lemma frozen_nanoseconds: "limit_ns 10 = 10000000000" "limit_ns 60 = 60000000000"
  by code_simp+

lemma sample_frozen:
  "frozen_at sample_lock ''interaction_timeout_seconds'' = Inr (JNum 10)"
  "frozen_at sample_lock ''message_body_bytes'' = Inr (JNum 256)"
  "frozen_at sample_lock ''e3_measurement_seconds'' = Inr (JNum 60)"
  "frozen_at sample_lock ''e3_concurrency_levels'' = Inr (JList [JNum 8, JNum 32])"
  "frozen_at sample_lock ''e3_latency_max_in_flight'' = Inr (JNum 1)"
  by (simp_all add: frozen_at_def sub_get_def obj_get_def sample_lock_def frozen_parameters_def
    DEFAULT_INTERACTION_TIMEOUT_SECONDS_def E3_BODY_BYTES_def E3_MEASUREMENT_SECONDS_def E3_CONCURRENCY_LEVELS_def
    E3_LATENCY_MAX_IN_FLIGHT_def)

lemma sample_limits:
  "limits_of sample_lock = Inr \<lparr>al_timeout_ns = 10000000000, al_body_bytes = 256, al_window_ns = 60000000000,
     al_concurrency = 32\<rparr>"
  by (simp add: limits_of_def frozen_number_def frozen_numbers_def sample_frozen number_of_def frozen_nanoseconds
    truncate_rat_def)

text \<open>A success, and the two records E2 writes of one request.\<close>

definition sample_audit_record :: "int \<Rightarrow> string \<Rightarrow> string \<Rightarrow> int option \<Rightarrow> audit_record" where
  "sample_audit_record n ph out finished = \<lparr>au_type = Some ''interaction'', au_run = ''r'', au_sequence = Some n,
     au_phase = Some ph, au_outcome = Some out, au_started = Some 0, au_finished = finished, au_response = Some ''$a'',
     au_ack_count = Some 1, au_dup_count = Some 0, au_dup_ids = Some [], au_body = Some 256, au_concurrency = Some 32,
     au_window_start = Some 0, au_window_end = Some 60000000000\<rparr>"

theorem impossible_states_exact_witness:
  "\<exists>checks. impossible_states sample_lock
     [sample_audit_record 1 ''offline'' ''offline_send'' None, sample_audit_record 1 ''post_restart'' ''success'' (Some 5)] =
       Inr checks \<and> list_all snd checks"
proof -
  let ?rs = "[sample_audit_record 1 ''offline'' ''offline_send'' None, sample_audit_record 1 ''post_restart'' ''success'' (Some 5)]"
  have "\<forall>r \<in> set ?rs. sound_record \<lparr>al_timeout_ns = 10000000000, al_body_bytes = 256, al_window_ns = 60000000000,
     al_concurrency = 32\<rparr> r"
    by (simp add: sample_audit_record_def sound_record_def sound_acks_def rtt_of_def)
  moreover have "last_window ?rs run = (if run = ''r'' then Some (0, 60000000000) else None)" for run
    by (simp add: last_window_def sample_audit_record_def is_interaction_def window_of_def List.map_filter_simps)
  ultimately show ?thesis
    using impossible_states_exact [OF sample_limits, of ?rs]
    by (elim exE conjE) (auto simp: sample_audit_record_def is_interaction_def)
qed

end
