(* ===== verification/Human_Objects.thy ===== *)
theory Human_Objects
  imports Human
begin

text \<open>
  What holds of every interaction a participant can reach: a property of single interactions
  that fresh ones have, and that neither an ACK nor the progress of the request task
  destroys, is an invariant of the participant.
\<close>

definition same_acks :: "interaction \<Rightarrow> interaction \<Rightarrow> bool" where
  "same_acks it it' \<longleftrightarrow> it_ack_ids it' = it_ack_ids it \<and> it_response_event_id it' = it_response_event_id it \<and>
     it_completed it' = it_completed it \<and> it_late_ack it' = it_late_ack it \<and>
     it_correlation it' = it_correlation it \<and> it_request_txn_id it' = it_request_txn_id it"

lemma set_object_member:
  assumes "it' \<in> set (h_objects (set_object i x h))"
  obtains "it' \<in> set (h_objects h)" | "it' = x" "i < length (h_objects h)"
proof -
  have "it' \<in> set (h_objects h) \<or> it' = x \<and> i < length (h_objects h)"
    using assms set_update_subset_insert [of "h_objects h" i x]
    by (cases "i < length (h_objects h)") (auto simp: set_object_def list_update_beyond)
  then show thesis using that by blast
qed

locale object_invariant =
  fixes P :: "interaction \<Rightarrow> bool"
  assumes fresh: "txn_id c ''request'' = Inr txn \<Longrightarrow> P (new_interaction c txn t tsk)"
    and progress: "same_acks it it' \<Longrightarrow> P it \<Longrightarrow> P it'"
    and ack: "it_ok it \<Longrightarrow> P it \<Longrightarrow> P (observe_ack t3 ep eid it)"
begin

definition holds :: "human \<Rightarrow> bool" where
  "holds h \<longleftrightarrow> (\<forall>it \<in> set (h_objects h). P it)"

lemma holds_set_object:
  "holds h \<Longrightarrow> (i < length (h_objects h) \<Longrightarrow> P x) \<Longrightarrow> holds (set_object i x h)"
  by (auto simp: holds_def elim!: set_object_member)

lemma holds_frame [simp]: "holds (h\<lparr>h_in_flight := n\<rparr>) = holds h"
  by (simp add: holds_def)

lemma holds_object: "holds h \<Longrightarrow> i < length (h_objects h) \<Longrightarrow> P (h_objects h ! i)"
  by (simp add: holds_def)

lemma holds_task:
  "holds h \<Longrightarrow> (\<And>it. same_acks it (f it)) \<Longrightarrow> holds (set_object i (f (h_objects h ! i)) h)"
  by (rule holds_set_object) (auto intro: progress holds_object)

lemma holds_register:
  assumes "holds h" and "txn_id c ''request'' = Inr txn"
  shows "holds (h\<lparr>h_objects := h_objects h @ [new_interaction c txn t tsk], h_pending := p, h_in_flight := n\<rparr>)"
    and "holds (h\<lparr>h_objects := h_objects h @ [new_interaction c txn t tsk], h_pending := p\<rparr>)"
  using assms by (auto simp: holds_def fresh)

lemma holds_request_sent:
  assumes "holds h"
  shows "holds (request_sent str i timeout result t h)"
proof -
  have tasks: "holds (set_object i ((h_objects h ! i)\<lparr>it_send_errcode := a, it_send_error := b, it_task := c\<rparr>) h)"
    "holds (set_object i ((h_objects h ! i)\<lparr>it_task := c\<rparr>) h)"
    "holds (set_object i ((h_objects h ! i)\<lparr>it_request_event_id := d, timed_out := e, it_task := c\<rparr>) h)"
    "holds (set_object i ((h_objects h ! i)\<lparr>it_request_event_id := d, it_task := c\<rparr>) h)" for a b c d e
    by (rule holds_task [OF assms], simp add: same_acks_def)+
  show ?thesis
    unfolding request_sent_def Let_def using tasks by (simp split: sum.split exn.split)
qed

lemma holds_step:
  assumes "human_step h h'" and "human_ok h" and "holds h"
  shows "holds h'"
  using assms
proof (induction rule: human_step.induct)
  case (step_deliver h t3 ep e)
  from human_handle_effect [of t3 ep e h] show ?case
  proof (elim disjE exE conjE)
    fix i assume eff: "fst (human_handle t3 ep e h) = set_object i (observe_ack t3 ep (ev_id e) (h_objects h ! i)) h"
    show ?case unfolding eff
    proof (rule holds_set_object [OF step_deliver(2)])
      assume "i < length (h_objects h)"
      with step_deliver show "P (observe_ack t3 ep (ev_id e) (h_objects h ! i))"
        by (intro ack holds_object) (simp_all add: human_ok_def)
    qed
  qed (use step_deliver in simp)
next
  case (step_begin h c bb timeout t t0)
  then show ?case by (auto simp: begin_request_def Let_def holds_register split: sum.split)
next
  case (step_sent i h timeout str result t)
  then show ?case by (simp add: holds_request_sent)
next
  case (step_expires i h)
  then show ?case unfolding wait_expires_def holds_frame by (intro holds_task) (auto simp: same_acks_def)
next
  case (step_done i h)
  then show ?case unfolding wait_done_def holds_frame by (intro holds_task) (auto simp: same_acks_def)
next
  case (step_offline h c t)
  then show ?case by (auto simp: begin_offline_def Let_def holds_register split: sum.split)
next
  case (step_offline_sent i h result)
  have "holds (set_object i ((h_objects h ! i)\<lparr>it_task := c\<rparr>) h)"
    "holds (set_object i ((h_objects h ! i)\<lparr>it_request_event_id := d, it_task := c\<rparr>) h)" for c d
    by (rule holds_task [OF step_offline_sent(4)], simp add: same_acks_def)+
  then show ?case unfolding offline_sent_def Let_def by (simp split: sum.split)
next
  case (step_bind h room)
  then show ?case by (simp add: bind_room_def holds_def)
qed

lemma reached:
  assumes "human_steps new_human h" and "it \<in> set (h_objects h)"
  shows "P it"
proof -
  from assms(1) have "human_ok h \<and> holds h"
  proof (induction rule: rtranclp_induct)
    case base
    show ?case by (simp add: holds_def) (simp add: new_human_def)
  next
    case (step y z)
    then show ?case using human_step_keeps [of y z] holds_step [of y z] by (simp add: keeps_def)
  qed
  with assms(2) show ?thesis by (simp add: holds_def)
qed

end

lemma reached_ok:
  assumes "human_steps new_human h" and "it \<in> set (h_objects h)"
  shows "it_ok it"
proof -
  from assms(1) have "human_ok h"
    by (induction rule: rtranclp_induct) (simp_all add: keeps_def human_step_keeps [unfolded keeps_def])
  with assms(2) show ?thesis by (simp add: human_ok_def)
qed

text \<open>The transaction id of a request is the one of its correlation.\<close>

definition own_txn :: "interaction \<Rightarrow> bool" where
  "own_txn it \<longleftrightarrow> txn_id (it_correlation it) ''request'' = Inr (it_request_txn_id it)"

interpretation txns: object_invariant own_txn
proof
  show "txn_id c ''request'' = Inr txn \<Longrightarrow> own_txn (new_interaction c txn t tsk)" for c txn t tsk
    by (simp add: own_txn_def new_interaction_def)
  show "same_acks it it' \<Longrightarrow> own_txn it \<Longrightarrow> own_txn it'" for it it'
    by (simp add: own_txn_def same_acks_def)
  show "own_txn it \<Longrightarrow> own_txn (observe_ack t3 ep eid it)" for it t3 ep eid
    by (auto simp: own_txn_def observe_ack_def Let_def)
qed

end
