(* ===== verification/Evidence_Audit.thy ===== *)
theory Evidence_Audit
  imports Final_Audit Human_Objects
begin

text \<open>
  The audit and the benchmark engine together: which of the interactions that a participant
  can reach leave a raw record the audit objects to.
\<close>

section \<open>The response event of an interaction\<close>

text \<open>
  The response is the first ACK, unless an ACK completed the interaction, its budget then
  ran out, and a further ACK arrived: that one replaces the response.
\<close>

definition response_ok :: "interaction \<Rightarrow> bool" where
  "response_ok it \<longleftrightarrow>
     (it_ack_ids it = [] \<longrightarrow> it_response_event_id it = None) \<and>
     (it_ack_ids it \<noteq> [] \<longrightarrow> (if it_completed it \<noteq> None \<and> it_late_ack it \<noteq> None
        then \<exists>e \<in> set (tl (it_ack_ids it)). it_response_event_id it = Some e
        else it_response_event_id it = Some (hd (it_ack_ids it))))"

lemma response_ok_observe:
  assumes "it_ok it" and "response_ok it"
  shows "response_ok (observe_ack t3 ep eid it)"
proof (cases "it_ack_ids it")
  case Nil
  with assms show ?thesis by (auto simp: response_ok_def observe_ack_def it_ok_def Let_def)
next
  case (Cons a as)
  with assms show ?thesis by (auto simp: response_ok_def observe_ack_def it_ok_def Let_def)
qed

interpretation responses: object_invariant response_ok
proof
  show "response_ok (new_interaction c txn t tsk)" for c txn t tsk
    by (simp add: response_ok_def new_interaction_def)
  show "same_acks it it' \<Longrightarrow> response_ok it \<Longrightarrow> response_ok it'" for it it'
    by (simp add: same_acks_def response_ok_def)
qed (rule response_ok_observe)

section \<open>The record the engine writes of it\<close>

text \<open>A benchmark record as the audit reads it back.\<close>

definition audit_view :: "benchmark_record \<Rightarrow> audit_record" where
  "audit_view b = \<lparr>au_type = Some ''interaction'', au_run = rr_run_id b, au_sequence = Some (rr_sequence_id b),
     au_phase = Some (rr_run_phase b), au_outcome = Some (outcome b), au_started = Some (initiated_ns b),
     au_finished = completed_ns b, au_response = rr_response_event_id b, au_ack_count = Some (int (ack_count b)),
     au_dup_count = map_option int (duplicate_ack_count b), au_dup_ids = Some (duplicate_ack_event_ids b),
     au_body = Some (message_body_bytes b), au_concurrency = Some (int (concurrency b)),
     au_window_start = rec_window_start b, au_window_end = rec_window_end b\<rparr>"

lemma audit_view_of:
  assumes "interaction_record cfg it ph ws we = Inr b"
  shows "au_outcome (audit_view b) = Some (outcome_value (outcome_of it))" "au_finished (audit_view b) = it_completed it"
    "au_response (audit_view b) = it_response_event_id it" "au_ack_count (audit_view b) = Some (int (it_ack_count it))"
    "au_dup_count (audit_view b) = Some (int (it_duplicate_count it))"
    "au_dup_ids (audit_view b) = Some (it_duplicate_ids it)"
  using assms
  by (auto simp: interaction_record_def rbind_eq_Inr audit_view_def make_benchmark_record_def
    runner_record.defs benchmark_record.defs)

text \<open>Both ends of the race: the interaction completed, then ran out of its budget.\<close>

definition overran :: "interaction \<Rightarrow> bool" where
  "overran it \<longleftrightarrow> timed_out it \<and> it_completed it \<noteq> None"

lemma sound_acks_view:
  assumes "interaction_record cfg it ph ws we = Inr b" and "it_ok it" and "response_ok it" and "[] \<notin> set (it_ack_ids it)"
  shows "sound_acks (audit_view b) \<longleftrightarrow> \<not> (overran it \<and> it_late_ack it \<noteq> None)"
proof -
  note view = audit_view_of [OF assms(1)] it_ack_count_def it_duplicate_count_def it_duplicate_ids_def
  show ?thesis
  proof (cases "it_ack_ids it")
    case Nil
    with assms(2,3) show ?thesis by (auto simp: sound_acks_def view response_ok_def it_ok_def overran_def)
  next
    case (Cons a as)
    have as: "distinct (a # as)" "a \<noteq> []" "[] \<notin> set as" using assms(2,4) Cons by (auto simp: it_ok_def)
    show ?thesis
    proof (cases "it_completed it \<noteq> None \<and> it_late_ack it \<noteq> None")
      case True
      with assms(2,3) Cons obtain e where "e \<in> set as" "it_response_event_id it = Some e" "timed_out it"
        by (auto simp: response_ok_def it_ok_def)
      with True show ?thesis by (auto simp: sound_acks_def view Cons overran_def)
    next
      case False
      with assms(3) Cons have "it_response_event_id it = Some a" by (auto simp: response_ok_def split: if_splits)
      with False as show ?thesis by (auto simp: sound_acks_def view Cons overran_def)
    qed
  qed
qed

section \<open>Properties\<close>


text \<open>The race is reached: an ACK overtakes its send, which then exceeds the budget, and a second ACK follows.\<close>

definition twice_acked :: human where
  "twice_acked = fst (human_handle 32000000000 None (ack_event ''$b'') overtaken)"

definition sample_run_config :: run_config where
  "sample_run_config = \<lparr>rc_run_id = ''r1'', rc_workload = ''latency'', rc_block_id = ''lat-block01'',
     rc_within_block_order = 1, rc_topology_name = ''local'', rc_receiver_role = ''local_agent'', rc_sender = ''@h'',
     rc_room_id = ''!r'', rc_concurrency = 1, rc_body_bytes = 256, rc_timeout_seconds = 30, rc_warmup_interactions = 0,
     rc_measured_interactions = 1, rc_warmup_seconds = 0, rc_measurement_seconds = 60, rc_drain_seconds = 30\<rparr>"

lemma twice_acked_value: "h_objects twice_acked =
    [\<lparr>it_correlation = \<lparr>experiment_name = ''E3'', run_id = ''r1'', sequence_id = 1\<rparr>,
      it_request_txn_id = ''fam-e3-r1-request-00001'', it_initiated = 0, it_request_event_id = Some ''$q'',
      it_response_event_id = Some ''$b'', it_completed = Some 29000000000, it_ack_ids = [''$a'', ''$b''], it_send_errcode = [],
      it_send_error = [], timed_out = True, it_late_ack = Some 32000000000, it_recovery_episode = None, it_done = True,
      it_task = Returned\<rparr>]"
  unfolding twice_acked_def overtaken_value by code_simp

lemma twice_acked_object:
  "length (h_objects twice_acked) = 1 \<and> overran (h_objects twice_acked ! 0) \<and>
   it_late_ack (h_objects twice_acked ! 0) = Some 32000000000 \<and>
   it_ack_ids (h_objects twice_acked ! 0) = [''$a'', ''$b''] \<and>
   (case interaction_record sample_run_config (h_objects twice_acked ! 0) ''measured'' None None of
      Inr _ \<Rightarrow> True | Inl _ \<Rightarrow> False)"
  unfolding twice_acked_value by code_simp


end
