(* ===== verification/Lock_Gen.thy ===== *)
theory Lock_Gen
  imports Lock Schedule Llm Accounts
begin

text \<open>
  \<^verbatim>\<open>scripts/protocol_lock.py\<close>: how the protocol lock is generated and validated. Files are
  JSON documents, present or not; git, the validation against the JSON schema, the digests
  of the schemas and the clock are arguments.
\<close>

section \<open>Constants\<close>

definition SUPPORTED_RAW_SCHEMA_VERSIONS :: "string list" where
  "SUPPORTED_RAW_SCHEMA_VERSIONS = [''1'', ''2'']"

definition LOCK_SCHEMA_VERSION :: string where "LOCK_SCHEMA_VERSION = ''1''"

definition WORKTREE_STATUS_ENV :: string where "WORKTREE_STATUS_ENV = ''FAM_WORKTREE_STATUS''"

definition LOCK_ARTIFACT_PATH :: string where "LOCK_ARTIFACT_PATH = ''results/protocol-lock.json''"

definition terminal_outcomes :: "interaction_outcome list" where
  "terminal_outcomes = [SUCCESS, TIMEOUT, SEND_ERROR, MALFORMED_RESPONSE, UNEXPECTED_RESPONSE, RUNNER_ERROR, OFFLINE_SEND]"

definition invalid_run_classes :: "invalid_run_class list" where
  "invalid_run_classes = [PROTOCOL_LOCK_MISMATCH, EXECUTION_PRECONDITION_VIOLATION, FROZEN_CONFIGURATION_ERROR,
     INSTRUMENTATION_OR_OUTPUT_FAILURE, RUNNER_IMPLEMENTATION_FAILURE, INFRASTRUCTURE_FAILURE, ENVIRONMENT_CORRUPTION,
     EXTERNAL_INTERFERENCE, EXTERNAL_DEPENDENCY_OR_CLIENT_ENVIRONMENT_FAILURE]"

section \<open>The texts of the lock\<close>

definition section_sign :: string where "section_sign = [CHR 0xA7]"

definition lock_purpose :: string where
  "lock_purpose = ''Binds the formal campaign to one implementation, one environment and one set of frozen parameters. '' @
     ''Once this artifact is committed and tagged, no execution-affecting change may occur during '' @
     ''collection (experimental-protocol.md '' @ section_sign @ ''46, Task 07 '' @ section_sign @ ''1).''"

definition e4_note :: string where
  "e4_note = ''The actual human's workstation is external to the formal host by design (experimental-protocol.md '' @ section_sign @ ''39, Task 07 '' @ section_sign @ ''38).''"

definition taxonomy_note :: string where
  "taxonomy_note = ''Closed at lock. Adding a class afterwards increments protocol_version and is disclosed ('' @ section_sign @ ''35, '' @ section_sign @ ''46).''"

definition supersedes_note :: string where
  "supersedes_note = ''Superseded before any formal collection. No manifest, raw stream or evidence artifact carries '' @
     ''publication_data true under that tag, and it is retained rather than moved because a published tag '' @
     ''that changes what it points at is worse for provenance than a tag that is recorded as replaced.''"

definition batch_summary :: string where
  "batch_summary = ''Sync delivers events in batches and the runner dispatches their callbacks sequentially, so the k-th '' @
     ''ACK in a batch has T3 stamped after the preceding callbacks have run. The bias can only delay T3, '' @
     ''never advance it.''"

definition sequential_summary :: string where
  "sequential_summary = ''E3 measures the observed end-to-end throughput of the tested closed-loop system using the frozen '' @
     ''sequential deterministic agent. It is not maximum Matrix throughput, maximum federation throughput, '' @
     ''or messaging-layer capacity.''"

definition batch_magnitude :: string where
  "batch_magnitude = ''~2.9 us/event, ~92 us at batch 32, ~0.077% of a 120 ms RTT, measured under development conditions '' @
     ''and not generalised to the formal host''"

definition accepted_limitations :: json where
  "accepted_limitations = JList
     [JObj [(''id'', JStr ''L10''), (''summary'', JStr batch_summary), (''correction_applied'', JBool False),
        (''development_magnitude'', JStr batch_magnitude),
        (''reference'', JStr (''experimental-protocol.md '' @ section_sign @ ''10''))],
      JObj [(''id'', JStr ''sequential-agent''), (''summary'', JStr sequential_summary), (''correction_applied'', JBool False),
        (''reference'', JStr (''experimental-protocol.md '' @ section_sign @ ''17''))]]"

section \<open>What the generator reads\<close>

record lock_world =
  lw_git :: "string list \<Rightarrow> string"
  lw_env :: variables
  lw_environment :: "json option"
  lw_report :: "json option"
  lw_inventory :: "json option"
  lw_git_here :: bool
  lw_schema_digests :: "(string, string) dict"
  lw_schema_problems :: "json \<Rightarrow> string list"
  lw_float :: "string \<Rightarrow> rat option"
  lw_node :: string
  lw_now :: string
  lw_render :: "json \<Rightarrow> string"
  lw_sha :: "string \<Rightarrow> string"
  lw_shuffle :: "string \<Rightarrow> bool list \<Rightarrow> bool list"

record lock_args =
  la_tag :: string
  la_campaign_id :: string
  la_supersedes_tag :: string
  la_supersedes_reason :: string
  la_supersedes_commit :: string

datatype generate_error =
    NoEnvironmentManifest
  | NoVerificationReport
  | NoRateLimits
  | LlmConfiguration llm_config_error
  | NoCommit
  | WorktreeUnexamined
  | WorktreeUnclean string
  | NoConfigHashes
  | UnresolvedTag string
  | BadNumber string
  | DoesNotMatch "lock_problem list"
  | SchemaProblems "string list"

definition environment_of :: "lock_world \<Rightarrow> generate_error + json" where
  "environment_of w = (case lw_environment w of None \<Rightarrow> Inl NoEnvironmentManifest | Some d \<Rightarrow> Inr d)"

definition rate_limits_of :: "lock_world \<Rightarrow> generate_error + json" where
  "rate_limits_of w = (case lw_report w of
     None \<Rightarrow> Inl NoVerificationReport
   | Some d \<Rightarrow> if json_true (obj_get d ''rate_limits'') then Inr (value_of (obj_get d ''rate_limits'')) else Inl NoRateLimits)"

definition inventory_of :: "lock_world \<Rightarrow> json" where
  "inventory_of w = (case lw_inventory w of None \<Rightarrow> JObj [] | Some d \<Rightarrow> d)"

text \<open>\<open>_llm_configuration\<close>, as the pairs that are merged into the section \<open>e4\<close>.\<close>

definition llm_configuration :: "lock_world \<Rightarrow> generate_error + (string, json) dict" where
  "llm_configuration w = (case config_from_environment (lw_env w) of
     Inl e \<Rightarrow> Inl (LlmConfiguration e)
   | Inr c \<Rightarrow> Inr
       [(''agent_config_hash'', JStr (llm_config_hash (lw_render w) (lw_sha w) c)),
        (''base_url'', JStr (base_url c)), (''max_tokens'', JNum (of_int (max_tokens c))),
        (''conversation_history_turns'', JNum (of_nat (conversation_history_turns c))),
        (''system_prompt_sha256'', JStr (lw_sha w (system_prompt c))),
        (''system_prompt'', JStr (system_prompt c))])"

section \<open>The schedule\<close>

definition plan_entry :: "scheduled_run \<Rightarrow> json" where
  "plan_entry r = JObj
     [(''block_id'', JStr (sr_block_id r)), (''block_index'', JNum (of_nat (sr_block_index r))),
      (''within_block_order'', JNum (of_nat (sr_within_block_order r))), (''topology'', JStr (sr_topology r)),
      (''concurrency'', JNum (of_nat (sr_concurrency r))), (''key'', JStr (run_key r))]"

definition plan :: "scheduled_run list \<Rightarrow> json" where
  "plan runs = JList (map plan_entry runs)"

definition locked_schedule :: "(string \<Rightarrow> bool list \<Rightarrow> bool list) \<Rightarrow> (string, json) dict" where
  "locked_schedule shuffle =
     (''latency'', plan (generate_workload_schedule shuffle E3_WORKLOAD_LATENCY 1 (nat E3_SCHEDULE_SEED) E3_PAIRED_BLOCKS)) #
     map (\<lambda>level. (''throughput_c'' @ dec level,
       plan (generate_workload_schedule shuffle E3_WORKLOAD_THROUGHPUT level (nat E3_SCHEDULE_SEED) E3_PAIRED_BLOCKS)))
       E3_CONCURRENCY_LEVELS"

section \<open>Worktree, superseded lock, campaign\<close>

definition worktree_status :: "lock_world \<Rightarrow> generate_error + string" where
  "worktree_status w =
     (if lw_git_here w then Inr (lw_git w [''status'', ''--porcelain''])
      else case lw_env w WORKTREE_STATUS_ENV of None \<Rightarrow> Inl WorktreeUnexamined | Some s \<Rightarrow> Inr (strip s))"

definition supersedes :: "lock_world \<Rightarrow> lock_args \<Rightarrow> generate_error + json" where
  "supersedes w args =
     (if la_supersedes_tag args = [] then Inr JNull
      else
        (let found = lw_git w [''rev-list'', ''-n'', ''1'', la_supersedes_tag args];
             commit = (if found = [] then la_supersedes_commit args else found)
         in if commit = [] then Inl (UnresolvedTag (la_supersedes_tag args))
            else Inr (JObj [(''tag'', JStr (la_supersedes_tag args)), (''commit'', JStr commit),
              (''reason'', JStr (la_supersedes_reason args)), (''formal_artifacts_produced'', JNum 0), (''note'', JStr supersedes_note)])))"

text \<open>The campaign parameters as the document the fingerprint is taken of.\<close>

definition parameters_json :: "json \<Rightarrow> campaign_parameters \<Rightarrow> json" where
  "parameters_json rates ps = JObj
     [(''execution_protocol_version'', JStr (cp_protocol_version ps)),
      (''runtime_code_revision'', JStr (cp_code_revision ps)),
      (''protocol_git_commit'', JStr (cp_git_commit ps)),
      (''schedule_seed'', JNum (of_nat (cp_schedule_seed ps))),
      (''paired_blocks'', JNum (of_nat (cp_paired_blocks ps))),
      (''concurrency_levels'', JList (map (\<lambda>n. JNum (of_nat n)) (cp_concurrency_levels ps))),
      (''latency_max_in_flight'', JNum (of_nat (cp_max_in_flight ps))),
      (''latency_warmup_interactions'', JNum (of_nat (cp_latency_warmup ps))),
      (''latency_measured_interactions'', JNum (of_nat (cp_latency_measured ps))),
      (''warmup_seconds'', JNum (cp_warmup_seconds ps)),
      (''measurement_seconds'', JNum (cp_measurement_seconds ps)),
      (''drain_seconds'', JNum (cp_drain_seconds ps)),
      (''inter_run_idle_seconds'', JNum (cp_idle_seconds ps)),
      (''message_body_bytes'', JNum (of_int (cp_body_bytes ps))),
      (''sync_timeline_limit'', opt_num (cp_timeline_limit ps)),
      (''sync_timeout_ms'', JNum (of_int (cp_timeout_ms ps))),
      (''synapse_config_hashes'', strings (cp_config_hashes ps)),
      (''rate_limit_configuration'', rates)]"

definition fingerprint_of :: "lock_world \<Rightarrow> json \<Rightarrow> string" where
  "fingerprint_of w d = lw_sha w (canonical_json (lw_render w) d)"

text \<open>The strings of an object, as \<open>config_hashes\<close> and the rate limits are.\<close>

definition string_items :: "(json \<Rightarrow> string) \<Rightarrow> json option \<Rightarrow> (string, string) dict" where
  "string_items render v = map (\<lambda>(k, x). (k, case x of JStr s \<Rightarrow> s | _ \<Rightarrow> render x)) (obj_items v)"

section \<open>Generating the lock\<close>

definition env_text_or :: "lock_world \<Rightarrow> string \<Rightarrow> string \<Rightarrow> json" where
  "env_text_or w name d = JStr (env_or (lw_env w) name d)"

definition env_seconds :: "lock_world \<Rightarrow> string \<Rightarrow> string \<Rightarrow> generate_error + json" where
  "env_seconds w name d = (case lw_float w (env_or (lw_env w) name d) of
     None \<Rightarrow> Inl (BadNumber name) | Some x \<Rightarrow> Inr (JNum x))"

definition get_default :: "json \<Rightarrow> string \<Rightarrow> json \<Rightarrow> json" where
  "get_default d k v = (case obj_get d k of None \<Rightarrow> v | Some x \<Rightarrow> x)"

definition implementation_section :: "lock_world \<Rightarrow> lock_args \<Rightarrow> string \<Rightarrow> json" where
  "implementation_section w args commit = JObj
     [(''git_commit'', JStr commit), (''git_tag'', JStr (la_tag args)), (''worktree_clean'', JBool True),
      (''raw_schema_versions_supported'', JList (map JStr SUPPORTED_RAW_SCHEMA_VERSIONS)),
      (''schema_digests'', strings (lw_schema_digests w))]"

definition environment_section :: "lock_world \<Rightarrow> json \<Rightarrow> json \<Rightarrow> json" where
  "environment_section w e rates = JObj
     [(''formal_run_host_identifier'', get_default e ''formal_run_host_identifier'' (JStr (lw_node w))),
      (''host'', get_default e ''host'' (JObj [])), (''software'', get_default e ''software'' (JObj [])),
      (''config_hashes'', get_default e ''config_hashes'' (JObj [])), (''rate_limits'', rates),
      (''environment_manifest_generated_at'', value_of (obj_get e ''generated_at'')),
      (''image_digests'', get_default (inventory_of w) ''image_digests'' (JObj []))]"

definition locked_parameters :: "lock_world \<Rightarrow> json \<Rightarrow> json \<Rightarrow> string \<Rightarrow> campaign_parameters" where
  "locked_parameters w e rates commit =
     make_campaign_parameters (nat E3_SCHEDULE_SEED) (Some E3_SYNC_TIMELINE_LIMIT) E3_SYNC_TIMEOUT_MS E3_PAIRED_BLOCKS
       E3_CONCURRENCY_LEVELS commit (string_items (lw_render w) (obj_get e ''config_hashes''))
       (string_items (lw_render w) (Some rates))"

definition campaign_section :: "lock_world \<Rightarrow> lock_args \<Rightarrow> json \<Rightarrow> json" where
  "campaign_section w args parameters =
     (let digest = fingerprint_of w parameters in JObj
       [(''campaign_id'', JStr (if la_campaign_id args = [] then ''fam-formal-'' @ take 16 digest else la_campaign_id args)),
        (''campaign_fingerprint'', JStr digest), (''campaign_parameters'', parameters),
        (''result_root'', env_text_or w ''FAM_RESULTS_DIR'' ''unset''),
        (''experiment_order'', JList (map JStr [''E0'', ''E1'', ''E2'', ''E3'', ''E4'']))])"

definition e4_section :: "lock_world \<Rightarrow> (string, json) dict \<Rightarrow> generate_error + json" where
  "e4_section w llm =
     rbind (env_seconds w ''FAM_E4_TIMEOUT'' ''1800'') (\<lambda>wait.
     rbind (env_seconds w ''FAM_E4_JOIN_TIMEOUT'' ''900'') (\<lambda>join. Inr (JObj
       ([(''llm_provider'', env_text_or w ''FAM_LLM_PROVIDER'' ''unset''),
         (''llm_model'', env_text_or w ''FAM_LLM_MODEL'' ''unset'')] @ llm @
        [(''sessions'', JNum 3), (''human_requests_per_session'', JNum 3),
         (''session_interaction_timeout_seconds'', wait), (''session_join_timeout_seconds'', join),
         (''human_client_name'', env_text_or w ''FAM_E4_CLIENT_NAME'' ''unset''),
         (''human_client_version'', env_text_or w ''FAM_E4_CLIENT_VERSION'' ''unset''),
         (''human_client_host'', env_text_or w ''FAM_E4_CLIENT_HOST'' ''unset''), (''note'', JStr e4_note)]))))"

definition taxonomy_section :: json where
  "taxonomy_section = JObj
     [(''terminal_outcomes'', JList (map (JStr \<circ> outcome_value) terminal_outcomes)),
      (''post_terminal_integrity_observations'', JList [JStr ''duplicate_ack'']),
      (''invalid_run_classes'', JList (map (JStr \<circ> invalid_class_value) invalid_run_classes)),
      (''note'', JStr taxonomy_note)]"

definition commit_of :: "lock_world \<Rightarrow> string" where
  "commit_of w = (let c = lw_git w [''rev-parse'', ''HEAD''] in
     if c = [] then env_or (lw_env w) ''FAM_PROTOCOL_GIT_COMMIT'' [] else c)"

definition lock_document ::
  "lock_world \<Rightarrow> lock_args \<Rightarrow> json \<Rightarrow> json \<Rightarrow> string \<Rightarrow> json \<Rightarrow> json \<Rightarrow> json" where
  "lock_document w args e rates commit e4 replaced = JObj
     [(''artifact'', JStr LOCK_ARTIFACT), (''lock_schema_version'', JStr LOCK_SCHEMA_VERSION),
      (''generated_at'', JStr (lw_now w)), (''purpose'', JStr lock_purpose),
      (''implementation'', implementation_section w args commit),
      (''frozen_parameters'', JObj frozen_parameters), (''environment'', environment_section w e rates),
      (''campaign'', campaign_section w args (parameters_json rates (locked_parameters w e rates commit))),
      (''e3_schedule'', JObj (locked_schedule (lw_shuffle w))), (''e4'', e4),
      (''validity_taxonomy'', taxonomy_section), (''supersedes'', replaced),
      (''accepted_limitations'', accepted_limitations)]"

definition generate :: "lock_world \<Rightarrow> lock_args \<Rightarrow> generate_error + json" where
  "generate w args =
     rbind (environment_of w) (\<lambda>e.
     rbind (rate_limits_of w) (\<lambda>rates.
     rbind (llm_configuration w) (\<lambda>llm.
       if commit_of w = [] then Inl NoCommit else
     rbind (worktree_status w) (\<lambda>dirty.
       if dirty \<noteq> [] then Inl (WorktreeUnclean dirty)
       else if \<not> json_true (obj_get e ''config_hashes'') then Inl NoConfigHashes else
     rbind (e4_section w llm) (\<lambda>e4.
     rbind (supersedes w args) (\<lambda>replaced.
       let lock = lock_document w args e rates (commit_of w) e4 replaced;
           problems = compare_lock lock
       in if problems \<noteq> [] then Inl (DoesNotMatch problems)
          else if lw_schema_problems w lock \<noteq> [] then Inl (SchemaProblems (lw_schema_problems w lock))
          else Inr lock))))))"

section \<open>Validating a lock\<close>

text \<open>\<open>s.split("\n")\<close> and \<open>s.split()\<close>.\<close>

fun split_at :: "(char \<Rightarrow> bool) \<Rightarrow> string \<Rightarrow> string list" where
  "split_at P [] = [[]]"
| "split_at P (c # s) = (if P c then [] # split_at P s
     else (case split_at P s of [] \<Rightarrow> [[c]] | t # ts \<Rightarrow> (c # t) # ts))"

definition split_lines :: "string \<Rightarrow> string list" where
  "split_lines s = split_at (\<lambda>c. c = newline) s"

definition split_words :: "string \<Rightarrow> string list" where
  "split_words s = filter (\<lambda>t. t \<noteq> []) (split_at is_space s)"

datatype validate_failure =
    SchemaFailure string
  | FrozenParameter lock_problem
  | NoHead
  | NeverExamined
  | ChangesMore "string list"
  | NotByTheLock
  | DirtyTree
  | UnexaminedTree
  | TagElsewhere "string list"
  | TagNotApplied
  | SchemaMissing string
  | SchemaDiffers string
  | ConfigHashDiffers string
  | ScheduleLength nat

definition implementation_drift :: "lock_world \<Rightarrow> string \<Rightarrow> string \<Rightarrow> validate_failure list" where
  "implementation_drift w locked_commit head =
     (let found = lw_git w [''diff'', ''--name-only'', locked_commit, head];
          diff = (if found = [] then lw_env w ''FAM_IMPLEMENTATION_DIFF'' else Some found) in
      case diff of
        None \<Rightarrow> [NeverExamined]
      | Some d \<Rightarrow>
          (let changed = sort (filter (\<lambda>p. strip p \<noteq> []) (split_lines d));
               unexpected = filter (\<lambda>p. p \<noteq> LOCK_ARTIFACT_PATH) changed
           in if unexpected \<noteq> [] then [ChangesMore unexpected]
              else if LOCK_ARTIFACT_PATH \<notin> set changed then [NotByTheLock] else []))"

definition commit_failures :: "lock_world \<Rightarrow> json \<Rightarrow> validate_failure list" where
  "commit_failures w d =
     (let locked_commit = truthy_string (sub_get d ''implementation'' ''git_commit'') in
      if commit_of w = [] then [NoHead]
      else case locked_commit of
        None \<Rightarrow> []
      | Some c \<Rightarrow> if commit_of w \<noteq> c then implementation_drift w c (commit_of w) else [])"

definition worktree_failures :: "lock_world \<Rightarrow> validate_failure list" where
  "worktree_failures w = (case worktree_status w of Inl _ \<Rightarrow> [UnexaminedTree] | Inr s \<Rightarrow> if s \<noteq> [] then [DirtyTree] else [])"

definition tag_failures :: "lock_world \<Rightarrow> json \<Rightarrow> bool \<Rightarrow> validate_failure list" where
  "tag_failures w d require_tag = (case truthy_string (sub_get d ''implementation'' ''git_tag'') of
     None \<Rightarrow> []
   | Some tag \<Rightarrow>
       (let found = lw_git w [''tag'', ''--points-at'', ''HEAD''];
            pointed = split_words (if found = [] then env_or (lw_env w) ''FAM_GIT_TAGS_AT_HEAD'' [] else found)
        in if pointed \<noteq> [] \<and> tag \<notin> set pointed then [TagElsewhere pointed]
           else if pointed = [] \<and> require_tag then [TagNotApplied] else []))"

definition schema_failures :: "lock_world \<Rightarrow> json \<Rightarrow> validate_failure list" where
  "schema_failures w d =
     List.map_filter (\<lambda>(name, digest). case map_of (lw_schema_digests w) name of
         None \<Rightarrow> Some (SchemaMissing name)
       | Some live \<Rightarrow> if py_eq (JStr live) digest then None else Some (SchemaDiffers name))
       (obj_items (sub_get d ''implementation'' ''schema_digests''))"

text \<open>An environment manifest that cannot be read counts as none.\<close>

definition hash_failures :: "lock_world \<Rightarrow> json \<Rightarrow> validate_failure list" where
  "hash_failures w d = (case lw_environment w of
     None \<Rightarrow> []
   | Some e \<Rightarrow>
       if \<not> json_true (Some e) then []
       else
         (let locked = obj_items (sub_get d ''environment'' ''config_hashes'');
              live = obj_items (obj_get e ''config_hashes'')
          in map ConfigHashDiffers (filter (\<lambda>k. \<not> py_eq (value_of (map_of locked k)) (value_of (map_of live k)))
               (sort (remdups (map fst locked @ map fst live))))))"

definition schedule_failures :: "json \<Rightarrow> validate_failure list" where
  "schedule_failures d =
     (let total = sum_list (map (\<lambda>(k, v). case v of JList xs \<Rightarrow> length xs | _ \<Rightarrow> 0) (obj_items (obj_get d ''e3_schedule'')))
      in if total \<noteq> 2 * E3_PAIRED_BLOCKS * (1 + length E3_CONCURRENCY_LEVELS) then [ScheduleLength total] else [])"

text \<open>\<open>validate\<close>: the failures it prints; it succeeds when there are none. \<open>None\<close>: no lock.\<close>

definition validate :: "lock_world \<Rightarrow> bool \<Rightarrow> json option \<Rightarrow> lock_error + validate_failure list option" where
  "validate w require_tag lockfile =
     rbind (load_lock lockfile) (\<lambda>doc. case doc of
       None \<Rightarrow> Inr None
     | Some d \<Rightarrow> Inr (Some
         (map SchemaFailure (lw_schema_problems w d) @ map FrozenParameter (compare_lock d) @ commit_failures w d @
          worktree_failures w @ tag_failures w d require_tag @ schema_failures w d @ hash_failures w d @
          schedule_failures d)))"

section \<open>Reading a generated lock back\<close>

lemma frozen_parameters_same: "same_parameters frozen_parameters"
  unfolding same_parameters_def
  by (metis frozen_parameters_self map_of_SomeD option.exhaust option.rel_intros(1) option.rel_intros(2))

lemma lock_document_get:
  fixes w args e rates commit e4 replaced
  defines "d \<equiv> lock_document w args e rates commit e4 replaced"
  shows "obj_get d ''artifact'' = Some (JStr LOCK_ARTIFACT)"
    and "obj_get d ''frozen_parameters'' = Some (JObj frozen_parameters)"
    and "obj_get d ''e3_schedule'' = Some (JObj (locked_schedule (lw_shuffle w)))"
    and "obj_get d ''e4'' = Some e4"
    and "obj_get d ''implementation'' = Some (implementation_section w args commit)"
    and "obj_get d ''environment'' = Some (environment_section w e rates)"
  by (simp_all add: d_def lock_document_def obj_get_def)

lemma sections_get:
  "obj_get (implementation_section w args commit) ''git_commit'' = Some (JStr commit)"
  "obj_get (implementation_section w args commit) ''schema_digests'' = Some (strings (lw_schema_digests w))"
  "obj_get (environment_section w e rates) ''config_hashes'' = Some (get_default e ''config_hashes'' (JObj []))"
  by (simp_all add: implementation_section_def environment_section_def obj_get_def)

lemma lock_document_compares: "compare_lock (lock_document w args e rates commit e4 replaced) = []"
  by (simp add: compare_lock_none lock_document_get obj_items_def frozen_parameters_same)

definition all_strings :: "json option \<Rightarrow> bool" where
  "all_strings v \<longleftrightarrow> list_all (\<lambda>(k, x). case x of JStr _ \<Rightarrow> True | _ \<Rightarrow> False) (obj_items v)"

lemma all_strings_py_eq:
  assumes "all_strings v"
  shows "py_eq (value_of (map_of (obj_items v) k)) (value_of (map_of (obj_items v) k))"
proof (cases "map_of (obj_items v) k")
  case (Some x)
  then have "(k, x) \<in> set (obj_items v)" by (rule map_of_SomeD)
  with assms Some show ?thesis by (auto simp: all_strings_def list_all_iff value_of_def split: json.splits)
qed (simp add: value_of_def)

lemma schema_failures_self:
  assumes "dict_ok (lw_schema_digests w)"
  shows "schema_failures w (lock_document w args e rates commit e4 replaced) = []"
  using assms
  by (auto simp: schema_failures_def map_filter_none sub_get_def lock_document_get sections_get obj_items_def
    strings_def dict_ok_def split: option.splits)

lemma hash_failures_self:
  assumes "lw_environment w = Some e" and "all_strings (obj_get e ''config_hashes'')"
  shows "hash_failures w (lock_document w args e rates commit e4 replaced) = []"
  using assms(1) all_strings_py_eq [OF assms(2)]
  by (auto simp: hash_failures_def Let_def sub_get_def lock_document_get sections_get get_default_def filter_empty_conv
    obj_items_def split: option.split)

lemma length_workload_schedule:
  assumes "\<And>key xs. mset (shuffle key xs) = mset xs"
  shows "length (generate_workload_schedule shuffle wl c seed blocks) = 2 * blocks"
  using orders_facts(1) [of "shuffle (dec seed @ '':'' @ wl @ '':'' @ dec c)" blocks] assms
  by (simp add: workload_schedule_eq)

lemma schedule_failures_self:
  assumes "\<And>key xs. mset (lw_shuffle w key xs) = mset xs"
  shows "schedule_failures (lock_document w args e rates commit e4 replaced) = []"
  by (simp add: schedule_failures_def lock_document_get obj_items_def locked_schedule_def plan_def
    length_workload_schedule [OF assms] comp_def sum_list_const_mult E3_CONCURRENCY_LEVELS_def)

lemma generate_effect:
  assumes "generate w args = Inr d"
  obtains e rates llm e4 replaced where
    "lw_environment w = Some e" and "llm_configuration w = Inr llm" and "e4_section w llm = Inr e4"
    and "commit_of w \<noteq> []" and "worktree_status w = Inr []"
    and "d = lock_document w args e rates (commit_of w) e4 replaced" and "lw_schema_problems w d = []"
  using assms
  by (auto simp: generate_def environment_of_def Let_def rbind_eq_Inr split: option.splits if_splits)

lemma commit_failures_self:
  "commit_of w \<noteq> [] \<Longrightarrow> commit_failures w (lock_document w args e rates (commit_of w) e4 replaced) = []"
  by (simp add: commit_failures_def sub_get_def lock_document_get sections_get truthy_string_def)

lemma e4_section_hash:
  assumes "llm_configuration w = Inr llm" and "e4_section w llm = Inr e4"
  obtains c where "config_from_environment (lw_env w) = Inr c"
    and "obj_get e4 ''agent_config_hash'' = Some (JStr (llm_config_hash (lw_render w) (lw_sha w) c))"
  using assms
  by (auto simp: llm_configuration_def e4_section_def rbind_eq_Inr obj_get_def split: sum.splits)

section \<open>Properties\<close>

text \<open>
  C25: The generator never fails its own comparison, and the lock it writes is one that every
  reader accepts: it loads, validating it in the same repository and environment finds
  nothing but what git says of the tag, a publication run gets past it exactly if no
  watched variable is set, the host is the locked one and the worktree is clean, and
  E4 gets past it with the hash of the configuration the generator read and no other.
\<close>

theorem generated_lock_accepted:
  assumes "dict_ok (lw_schema_digests w)" and "\<And>key xs. mset (lw_shuffle w key xs) = mset xs"
    and "\<And>e. lw_environment w = Some e \<Longrightarrow> all_strings (obj_get e ''config_hashes'')"
    and "\<And>s. lw_sha w s \<noteq> []"
  shows "case generate w args of
      Inl e \<Rightarrow> \<forall>problems. e \<noteq> DoesNotMatch problems
    | Inr d \<Rightarrow> validate w require_tag (Some d) = Inr (Some (tag_failures w d require_tag)) \<and>
        returns (enforce env (Some d) True) =
          (runtime_overrides env = [] \<and> host_problems env d = [] \<and> worktree_problems env = []) \<and>
        (\<exists>c. config_from_environment (lw_env w) = Inr c \<and>
           (\<forall>hash. returns (enforce_llm_configuration (Some d) hash True) =
              (hash = llm_config_hash (lw_render w) (lw_sha w) c)))"
proof (cases "generate w args")
  case (Inl e)
  then have "e \<noteq> DoesNotMatch problems" for problems
    by (auto simp: generate_def Let_def lock_document_compares environment_of_def rate_limits_of_def llm_configuration_def
      worktree_status_def e4_section_def env_seconds_def supersedes_def rbind_eq_Inl split: option.splits sum.splits if_splits)
  with Inl show ?thesis by simp
next
  case (Inr d)
  then obtain e rates llm e4 replaced where
    g: "lw_environment w = Some e" "llm_configuration w = Inr llm" "e4_section w llm = Inr e4"
      "commit_of w \<noteq> []" "worktree_status w = Inr []"
    and d: "d = lock_document w args e rates (commit_of w) e4 replaced" and s: "lw_schema_problems w d = []"
    by (rule generate_effect)
  from g(2,3) obtain c where c: "config_from_environment (lw_env w) = Inr c"
    "obj_get e4 ''agent_config_hash'' = Some (JStr (llm_config_hash (lw_render w) (lw_sha w) c))"
    by (rule e4_section_hash)
  have load: "load_lock (Some d) = Inr (Some d)" by (simp add: load_lock_def d lock_document_get)
  have "validate w require_tag (Some d) = Inr (Some (tag_failures w d require_tag))"
    using g s assms
    by (simp add: validate_def load) (simp add: d lock_document_compares commit_failures_self worktree_failures_def
      schema_failures_self hash_failures_self schedule_failures_self)
  moreover have "returns (enforce env (Some d) True) =
      (runtime_overrides env = [] \<and> host_problems env d = [] \<and> worktree_problems env = [])"
    by (simp add: enforce_def load Let_def) (simp add: d lock_document_compares)
  moreover have "llm_config_hash (lw_render w) (lw_sha w) c \<noteq> []"
    using assms(4) by (simp add: llm_config_hash_def)
  then have "returns (enforce_llm_configuration (Some d) hash True) = (hash = llm_config_hash (lw_render w) (lw_sha w) c)" for hash
    by (auto simp: enforce_llm_configuration_def d sub_get_def lock_document_get c(2) truthy_string_def)
  ultimately show ?thesis using Inr c(1) by simp
qed

definition sample_world :: lock_world where
  "sample_world = \<lparr>lw_git = (\<lambda>args. if args = [''rev-parse'', ''HEAD''] then ''c0ffee'' else []),
     lw_env = (\<lambda>k. if k = ''FAM_LLM_MODEL'' then Some ''m'' else None),
     lw_environment = Some (JObj [(''config_hashes'', JObj [(''synapse_a'', JStr ''h1'')])]),
     lw_report = Some (JObj [(''rate_limits'', JObj [(''rc_message'', JStr ''off'')])]),
     lw_inventory = None, lw_git_here = True, lw_schema_digests = [(''raw_record'', ''d1'')],
     lw_schema_problems = (\<lambda>_. []), lw_float = (\<lambda>_. Some 1800), lw_node = ''host'', lw_now = ''now'',
     lw_render = (\<lambda>_. ''{}''), lw_sha = (\<lambda>_. ''5a''), lw_shuffle = (\<lambda>_ xs. rev xs)\<rparr>"

definition sample_args :: lock_args where
  "sample_args = \<lparr>la_tag = ''t'', la_campaign_id = [], la_supersedes_tag = [], la_supersedes_reason = [],
     la_supersedes_commit = []\<rparr>"

lemma sample_configuration:
  "case config_from_environment (\<lambda>k. if k = ''FAM_LLM_MODEL'' then Some ''m'' else None) of Inr _ \<Rightarrow> True | Inl _ \<Rightarrow> False"
  by code_simp

lemma tag_of_document:
  "sub_get (lock_document w args e rates commit e4 replaced) ''implementation'' ''git_tag'' = Some (JStr (la_tag args))"
  by (simp add: sub_get_def lock_document_get) (simp add: implementation_section_def obj_get_def)

lemma sample_generates: "case generate sample_world sample_args of Inr d \<Rightarrow> tag_failures sample_world d True = [TagNotApplied] | Inl _ \<Rightarrow> False"
proof -
  have commit: "commit_of sample_world = ''c0ffee''" by (simp add: commit_of_def sample_world_def)
  obtain llm where llm: "llm_configuration sample_world = Inr llm"
    using sample_configuration by (auto simp: llm_configuration_def sample_world_def split: sum.splits)
  obtain e4 where e4: "e4_section sample_world llm = Inr e4"
    by (simp add: e4_section_def env_seconds_def sample_world_def)
  have "env_or (lw_env sample_world) ''FAM_GIT_TAGS_AT_HEAD'' [] = []" "lw_git sample_world [''tag'', ''--points-at'', ''HEAD''] = []"
    "split_words [] = []" "la_tag sample_args = ''t''"
    by (simp_all add: sample_world_def env_or_def split_words_def sample_args_def)
  then have tag: "tag_failures sample_world (lock_document sample_world sample_args e rates commit e4 replaced) True = [TagNotApplied]" for e rates commit e4 replaced
    by (simp add: tag_failures_def tag_of_document truthy_string_def)
  have facts: "lw_git_here sample_world" "lw_git sample_world [''status'', ''--porcelain''] = []"
    "la_supersedes_tag sample_args = []" "lw_schema_problems sample_world d = []"
    "\<exists>e. environment_of sample_world = Inr e \<and> json_true (obj_get e ''config_hashes'')"
    "\<exists>rates. rate_limits_of sample_world = Inr rates" for d
    by (simp_all add: sample_world_def sample_args_def environment_of_def rate_limits_of_def obj_get_def)
  then obtain e rates where "environment_of sample_world = Inr e" "json_true (obj_get e ''config_hashes'')"
    "rate_limits_of sample_world = Inr rates" by blast
  with facts show ?thesis
    by (simp add: generate_def commit llm e4 worktree_status_def supersedes_def Let_def lock_document_compares tag)
qed

theorem generated_lock_accepted_witness:
  "\<exists>d. generate sample_world sample_args = Inr d \<and> validate sample_world True (Some d) = Inr (Some [TagNotApplied])"
proof -
  obtain d where d: "generate sample_world sample_args = Inr d" "tag_failures sample_world d True = [TagNotApplied]"
    using sample_generates by (auto split: sum.splits)
  have "mset (lw_shuffle sample_world k xs) = mset xs" "lw_sha sample_world s \<noteq> []"
    "dict_ok (lw_schema_digests sample_world)"
    "lw_environment sample_world = Some e \<Longrightarrow> all_strings (obj_get e ''config_hashes'')" for k xs s e
    by (auto simp: sample_world_def dict_ok_def all_strings_def obj_items_def obj_get_def)
  then have "validate sample_world True (Some d) = Inr (Some (tag_failures sample_world d True))"
    using generated_lock_accepted [where w = sample_world and args = sample_args and require_tag = True] d(1) by simp
  with d show ?thesis by simp
qed

end
