(* ===== verification/Runner.thy ===== *)
theory Runner
  imports Manifest Schedule Engine Integrity
begin

text \<open>
  \<^verbatim>\<open>src/fam/benchmark/topology.py\<close> and \<^verbatim>\<open>src/fam/benchmark/runner.py\<close>: one benchmark run
  from its place in the schedule to its manifest. What the run meets (its room, its agent,
  the workload it executes) is a record of results, each a value or a failure.
\<close>

section \<open>Topologies\<close>

definition BENCHMARK_SENDER :: string where "BENCHMARK_SENDER = ''@benchmark-human:hs-a.test''"

definition BENCHMARK_AGENT_LOCAL :: string where
  "BENCHMARK_AGENT_LOCAL = ''@benchmark-agent-local:hs-a.test''"

definition BENCHMARK_AGENT_FEDERATED :: string where
  "BENCHMARK_AGENT_FEDERATED = ''@benchmark-agent-fed:hs-b.test''"

record benchmark_topology =
  bt_name :: string
  bt_sender :: string
  bt_agent :: string
  bt_crosses_federation :: bool

definition bt_receiver_role :: "benchmark_topology \<Rightarrow> string" where
  "bt_receiver_role t = (if bt_crosses_federation t then ''federated_agent'' else ''local_agent'')"

definition bt_participants :: "benchmark_topology \<Rightarrow> (string, string) dict" where
  "bt_participants t = [(''benchmark_sender'', bt_sender t), (''benchmark_agent'', bt_agent t)]"

definition LOCAL :: benchmark_topology where
  "LOCAL = \<lparr>bt_name = E3_TOPOLOGY_LOCAL, bt_sender = BENCHMARK_SENDER, bt_agent = BENCHMARK_AGENT_LOCAL,
     bt_crosses_federation = False\<rparr>"

definition FEDERATED :: benchmark_topology where
  "FEDERATED = \<lparr>bt_name = E3_TOPOLOGY_FEDERATED, bt_sender = BENCHMARK_SENDER,
     bt_agent = BENCHMARK_AGENT_FEDERATED, bt_crosses_federation = True\<rparr>"

definition TOPOLOGIES :: "(string, benchmark_topology) dict" where
  "TOPOLOGIES = [(bt_name LOCAL, LOCAL), (bt_name FEDERATED, FEDERATED)]"

definition topology :: "string \<Rightarrow> exn + benchmark_topology" where
  "topology name = (case map_of TOPOLOGIES name of None \<Rightarrow> Inl ValueError | Some t \<Rightarrow> Inr t)"

section \<open>What the agent's telemetry says of its transport\<close>

text \<open>The number of a telemetry value; the agent writes numbers where numbers are summed.\<close>

fun json_number :: "json option \<Rightarrow> rat" where
  "json_number (Some (JNum n)) = n"
| "json_number (Some (JBool b)) = of_flag b"
| "json_number _ = 0"

definition has_action :: "string \<Rightarrow> json \<Rightarrow> bool" where
  "has_action a r \<longleftrightarrow> obj_get r ''action'' = Some (JStr a)"

definition json_or :: "json option \<Rightarrow> json \<Rightarrow> json" where
  "json_or v d = (case v of None \<Rightarrow> d | Some x \<Rightarrow> x)"

definition agent_transport_summary :: "json list \<Rightarrow> (string, json) dict" where
  "agent_transport_summary telemetry =
     (let summaries = filter (has_action ''live_sync_summary'') telemetry;
          final = (if summaries = [] then JObj [] else last summaries);
          responded = filter (has_action ''responded'') telemetry;
          episodes = filter (has_action ''live_recovery_complete'') telemetry;
          productive = filter (\<lambda>e. json_true (obj_get e ''recovered_from_history'')) episodes;
          before_workload = length (filter (has_action ''live_recovery_complete'')
            (takeWhile (\<lambda>r. \<not> has_action ''responded'' r) telemetry));
          sequences = List.map_filter (\<lambda>r. case obj_get r ''sequence_id'' of Some (JNum n) \<Rightarrow> Some n | _ \<Rightarrow> None) responded
      in [(''acks_emitted'', JNum (of_nat (length responded))),
          (''distinct_sequences_answered'', JNum (of_nat (length (remdups sequences)))),
          (''live_recovery_episodes'', json_or (obj_get final ''live_recovery_episodes'') (JNum (of_nat (length episodes)))),
          (''live_recovery_pages'', json_or (obj_get final ''live_history_pages_fetched'') (JNum 0)),
          (''live_recovery_failures'', json_or (obj_get final ''live_recovery_failures'') (JNum 0)),
          (''limited_syncs'', json_or (obj_get final ''live_limited_syncs'') (JNum 0)),
          (''checkpoint_commits'', json_or (obj_get final ''checkpoint_commits'') (JNum 0)),
          (''setup_recovery_episodes'', JNum (of_nat before_workload)),
          (''productive_recovery_episodes'', JNum (of_nat (length productive))),
          (''events_recovered_from_history'',
             JNum (sum_list (map (\<lambda>e. json_number (obj_get e ''recovered_from_history'')) productive)))])"

section \<open>The run\<close>

datatype run_failure = InvalidRun invalid_run_class string | OtherFailure string

text \<open>\<open>assert_frozen_room_configuration\<close> of \<^verbatim>\<open>matrix/rooms.py\<close>, on what the room's state says.\<close>

definition assert_frozen_room_configuration :: "string \<Rightarrow> bool \<Rightarrow> run_failure + string \<times> bool" where
  "assert_frozen_room_configuration version encrypted =
     (if version \<noteq> ROOM_VERSION then Inl (InvalidRun FROZEN_CONFIGURATION_ERROR ''room version'')
      else if encrypted then Inl (InvalidRun FROZEN_CONFIGURATION_ERROR ''encryption enabled'')
      else Inr (version, encrypted))"

record benchmark_run =
  br_scheduled :: scheduled_run
  br_run_id :: string
  br_started_at :: string
  br_room_id :: string
  br_room_version :: string
  br_encryption_enabled :: bool
  br_membership :: "string list"
  br_workload_result :: "workload_result option"
  br_sender_transport :: "(string, json) dict"
  br_setup_transport :: "(string, json) dict"
  br_agent_transport :: "(string, json) dict"
  br_host_diagnostics :: "(string, json) dict"
  br_validity :: run_validity
  br_completion_status :: string
  br_problems :: "string list"

definition new_benchmark_run :: "scheduled_run \<Rightarrow> string \<Rightarrow> string \<Rightarrow> benchmark_run" where
  "new_benchmark_run sched rid started = \<lparr>br_scheduled = sched, br_run_id = rid, br_started_at = started,
     br_room_id = [], br_room_version = [], br_encryption_enabled = True, br_membership = [],
     br_workload_result = None, br_sender_transport = [], br_setup_transport = [], br_agent_transport = [],
     br_host_diagnostics = [], br_validity = VALID, br_completion_status = ''incomplete'', br_problems = []\<rparr>"

text \<open>What the run meets, in the order it meets it.\<close>

record run_world =
  rw_start :: "run_failure + unit"
  rw_create_room :: "run_failure + string"
  rw_room_state :: "run_failure + string \<times> bool"
  rw_agent_start :: "run_failure + unit"
  rw_joined_members :: "run_failure + string list"
  rw_joined_rooms :: "run_failure + string list"
  rw_setup_transport :: "(string, json) dict"
  rw_workload :: "run_config \<Rightarrow> run_failure + workload_result"
  rw_sender_transport :: "(string, json) dict"

record run_options =
  ro_body_bytes :: int
  ro_warmup_interactions :: nat
  ro_measured_interactions :: nat
  ro_warmup_seconds :: rat
  ro_measurement_seconds :: rat
  ro_drain_seconds :: rat

definition default_options :: run_options where
  "default_options = \<lparr>ro_body_bytes = E3_BODY_BYTES, ro_warmup_interactions = E3_LATENCY_WARMUP_INTERACTIONS,
     ro_measured_interactions = E3_LATENCY_MEASURED_INTERACTIONS, ro_warmup_seconds = E3_WARMUP_SECONDS,
     ro_measurement_seconds = E3_MEASUREMENT_SECONDS, ro_drain_seconds = E3_DRAIN_SECONDS\<rparr>"

definition config_of :: "scheduled_run \<Rightarrow> string \<Rightarrow> benchmark_topology \<Rightarrow> run_options \<Rightarrow> run_config" where
  "config_of sched rid topo opts =
     \<lparr>rc_run_id = rid, rc_workload = sr_workload sched, rc_block_id = sr_block_id sched,
      rc_within_block_order = sr_within_block_order sched, rc_topology_name = bt_name topo,
      rc_receiver_role = bt_receiver_role topo, rc_sender = bt_sender topo, rc_room_id = [],
      rc_concurrency = sr_concurrency sched, rc_body_bytes = ro_body_bytes opts,
      rc_timeout_seconds = DEFAULT_INTERACTION_TIMEOUT_SECONDS,
      rc_warmup_interactions = ro_warmup_interactions opts,
      rc_measured_interactions = ro_measured_interactions opts, rc_warmup_seconds = ro_warmup_seconds opts,
      rc_measurement_seconds = ro_measurement_seconds opts, rc_drain_seconds = ro_drain_seconds opts\<rparr>"

text \<open>The body of the \<open>try\<close>: each step writes what it learns, a failure leaves what was written.\<close>

type_synonym run_state = "benchmark_run \<times> run_config"

definition step :: "run_failure + 'a \<Rightarrow> ('a \<Rightarrow> run_state \<Rightarrow> run_state \<times> run_failure option) \<Rightarrow>
   run_state \<Rightarrow> run_state \<times> run_failure option" where
  "step r f st = (case r of Inl x \<Rightarrow> (st, Some x) | Inr v \<Rightarrow> f v st)"

definition in_room :: "string \<Rightarrow> run_state \<Rightarrow> run_state" where
  "in_room room = (\<lambda>(run, cfg). (run\<lparr>br_room_id := room\<rparr>, cfg\<lparr>rc_room_id := room\<rparr>))"

definition measure :: "run_world \<Rightarrow> run_state \<Rightarrow> run_state \<times> run_failure option" where
  "measure w st =
     (let (run, cfg) = st; run1 = run\<lparr>br_setup_transport := rw_setup_transport w\<rparr> in
      step (rw_workload w cfg) (\<lambda>res (run, cfg).
        ((run\<lparr>br_workload_result := Some res, br_completion_status := ''complete''\<rparr>, cfg), None)) (run1, cfg))"

definition check_membership ::
  "run_world \<Rightarrow> benchmark_topology \<Rightarrow> run_state \<Rightarrow> run_state \<times> run_failure option" where
  "check_membership w topo = step (rw_joined_members w) (\<lambda>members (run, cfg).
     step (rw_joined_rooms w) (\<lambda>rooms (run, cfg).
       let run' = run\<lparr>br_host_diagnostics := AList.update ''sender_joined_rooms'' (JNum (of_nat (length rooms)))
             (br_host_diagnostics run)\<rparr> in
       if set (br_membership run') \<noteq> {bt_sender topo, bt_agent topo}
       then ((run', cfg), Some (InvalidRun FROZEN_CONFIGURATION_ERROR ''membership''))
       else measure w (run', cfg)) (run\<lparr>br_membership := members\<rparr>, cfg))"

definition conduct :: "run_world \<Rightarrow> benchmark_topology \<Rightarrow> run_state \<Rightarrow> run_state \<times> run_failure option" where
  "conduct w topo = step (rw_start w) (\<lambda>_. step (rw_create_room w) (\<lambda>room st.
     step (rbind (rw_room_state w) (\<lambda>(v, e). assert_frozen_room_configuration v e)) (\<lambda>(v, e) (run, cfg).
       step (rw_agent_start w) (\<lambda>_. check_membership w topo)
         (run\<lparr>br_room_version := v, br_encryption_enabled := e\<rparr>, cfg)) (in_room room st)))"

fun failed_run :: "run_failure \<Rightarrow> benchmark_run \<Rightarrow> benchmark_run" where
  "failed_run (InvalidRun cls n) run = run\<lparr>br_validity := invalid_run cls n,
     br_completion_status := ''invalid'', br_problems := br_problems run @ [invalid_class_value cls @ '': '' @ n]\<rparr>"
| "failed_run (OtherFailure n) run = run\<lparr>br_validity := invalid_run RUNNER_IMPLEMENTATION_FAILURE n,
     br_completion_status := ''invalid'', br_problems := br_problems run @ [n]\<rparr>"

definition execute_benchmark_run ::
  "run_world \<Rightarrow> (string, json) dict \<Rightarrow> string \<Rightarrow> run_options \<Rightarrow> scheduled_run \<Rightarrow> string \<Rightarrow> exn + run_state" where
  "execute_benchmark_run w host started opts sched rid =
     rbind (topology (sr_topology sched)) (\<lambda>topo.
       let run = (new_benchmark_run sched rid started)\<lparr>br_host_diagnostics := host\<rparr>;
           ((run', cfg), x) = conduct w topo (run, config_of sched rid topo opts);
           run'' = (case x of None \<Rightarrow> run' | Some f \<Rightarrow> failed_run f run')
       in Inr (run''\<lparr>br_sender_transport := rw_sender_transport w\<rparr>, cfg))"

section \<open>Evidence\<close>

record campaign_context =
  cc_campaign_id :: string
  cc_campaign_fingerprint :: string
  cc_schedule_seed :: nat
  cc_rate_limit_reference :: json
  cc_environment_manifest :: "string option"
  cc_timeline_limit :: "int option"
  cc_timeout_ms :: int
  cc_publication_data :: bool
  cc_protocol_git_commit :: string
  cc_results_root :: path
  cc_raw_subdir :: "string option"

definition scope_note :: "bool \<Rightarrow> string" where
  "scope_note publication = (if publication
     then ''Formal E3 run executed under the protocol lock. These numbers are publication evidence.''
     else ''Development E3 run. publication_data is false; these numbers '' @
       ''are implementation validation and are not publication evidence.'')"

definition extra_common :: "campaign_context \<Rightarrow> run_config \<Rightarrow> benchmark_run \<Rightarrow> (string, json) dict" where
  "extra_common ctx cfg run = (let sched = br_scheduled run in
     [(''workload_type'', JStr (sr_workload sched)),
      (''paired_block_id'', JStr (sr_block_id sched)),
      (''block_id'', JStr (sr_block_id sched)),
      (''block_index'', JNum (of_nat (sr_block_index sched))),
      (''within_block_order'', JNum (of_nat (sr_within_block_order sched))),
      (''schedule_seed'', JNum (of_nat (cc_schedule_seed ctx))),
      (''campaign_id'', JStr (cc_campaign_id ctx)),
      (''campaign_fingerprint'', JStr (cc_campaign_fingerprint ctx)),
      (''concurrency'', JNum (of_nat (sr_concurrency sched))),
      (''max_in_flight'', JNum (of_nat (sr_concurrency sched))),
      (''message_body_bytes'', JNum (of_int (rc_body_bytes cfg))),
      (''interaction_timeout_seconds'', JNum (rc_timeout_seconds cfg)),
      (''sync_configuration'', JObj [(''timeline_limit'', opt_num (cc_timeline_limit ctx)),
         (''sync_timeout_ms'', JNum (of_int (cc_timeout_ms ctx))), (''long_poll'', JBool True),
         (''artificial_delay_between_syncs_seconds'', JNum 0)]),
      (''rate_limit_configuration_reference'', cc_rate_limit_reference ctx),
      (''room_membership'', JList (map JStr (sort (br_membership run)))),
      (''room_encryption_enabled'', JBool (br_encryption_enabled run)),
      (''host_diagnostics'', JObj (br_host_diagnostics run)),
      (''sender_transport_diagnostics'', JObj (br_sender_transport run)),
      (''setup_transport_diagnostics'', JObj (br_setup_transport run)),
      (''agent_transport_diagnostics'', JObj (br_agent_transport run)),
      (''problems'', JList (map JStr (br_problems run))),
      (''scope_note'', JStr (scope_note (cc_publication_data ctx)))])"

definition of_workload :: "(workload_result \<Rightarrow> 'a) \<Rightarrow> 'a \<Rightarrow> benchmark_run \<Rightarrow> 'a" where
  "of_workload f d run = (case br_workload_result run of None \<Rightarrow> d | Some res \<Rightarrow> f res)"

definition extra_workload :: "run_config \<Rightarrow> benchmark_run \<Rightarrow> (string, json) dict" where
  "extra_workload cfg run =
     (if sr_workload (br_scheduled run) = E3_WORKLOAD_LATENCY then
        [(''warmup_interactions'', JNum (of_nat (rc_warmup_interactions cfg))),
         (''measured_interactions'', JNum (of_nat (rc_measured_interactions cfg))),
         (''window_start_ns'', JNull), (''window_end_ns'', JNull), (''drain_end_ns'', JNull),
         (''drain_seconds'', JNull)]
      else
        [(''warmup_seconds'', JNum (rc_warmup_seconds cfg)),
         (''measurement_seconds'', JNum (rc_measurement_seconds cfg)),
         (''drain_seconds'', JNum (rc_drain_seconds cfg)),
         (''window_start_ns'', opt_num (of_workload wr_window_start None run)),
         (''window_end_ns'', opt_num (of_workload wr_window_end None run)),
         (''drain_end_ns'', opt_num (of_workload wr_drain_end None run)),
         (''outstanding_at_window_start'', JNum (of_nat (of_workload wr_outstanding_at_window_start 0 run))),
         (''outstanding_at_window_end'', JNum (of_nat (of_workload wr_outstanding_at_window_end 0 run)))])"

definition extra_tallies :: "benchmark_run \<Rightarrow> (string, json) dict" where
  "extra_tallies run = (case br_workload_result run of
     None \<Rightarrow> []
   | Some res \<Rightarrow>
       [(''interactions_initiated'', JNum (of_nat (wr_initiated res))),
        (''duplicate_ack_observations'', JNum (of_nat (wr_duplicate_ack_observations res))),
        (''requests_with_duplicate_acks'', JNum (of_nat (wr_requests_with_duplicate_acks res))),
        (''send_errors'', JNum (of_nat (wr_send_errors res))),
        (''rate_limited_sends'', JNum (of_nat (wr_rate_limited_sends res))),
        (''send_errcodes'', JList (map JStr (sort (remdups (wr_rate_limit_errcodes res)))))])"

definition manifest_extra :: "campaign_context \<Rightarrow> run_config \<Rightarrow> benchmark_run \<Rightarrow> (string, json) dict" where
  "manifest_extra ctx cfg run = extra_common ctx cfg run @ extra_workload cfg run @ extra_tallies run"

definition stream_path :: "campaign_context \<Rightarrow> benchmark_run \<Rightarrow> string \<Rightarrow> path" where
  "stream_path ctx run suffix =
     (let subdir = (case cc_raw_subdir ctx of None \<Rightarrow> sr_workload (br_scheduled run) | Some d \<Rightarrow> d)
      in cc_results_root ctx @ [''raw'', ''e3'', subdir, br_run_id run @ suffix])"

text \<open>
  \<open>_write_evidence\<close>: the records go to the runner stream, the agent's telemetry is
  summarised, and the manifest names the streams that exist.
\<close>

definition evidence_streams :: "benchmark_run \<Rightarrow> benchmark_record list" where
  "evidence_streams run = of_workload wr_records [] run"

definition stream_artifacts :: "file_system \<Rightarrow> campaign_context \<Rightarrow> benchmark_run \<Rightarrow> raw_artifact list" where
  "stream_artifacts fs ctx run = filter (\<lambda>a. fs (ra_path a) \<noteq> None)
     [\<lparr>ra_role = ''runner_interaction_stream'', ra_path = stream_path ctx run ''.runner.jsonl''\<rparr>,
      \<lparr>ra_role = ''agent_telemetry_stream'', ra_path = stream_path ctx run ''.agent.jsonl''\<rparr>]"

definition evidence_manifest ::
  "file_system \<Rightarrow> json list \<Rightarrow> campaign_context \<Rightarrow> benchmark_topology \<Rightarrow> string \<Rightarrow> run_config \<Rightarrow> benchmark_run \<Rightarrow>
   run_manifest" where
  "evidence_manifest fs telemetry ctx topo now cfg run0 =
     (let run = run0\<lparr>br_agent_transport := agent_transport_summary telemetry\<rparr> in
      \<lparr>en_experiment = EXPERIMENT, en_run_id = br_run_id run, en_room_id = br_room_id run,
       en_participants = bt_participants topo, en_publication_data = cc_publication_data ctx,
       en_protocol_git_commit = cc_protocol_git_commit ctx, en_started_at = br_started_at run,
       en_environment_manifest = cc_environment_manifest ctx, en_completed_at = Some now,
       en_completion_status = br_completion_status run, en_validity = Some (br_validity run),
       en_extra = manifest_extra ctx cfg run, en_results_root = cc_results_root ctx,
       rm_topology = bt_name topo, rm_artifacts = stream_artifacts fs ctx run\<rparr>)"

definition artifact_digests :: "file_system \<Rightarrow> campaign_context \<Rightarrow> benchmark_run \<Rightarrow> (string, string) dict" where
  "artifact_digests fs ctx run = List.map_filter (\<lambda>a. map_option (\<lambda>(digest, _). (ra_role a, digest)) (fs (ra_path a)))
     (stream_artifacts fs ctx run)"

definition room_version_ok :: "benchmark_run \<Rightarrow> bool" where
  "room_version_ok run \<longleftrightarrow> br_room_version run = ROOM_VERSION \<and> \<not> br_encryption_enabled run"

section \<open>Lemmas\<close>

lemma topology_Inr:
  "topology name = Inr t \<longleftrightarrow> name = E3_TOPOLOGY_LOCAL \<and> t = LOCAL \<or> name = E3_TOPOLOGY_FEDERATED \<and> t = FEDERATED"
  by (auto simp: topology_def TOPOLOGIES_def LOCAL_def FEDERATED_def topology_names split: option.splits if_splits)

lemma step_None: "step r f st = (st', None) \<longleftrightarrow> (\<exists>v. r = Inr v \<and> f v st = (st', None))"
  by (simp add: step_def split: sum.split)

lemma step_stable:
  assumes "Q st" and "\<And>v. r = Inr v \<Longrightarrow> Q (fst (f v st))"
  shows "Q (fst (step r f st))"
  using assms by (simp add: step_def split: sum.split)

text \<open>What a run that got through its \<open>try\<close> has seen.\<close>

lemma measure_None:
  "measure w (run, cfg) = ((run', cfg'), None) \<longleftrightarrow> (\<exists>res. rw_workload w cfg = Inr res \<and> cfg' = cfg \<and>
     run' = run\<lparr>br_setup_transport := rw_setup_transport w, br_workload_result := Some res,
       br_completion_status := ''complete''\<rparr>)"
  by (auto simp: measure_def step_def Let_def split: sum.splits)

lemma check_membership_None:
  "check_membership w topo (run, cfg) = ((run', cfg'), None) \<longleftrightarrow> (\<exists>members rooms. rw_joined_members w = Inr members \<and>
     rw_joined_rooms w = Inr rooms \<and> set members = {bt_sender topo, bt_agent topo} \<and>
     measure w (run\<lparr>br_membership := members, br_host_diagnostics :=
       AList.update ''sender_joined_rooms'' (JNum (of_nat (length rooms))) (br_host_diagnostics run)\<rparr>, cfg) =
       ((run', cfg'), None))"
  by (auto simp: check_membership_def step_None Let_def split: if_splits)

lemma assert_frozen_Inr:
  "assert_frozen_room_configuration v e = Inr r \<longleftrightarrow> v = ROOM_VERSION \<and> \<not> e \<and> r = (ROOM_VERSION, False)"
  by (auto simp: assert_frozen_room_configuration_def)

lemma conduct_None:
  "conduct w topo (run, cfg) = ((run', cfg'), None) \<longleftrightarrow> rw_start w = Inr () \<and> rw_agent_start w = Inr () \<and>
    (\<exists>room. rw_create_room w = Inr room \<and> rw_room_state w = Inr (ROOM_VERSION, False) \<and>
       check_membership w topo (run\<lparr>br_room_id := room, br_room_version := ROOM_VERSION,
         br_encryption_enabled := False\<rparr>, cfg\<lparr>rc_room_id := room\<rparr>) = ((run', cfg'), None))"
  by (auto simp: conduct_def step_None in_room_def rbind_eq_Inr assert_frozen_Inr simp del: unit_eq)

lemma conduct_facts:
  assumes "conduct w topo (run, cfg) = ((run', cfg'), None)"
  shows "br_room_version run' = ROOM_VERSION \<and> \<not> br_encryption_enabled run' \<and>
    set (br_membership run') = {bt_sender topo, bt_agent topo} \<and> rw_create_room w = Inr (br_room_id run') \<and>
    (\<exists>res. br_workload_result run' = Some res \<and> rw_workload w cfg' = Inr res) \<and>
    br_completion_status run' = ''complete'' \<and> br_validity run' = br_validity run \<and>
    br_scheduled run' = br_scheduled run \<and> br_run_id run' = br_run_id run \<and> br_started_at run' = br_started_at run \<and>
    cfg' = cfg\<lparr>rc_room_id := br_room_id run'\<rparr> \<and> br_problems run' = br_problems run"
  using assms unfolding conduct_None check_membership_None measure_None by (elim conjE exE) simp

text \<open>The document a run writes, key by key.\<close>

lemma map_of_dict_update_last: "map_of (dict_update d e) k = (case map_of (rev e) k of Some v \<Rightarrow> Some v | None \<Rightarrow> map_of d k)"
proof (induction e arbitrary: d)
  case (Cons p e)
  then show ?case
    by (cases p) (auto simp: dict_update_def map_of_append map_add_def split: option.splits)
qed (simp add: dict_update_def)

text \<open>The keys of the extra fields are all different, and none is that of a field every manifest has.\<close>

definition common_keys :: "string list" where
  "common_keys = [''workload_type'', ''paired_block_id'', ''block_id'', ''block_index'', ''within_block_order'',
     ''schedule_seed'', ''campaign_id'', ''campaign_fingerprint'', ''concurrency'', ''max_in_flight'',
     ''message_body_bytes'', ''interaction_timeout_seconds'', ''sync_configuration'', ''rate_limit_configuration_reference'',
     ''room_membership'', ''room_encryption_enabled'', ''host_diagnostics'', ''sender_transport_diagnostics'',
     ''setup_transport_diagnostics'', ''agent_transport_diagnostics'', ''problems'', ''scope_note'']"

definition latency_keys :: "string list" where
  "latency_keys = [''warmup_interactions'', ''measured_interactions'', ''window_start_ns'', ''window_end_ns'', ''drain_end_ns'',
     ''drain_seconds'']"

definition throughput_keys :: "string list" where
  "throughput_keys = [''warmup_seconds'', ''measurement_seconds'', ''drain_seconds'', ''window_start_ns'', ''window_end_ns'',
     ''drain_end_ns'', ''outstanding_at_window_start'', ''outstanding_at_window_end'']"

definition tally_keys :: "string list" where
  "tally_keys = [''interactions_initiated'', ''duplicate_ack_observations'', ''requests_with_duplicate_acks'', ''send_errors'',
     ''rate_limited_sends'', ''send_errcodes'']"

lemma extra_keys:
  "map fst (manifest_extra ctx cfg run) = common_keys @
    (if sr_workload (br_scheduled run) = E3_WORKLOAD_LATENCY then latency_keys else throughput_keys) @
    (case br_workload_result run of None \<Rightarrow> [] | Some _ \<Rightarrow> tally_keys)"
  by (simp add: manifest_extra_def extra_common_def extra_workload_def extra_tallies_def Let_def common_keys_def
    latency_keys_def throughput_keys_def tally_keys_def split: option.split)

lemma extra_keys_distinct: "distinct (map fst (manifest_extra ctx cfg run))"
proof -
  have "distinct (common_keys @ latency_keys @ tally_keys)" "distinct (common_keys @ throughput_keys @ tally_keys)"
    by code_simp+
  then show ?thesis by (auto simp: extra_keys split: option.split)
qed

lemma map_of_rev_distinct: "distinct (map fst xs) \<Longrightarrow> map_of (rev xs) = map_of xs"
  by (rule map_of_inject_set [THEN iffD2]) (simp_all add: rev_map [symmetric])

lemma extra_get: "map_of (rev (manifest_extra ctx cfg run)) k =
   (case map_of (extra_common ctx cfg run) k of Some v \<Rightarrow> Some v
    | None \<Rightarrow> (case map_of (extra_workload cfg run) k of Some v \<Rightarrow> Some v | None \<Rightarrow> map_of (extra_tallies run) k))"
  unfolding map_of_rev_distinct [OF extra_keys_distinct] unfolding manifest_extra_def
  by (simp add: map_of_append map_add_def split: option.split)

lemma extra_absent:
  assumes "k \<notin> set (common_keys @ latency_keys @ throughput_keys @ tally_keys)"
  shows "map_of (rev (manifest_extra ctx cfg run)) k = None"
proof -
  have "k \<notin> set (map fst (manifest_extra ctx cfg run))" unfolding extra_keys using assms by (simp split: option.split)
  then show ?thesis by (simp add: map_of_eq_None_iff)
qed

lemma extra_some:
  "map_of (rev (manifest_extra ctx cfg run)) ''workload_type'' = Some (JStr (sr_workload (br_scheduled run)))"
  "map_of (rev (manifest_extra ctx cfg run)) ''paired_block_id'' = Some (JStr (sr_block_id (br_scheduled run)))"
  "map_of (rev (manifest_extra ctx cfg run)) ''concurrency'' = Some (JNum (of_nat (sr_concurrency (br_scheduled run))))"
  "map_of (rev (manifest_extra ctx cfg run)) ''message_body_bytes'' = Some (JNum (of_int (rc_body_bytes cfg)))"
  "map_of (rev (manifest_extra ctx cfg run)) ''campaign_id'' = Some (JStr (cc_campaign_id ctx))"
  by (simp_all add: extra_get extra_common_def Let_def)

lemma extra_free:
  "list_all (\<lambda>k. map_of (rev (manifest_extra ctx cfg run)) k = None)
     [''manifest_type'', ''manifest_schema_version'', ''experiment'', ''execution_protocol_version'',
      ''execution_analysis_spec_version'', ''protocol_git_commit'', ''raw_schema_version'', ''publication_data'',
      ''run_id'', ''room_id'', ''room_version'', ''participants'', ''environment_manifest'', ''execution_host_identifier'',
      ''start_timestamp'', ''completion_timestamp'', ''completion_status'', ''validity_classification'', ''topology'',
      ''raw_artifacts'', ''human_client_name'', ''human_client_version'', ''human_client_host'', ''llm_provider'',
      ''llm_model'', ''agent_configuration_hash'', ''executor_identifier'', ''interaction_event_ids'',
      ''evidence_artifacts'', ''functional_result'', ''three_party_topology_confirmed'']"
proof -
  have "list_all (\<lambda>k. k \<notin> set (common_keys @ latency_keys @ throughput_keys @ tally_keys))
     [''manifest_type'', ''manifest_schema_version'', ''experiment'', ''execution_protocol_version'',
      ''execution_analysis_spec_version'', ''protocol_git_commit'', ''raw_schema_version'', ''publication_data'',
      ''run_id'', ''room_id'', ''room_version'', ''participants'', ''environment_manifest'', ''execution_host_identifier'',
      ''start_timestamp'', ''completion_timestamp'', ''completion_status'', ''validity_classification'', ''topology'',
      ''raw_artifacts'', ''human_client_name'', ''human_client_version'', ''human_client_host'', ''llm_provider'',
      ''llm_model'', ''agent_configuration_hash'', ''executor_identifier'', ''interaction_event_ids'',
      ''evidence_artifacts'', ''functional_result'', ''three_party_topology_confirmed'']" by code_simp
  then show ?thesis unfolding list_all_iff using extra_absent by blast
qed

lemma extra_none:
  "map_of (rev (manifest_extra ctx cfg run)) ''run_id'' = None"
  "map_of (rev (manifest_extra ctx cfg run)) ''experiment'' = None"
  "map_of (rev (manifest_extra ctx cfg run)) ''topology'' = None"
  "map_of (rev (manifest_extra ctx cfg run)) ''room_id'' = None"
  "map_of (rev (manifest_extra ctx cfg run)) ''validity_classification'' = None"
  "map_of (rev (manifest_extra ctx cfg run)) ''raw_artifacts'' = None"
  using extra_free [of ctx cfg run] by simp_all

lemmas extra_identity = extra_some extra_none

lemma extra_window:
  "map_of (rev (manifest_extra ctx cfg run)) ''window_start_ns'' = Some (opt_num
     (if sr_workload (br_scheduled run) = E3_WORKLOAD_LATENCY then None else of_workload wr_window_start None run))"
  "map_of (rev (manifest_extra ctx cfg run)) ''window_end_ns'' = Some (opt_num
     (if sr_workload (br_scheduled run) = E3_WORKLOAD_LATENCY then None else of_workload wr_window_end None run))"
proof -
  have "''window_start_ns'' \<notin> set common_keys" "''window_end_ns'' \<notin> set common_keys" by code_simp+
  moreover have "set common_keys = dom (map_of (extra_common ctx cfg run))"
    by (simp add: dom_map_of_conv_image_fst extra_common_def common_keys_def Let_def)
  ultimately have "map_of (extra_common ctx cfg run) ''window_start_ns'' = None" "map_of (extra_common ctx cfg run) ''window_end_ns'' = None"
    by blast+
  then show "map_of (rev (manifest_extra ctx cfg run)) ''window_start_ns'' = Some (opt_num
     (if sr_workload (br_scheduled run) = E3_WORKLOAD_LATENCY then None else of_workload wr_window_start None run))"
   "map_of (rev (manifest_extra ctx cfg run)) ''window_end_ns'' = Some (opt_num
     (if sr_workload (br_scheduled run) = E3_WORKLOAD_LATENCY then None else of_workload wr_window_end None run))"
    by (simp_all add: extra_get extra_workload_def opt_num_def)
qed

text \<open>What the document of a run holds: the extra fields first, then the fields of every manifest.\<close>

lemma evidence_get:
  assumes "run_to_dict host fs (evidence_manifest fs' telemetry ctx topo now cfg run) = Inr doc"
  obtains d arts where "doc = JObj d" and "\<And>k. map_of d k =
    (case map_of (rev (manifest_extra ctx cfg (run\<lparr>br_agent_transport := agent_transport_summary telemetry\<rparr>))) k of
       Some v \<Rightarrow> Some v
     | None \<Rightarrow> map_of (envelope_dict AUTOMATED host (br_validity run) (evidence_manifest fs' telemetry ctx topo now cfg run) @
         [(''topology'', JStr (bt_name topo)), (''raw_artifacts'', JList (map JObj arts))]) k)"
    and "sequence (map (artifact_to_dict fs (cc_results_root ctx)) (stream_artifacts fs' ctx run)) = Inr arts"
proof -
  let ?m = "evidence_manifest fs' telemetry ctx topo now cfg run"
  have path: "stream_path ctx (run\<lparr>br_agent_transport := agent_transport_summary telemetry\<rparr>) s = stream_path ctx run s" for s
    by (cases "cc_raw_subdir ctx") (simp_all add: stream_path_def)
  have fields: "en_validity ?m = Some (br_validity run)" "rm_topology ?m = bt_name topo"
    "en_extra ?m = manifest_extra ctx cfg (run\<lparr>br_agent_transport := agent_transport_summary telemetry\<rparr>)"
    "rm_artifacts ?m = stream_artifacts fs' ctx run" "en_results_root ?m = cc_results_root ctx"
    by (simp_all add: evidence_manifest_def Let_def stream_artifacts_def path)
  from assms obtain arts where doc: "doc = JObj (dict_update (envelope_dict AUTOMATED host (br_validity run) ?m @
      [(''topology'', JStr (rm_topology ?m)), (''raw_artifacts'', JList (map JObj arts))]) (en_extra ?m))"
    and arts: "sequence (map (artifact_to_dict fs (cc_results_root ctx)) (stream_artifacts fs' ctx run)) = Inr arts"
    unfolding run_to_dict_def with_validity_Inr rbind_eq_Inr fields by auto
  from doc _ arts show thesis by (rule that) (simp only: map_of_dict_update_last fields)
qed

lemma evidence_read:
  assumes "run_to_dict host fs (evidence_manifest fs' telemetry ctx topo now cfg run) = Inr doc"
  shows "mf_run_id (read_manifest render doc) = br_run_id run \<and> mf_experiment (read_manifest render doc) = EXPERIMENT \<and>
    mf_topology (read_manifest render doc) = bt_name topo \<and>
    mf_workload_type (read_manifest render doc) = sr_workload (br_scheduled run) \<and>
    mf_block_id (read_manifest render doc) = sr_block_id (br_scheduled run) \<and>
    mf_concurrency (read_manifest render doc) = sr_concurrency (br_scheduled run) \<and>
    mf_room_id (read_manifest render doc) = br_room_id run \<and>
    mf_body_bytes (read_manifest render doc) = rc_body_bytes cfg \<and>
    mf_campaign_id (read_manifest render doc) = cc_campaign_id ctx \<and>
    mf_validity (read_manifest render doc) = Some (valid (br_validity run),
      map_option invalid_class_value (invalid_class (br_validity run))) \<and>
    mf_window_start (read_manifest render doc) =
      (if sr_workload (br_scheduled run) = E3_WORKLOAD_LATENCY then None else of_workload wr_window_start None run) \<and>
    mf_window_end (read_manifest render doc) =
      (if sr_workload (br_scheduled run) = E3_WORKLOAD_LATENCY then None else of_workload wr_window_end None run)"
proof -
  let ?run = "run\<lparr>br_agent_transport := agent_transport_summary telemetry\<rparr>"
  define m where "m = evidence_manifest fs' telemetry ctx topo now cfg run"
  have fields: "en_experiment m = EXPERIMENT" "en_run_id m = br_run_id run" "en_room_id m = br_room_id run"
    "en_validity m = Some (br_validity run)" "en_extra m = manifest_extra ctx cfg ?run" "rm_topology m = bt_name topo"
    by (simp_all add: m_def evidence_manifest_def Let_def)
  have env: "map_of (envelope_dict AUTOMATED host (br_validity run) m @ rest) ''run_id'' = Some (JStr (br_run_id run))"
    "map_of (envelope_dict AUTOMATED host (br_validity run) m @ rest) ''experiment'' = Some (JStr EXPERIMENT)"
    "map_of (envelope_dict AUTOMATED host (br_validity run) m @ rest) ''room_id'' = Some (JStr (br_room_id run))"
    "map_of (envelope_dict AUTOMATED host (br_validity run) m @ rest) ''validity_classification'' =
       Some (validity_json (br_validity run))"
    "map_of (envelope_dict AUTOMATED host (br_validity run) m @ (''topology'', x) # rest) ''topology'' = Some x" for x rest
    by (simp_all add: envelope_dict_def fields)
  obtain d arts where doc: "doc = JObj d" "\<And>k. map_of d k =
    (case map_of (rev (manifest_extra ctx cfg ?run)) k of Some v \<Rightarrow> Some v
     | None \<Rightarrow> map_of (envelope_dict AUTOMATED host (br_validity run) m @
      [(''topology'', JStr (bt_name topo)), (''raw_artifacts'', JList (map JObj arts))]) k)"
    by (rule evidence_get [OF assms, folded m_def]) (rule that)
  then have get: "obj_get doc k = (case map_of (rev (manifest_extra ctx cfg ?run)) k of Some v \<Rightarrow> Some v
     | None \<Rightarrow> map_of (envelope_dict AUTOMATED host (br_validity run) m @
      [(''topology'', JStr (bt_name topo)), (''raw_artifacts'', JList (map JObj arts))]) k)" for k
    by (simp add: obj_get_JObj)
  have "read_validity doc = Some (valid (br_validity run), map_option invalid_class_value (invalid_class (br_validity run)))"
    by (rule validity_round_trip) (simp add: get extra_identity env del: map_of_append)
  moreover have "of_workload f d ?run = of_workload f d run" for f :: "workload_result \<Rightarrow> int option" and d
    by (simp add: of_workload_def)
  ultimately show ?thesis
    by (simp add: read_manifest_def get_values [where d = doc] get extra_identity extra_window env fields
        del: map_of_append)
qed

section \<open>The engine's records bear the identity of their run\<close>

definition bears :: "run_config \<Rightarrow> benchmark_record \<Rightarrow> bool" where
  "bears cfg r \<longleftrightarrow> rr_run_id r = rc_run_id cfg \<and> rr_experiment r = EXPERIMENT \<and>
     rr_topology r = rc_topology_name cfg \<and> workload r = rc_workload cfg \<and> block_id r = rc_block_id cfg \<and>
     concurrency r = rc_concurrency cfg \<and> rr_room_id r = rc_room_id cfg \<and> message_body_bytes r = rc_body_bytes cfg"

lemma account_one_bears:
  assumes "account_one cfg ph ws we it res = Inr res'" and "\<forall>r \<in> set (wr_records res). bears cfg r"
  shows "\<forall>r \<in> set (wr_records res'). bears cfg r"
proof -
  from assms(1) obtain r where "interaction_record cfg it ph ws we = Inr r" "wr_records res' = wr_records res @ [r]"
    by (rule account_one_appends)
  then show ?thesis using assms(2) by (auto simp: interaction_record_def rbind_eq_Inr bears_def make_benchmark_record_def
        runner_record.defs benchmark_record.defs)
qed

lemma latency_phase_bears:
  "latency_phase request cfg ph n q res w = (Inr res', w') \<Longrightarrow> \<forall>r \<in> set (wr_records res). bears cfg r \<Longrightarrow>
    \<forall>r \<in> set (wr_records res'). bears cfg r"
proof (induction n arbitrary: q res w)
  case (Suc n)
  from Suc.prems(1) obtain c it w1 res1 where "account_one cfg ph None None it res = Inr res1"
      and rest: "latency_phase request cfg ph n (Suc q) res1 w1 = (Inr res', w')"
    by (auto split: sum.splits prod.splits)
  with account_one_bears [OF this(1) Suc.prems(2)] Suc.IH [OF rest] show ?case by blast
qed simp

lemma latency_run_bears:
  assumes "run_latency_workload request clock out cfg w = (Inr res, w')"
  shows "\<forall>r \<in> set (wr_records res). bears cfg r"
proof -
  obtain t0 w1 where c0: "clock w = (t0, w1)" by (cases "clock w")
  let ?r0 = "new_workload_result\<lparr>wr_loop_start := Some t0\<rparr>"
  from assms c0 obtain res1 w2 where p1: "latency_phase request cfg PHASE_WARMUP (rc_warmup_interactions cfg) 1 ?r0 w1 = (Inr res1, w2)"
    and rest: "(if out w2 \<noteq> 0 then (Inl RuntimeError, w2)
          else let (t1, w3) = clock w2 in
            case latency_phase request cfg PHASE_MEASURED (rc_measured_interactions cfg)
                   (1 + rc_warmup_interactions cfg) (res1\<lparr>wr_window_start := Some t1\<rparr>) w3 of
              (Inl x, w4) \<Rightarrow> (Inl x, w4)
            | (Inr res2, w4) \<Rightarrow> (let (t2, w5) = clock w4 in
                (Inr (res2\<lparr>wr_window_end := Some t2, wr_drain_end := Some t2\<rparr>), w5))) = (Inr res, w')"
    by (auto simp: run_latency_workload_def Let_def split: sum.splits prod.splits)
  have b1: "\<forall>r \<in> set (wr_records res1). bears cfg r" by (rule latency_phase_bears [OF p1]) simp
  obtain t1 w3 where c1: "clock w2 = (t1, w3)" by (cases "clock w2")
  from rest c1 obtain res2 w4 where p2: "latency_phase request cfg PHASE_MEASURED (rc_measured_interactions cfg)
      (1 + rc_warmup_interactions cfg) (res1\<lparr>wr_window_start := Some t1\<rparr>) w3 = (Inr res2, w4)"
    and "wr_records res = wr_records res2"
    by (auto simp: Let_def split: if_splits sum.splits prod.splits)
  moreover have "\<forall>r \<in> set (wr_records res2). bears cfg r" by (rule latency_phase_bears [OF p2]) (use b1 in simp)
  ultimately show ?thesis by simp
qed

lemma account_bears:
  "account cfg ws we its res before pend = Inr res' \<Longrightarrow> \<forall>r \<in> set (wr_records res). bears cfg r \<Longrightarrow>
    (\<forall>r \<in> set (wr_records res'). bears cfg r) \<and> wr_window_start res' = wr_window_start res \<and>
    wr_window_end res' = wr_window_end res"
proof (induction its arbitrary: res before pend)
  case (Cons it its)
  from Cons.prems(1) obtain res1 where
    one: "account_one cfg (phase_of ws we it) (Some ws) (Some we) it res = Inr res1"
    and rest: "account cfg ws we its res1 (if outstanding_at ws it then before @ [it] else before)
        (if outstanding_at we it then pend @ [it] else pend) = Inr res'"
    by (auto simp: rbind_eq_Inr)
  have "wr_window_start res1 = wr_window_start res" "wr_window_end res1 = wr_window_end res"
    using one by (auto simp: account_one_def rbind_eq_Inr Let_def tally_send_def tally_integrity_def)
  with Cons.IH [OF rest account_one_bears [OF one Cons.prems(2)]] show ?case by simp
qed auto

text \<open>What the engine promises of a workload, whichever it is.\<close>

definition engine_result :: "run_config \<Rightarrow> workload_result \<Rightarrow> bool" where
  "engine_result cfg res \<longleftrightarrow> (\<forall>r \<in> set (wr_records res). bears cfg r) \<and>
     (rc_workload cfg = E3_WORKLOAD_LATENCY \<or>
      rc_workload cfg = E3_WORKLOAD_THROUGHPUT \<and> (\<exists>ws we. wr_window_start res = Some ws \<and> wr_window_end res = Some we \<and>
        we - ws = nanoseconds (rc_measurement_seconds cfg) \<and>
        (\<forall>r \<in> set (wr_records res). rec_window_start r = Some ws \<and> rec_window_end r = Some we)))"

lemma run_workload_result:
  assumes "run_workload (run_latency_workload request clock out) (run_throughput_workload loop clock) cfg w = (Inr res, w')"
  shows "engine_result cfg res"
proof (cases "rc_workload cfg = E3_WORKLOAD_LATENCY")
  case True
  with assms have "run_latency_workload request clock out cfg w = (Inr res, w')" by (simp add: run_workload_def)
  from latency_run_bears [OF this] True show ?thesis by (simp add: engine_result_def)
next
  case False
  with assms have wl: "rc_workload cfg = E3_WORKLOAD_THROUGHPUT"
    and run: "run_throughput_workload loop clock cfg w = (Inr res, w')"
    by (auto simp: run_workload_def split: if_splits)
  obtain t0 w1 where c0: "clock w = (t0, w1)" by (cases "clock w")
  obtain ws we de where b: "window_bounds cfg t0 = (ws, we, de)" by (metis prod_cases3)
  let ?r0 = "new_workload_result\<lparr>wr_loop_start := Some t0, wr_window_start := Some ws, wr_window_end := Some we,
    wr_drain_end := Some de\<rparr>"
  from run c0 b obtain its where acc: "account cfg ws we its ?r0 [] [] = Inr res"
    by (auto simp: run_throughput_workload_def Let_def split: sum.splits prod.splits)
  have "\<forall>r \<in> set (wr_records ?r0). bears cfg r" by simp
  from account_bears [OF acc this] account_exact [OF acc] b wl show ?thesis
    by (auto simp: engine_result_def window_bounds_def Let_def)
qed

lemma measure_Some:
  "measure w (run, cfg) = ((run', cfg'), Some x) \<Longrightarrow> br_workload_result run' = br_workload_result run \<and>
    br_scheduled run' = br_scheduled run \<and> br_run_id run' = br_run_id run"
  by (auto simp: measure_def step_def Let_def split: sum.splits)

lemma check_membership_Some:
  assumes "check_membership w topo (run, cfg) = ((run', cfg'), Some x)"
  shows "br_workload_result run' = br_workload_result run \<and> br_scheduled run' = br_scheduled run \<and> br_run_id run' = br_run_id run"
proof (cases "rw_joined_members w")
  case (Inr members)
  show ?thesis
  proof (cases "rw_joined_rooms w")
    case (Inr rooms)
    with assms \<open>rw_joined_members w = Inr members\<close> show ?thesis
      by (auto simp: check_membership_def step_def Let_def dest: measure_Some split: if_splits)
  qed (use assms Inr in \<open>auto simp: check_membership_def step_def\<close>)
qed (use assms in \<open>auto simp: check_membership_def step_def\<close>)

lemma conduct_Some:
  assumes "conduct w topo (run, cfg) = ((run', cfg'), Some x)"
  shows "br_workload_result run' = br_workload_result run \<and> br_scheduled run' = br_scheduled run \<and> br_run_id run' = br_run_id run"
proof (cases "rw_start w")
  case start: (Inr u)
  show ?thesis
  proof (cases "rw_create_room w")
    case room: (Inr room)
    show ?thesis
    proof (cases "rbind (rw_room_state w) (\<lambda>(v, e). assert_frozen_room_configuration v e)")
      case state: (Inr ve)
      show ?thesis
      proof (cases "rw_agent_start w")
        case (Inr v)
        with assms start room state show ?thesis
          by (cases ve) (auto simp: conduct_def step_def in_room_def dest: check_membership_Some)
      qed (use assms start room state in \<open>cases ve; auto simp: conduct_def step_def in_room_def\<close>)
    qed (use assms start room in \<open>auto simp: conduct_def step_def in_room_def\<close>)
  qed (use assms start in \<open>auto simp: conduct_def step_def\<close>)
qed (use assms in \<open>auto simp: conduct_def step_def\<close>)

text \<open>The two ends of a run.\<close>

lemma execute_cases:
  assumes "execute_benchmark_run w host started opts sched rid = Inr (run, cfg)"
    and "topology (sr_topology sched) = Inr topo"
  shows "br_scheduled run = sched \<and> br_run_id run = rid \<and>
    (if valid (br_validity run)
     then cfg = (config_of sched rid topo opts)\<lparr>rc_room_id := br_room_id run\<rparr> \<and>
       (\<exists>res. br_workload_result run = Some res \<and> rw_workload w cfg = Inr res) \<and>
       room_version_ok run \<and> set (br_membership run) = {bt_sender topo, bt_agent topo} \<and>
       br_completion_status run = ''complete'' \<and> br_problems run = []
     else br_workload_result run = None \<and> br_completion_status run = ''invalid'' \<and>
       invalid_class (br_validity run) \<noteq> None \<and> br_problems run \<noteq> [])"
proof -
  let ?run0 = "(new_benchmark_run sched rid started)\<lparr>br_host_diagnostics := host\<rparr>"
  obtain run' cfg' x where c: "conduct w topo (?run0, config_of sched rid topo opts) = ((run', cfg'), x)"
    by (metis prod.collapse)
  with assms have out: "run = (case x of None \<Rightarrow> run' | Some f \<Rightarrow> failed_run f run')
      \<lparr>br_sender_transport := rw_sender_transport w\<rparr>" "cfg = cfg'"
    by (auto simp: execute_benchmark_run_def Let_def)
  show ?thesis
  proof (cases x)
    case None
    with conduct_facts [of w topo ?run0 _ run' cfg'] c show ?thesis
      by (simp add: out new_benchmark_run_def VALID_def room_version_ok_def)
  next
    case (Some f)
    with conduct_Some [of w topo ?run0 _ run' cfg' f] c show ?thesis
      by (cases f) (simp_all add: out invalid_run_def new_benchmark_run_def)
  qed
qed

section \<open>Properties\<close>

text \<open>
  C23: A run counts as valid exactly if it is complete, and then its room had the frozen
  version without encryption and exactly the two participants of its topology, its workload
  returned, and it lists no problem. Any other run names exactly one class of invalidity
  and its problem.
\<close>

theorem valid_run_was_frozen:
  assumes "execute_benchmark_run w host started opts sched rid = Inr (run, cfg)"
  shows "(valid (br_validity run) \<longleftrightarrow> br_completion_status run = ''complete'') \<and>
    (if valid (br_validity run)
     then \<exists>topo. topology (sr_topology sched) = Inr topo \<and> room_version_ok run \<and>
       set (br_membership run) = {bt_sender topo, bt_agent topo} \<and> br_problems run = [] \<and>
       (\<exists>res. br_workload_result run = Some res \<and> rw_workload w cfg = Inr res)
     else br_completion_status run = ''invalid'' \<and> invalid_class (br_validity run) \<noteq> None \<and> br_problems run \<noteq> [])"
proof -
  from assms obtain topo where topo: "topology (sr_topology sched) = Inr topo"
    by (auto simp: execute_benchmark_run_def rbind_eq_Inr)
  with execute_cases [OF assms topo] show ?thesis by (cases "valid (br_validity run)") auto
qed

text \<open>
  C24: What the runner writes passes the cross-check of the analysis. For any run of the
  schedule whose workload is the engine's, the manifest as the analysis reads it agrees
  with every record of the run's stream in identity, topology, workload, block,
  concurrency, room, body size and window, and its throughput window is the frozen one:
  the check reports nothing, save for an invalid throughput run, which has no window.
\<close>

theorem manifest_matches_stream:
  assumes run: "execute_benchmark_run w host started default_options sched rid = Inr (run, cfg)"
    and topo: "topology (sr_topology sched) = Inr topo"
    and engine: "\<forall>cfg res. rw_workload w cfg = Inr res \<longrightarrow> (\<exists>w0 w1. run_workload
      (run_latency_workload request clock out) (run_throughput_workload loop clock) cfg w0 = (Inr res, w1))"
    and doc: "run_to_dict hostname fs (evidence_manifest fs' telemetry ctx topo now cfg run) = Inr doc"
  shows "fst (check_run (read_manifest render doc) (evidence_streams run)) =
    (if sr_workload sched = E3_WORKLOAD_THROUGHPUT \<and> \<not> valid (br_validity run) then [NoWindow rid] else [])"
proof -
  let ?m = "read_manifest render doc"
  note m = evidence_read [OF doc, of render]
  note cases = execute_cases [OF run topo]
  show ?thesis
  proof (cases "valid (br_validity run)")
    case False
    with cases have "evidence_streams run = []" by (simp add: evidence_streams_def of_workload_def)
    then have "field_problems ?m (evidence_streams run) = []" by (simp add: field_problems_agree)
    with False cases m show ?thesis
      by (auto simp: check_run_def window_problems_def is_throughput_def of_workload_def)
  next
    case True
    with cases obtain res where res: "br_workload_result run = Some res" "rw_workload w cfg = Inr res"
      and cfg: "cfg = (config_of sched rid topo default_options)\<lparr>rc_room_id := br_room_id run\<rparr>" by auto
    from engine res(2) run_workload_result have eng: "engine_result cfg res" by metis
    have windows: "\<exists>ws we. mf_window_start ?m = Some ws \<and> mf_window_end ?m = Some we \<and>
        we - ws = nanoseconds E3_MEASUREMENT_SECONDS \<and>
        (\<forall>r \<in> set (wr_records res). rec_window_start r = Some ws \<and> rec_window_end r = Some we)"
      if "is_throughput ?m"
    proof -
      from that m cases have wl: "sr_workload sched = E3_WORKLOAD_THROUGHPUT" by (simp add: is_throughput_def)
      then have "rc_workload cfg = E3_WORKLOAD_THROUGHPUT" "rc_measurement_seconds cfg = E3_MEASUREMENT_SECONDS"
        by (simp_all add: cfg config_of_def default_options_def)
      with eng workload_names_differ obtain ws we where "wr_window_start res = Some ws" "wr_window_end res = Some we"
        "we - ws = nanoseconds E3_MEASUREMENT_SECONDS"
        "\<forall>r \<in> set (wr_records res). rec_window_start r = Some ws \<and> rec_window_end r = Some we"
        unfolding engine_result_def by metis
      moreover have "mf_window_start ?m = wr_window_start res" "mf_window_end ?m = wr_window_end res"
        using m cases wl by (simp_all add: of_workload_def res(1) workload_names_differ [symmetric])
      ultimately show ?thesis by simp
    qed
    have "agrees ?m r" if r: "r \<in> set (wr_records res)" for r
    proof -
      from eng r have "bears cfg r" by (simp add: engine_result_def)
      with m cases have "rr_run_id r = mf_run_id ?m \<and> rr_experiment r = mf_experiment ?m \<and>
        rr_topology r = mf_topology ?m \<and> workload r = mf_workload_type ?m \<and> block_id r = mf_block_id ?m \<and>
        concurrency r = mf_concurrency ?m \<and> rr_room_id r = mf_room_id ?m \<and> message_body_bytes r = mf_body_bytes ?m"
        by (simp add: bears_def cfg config_of_def)
      with windows r show ?thesis unfolding agrees_def by auto
    qed
    then have "field_problems ?m (evidence_streams run) = []"
      by (simp add: field_problems_agree evidence_streams_def of_workload_def res(1))
    moreover have "window_problems ?m = []"
    proof -
      have "nanoseconds E3_MEASUREMENT_SECONDS = 60000000000"
        by (simp add: nanoseconds_def E3_MEASUREMENT_SECONDS_def)
      with windows show ?thesis by (auto simp: window_problems_none E3_MEASUREMENT_SECONDS_def)
    qed
    ultimately show ?thesis using True by (simp add: check_run_def)
  qed
qed

text \<open>A throughput run on a fixed clock whose loop returns at once, in a room of the two participants.\<close>

definition example_scheduled :: scheduled_run where
  "example_scheduled = \<lparr>sr_workload = E3_WORKLOAD_THROUGHPUT, sr_block_id = ''thr-c08-block01'', sr_block_index = 1,
     sr_within_block_order = 1, sr_topology = E3_TOPOLOGY_FEDERATED, sr_concurrency = 8\<rparr>"

definition example_workload :: "run_config \<Rightarrow> run_failure + workload_result" where
  "example_workload cfg = (case fst (run_workload
       (run_latency_workload (\<lambda>c w. (Inl RuntimeError, w)) (\<lambda>w. (0, w)) (\<lambda>_. 0))
       (run_throughput_workload (\<lambda>_ w. (Inr [], w)) (\<lambda>w. (0, w))) cfg ()) of
     Inl _ \<Rightarrow> Inl (OtherFailure ''failed'') | Inr res \<Rightarrow> Inr res)"

definition example_world :: run_world where
  "example_world = \<lparr>rw_start = Inr (), rw_create_room = Inr ''!r'', rw_room_state = Inr (ROOM_VERSION, False),
     rw_agent_start = Inr (), rw_joined_members = Inr [BENCHMARK_AGENT_FEDERATED, BENCHMARK_SENDER],
     rw_joined_rooms = Inr [''!r''], rw_setup_transport = [], rw_workload = example_workload,
     rw_sender_transport = []\<rparr>"

definition example_context :: campaign_context where
  "example_context = \<lparr>cc_campaign_id = ''e3dev-1'', cc_campaign_fingerprint = ''1'', cc_schedule_seed = 7,
     cc_rate_limit_reference = JNull, cc_environment_manifest = None, cc_timeline_limit = None, cc_timeout_ms = 30000,
     cc_publication_data = False, cc_protocol_git_commit = ''c'', cc_results_root = [''results''], cc_raw_subdir = None\<rparr>"

lemma example_run:
  "\<exists>run cfg. execute_benchmark_run example_world [] ''2026'' default_options example_scheduled ''r1'' = Inr (run, cfg) \<and>
     valid (br_validity run) \<and> br_started_at run = ''2026''"
proof -
  have topo: "topology (sr_topology example_scheduled) = Inr FEDERATED"
    by (simp add: topology_Inr example_scheduled_def)
  have w: "\<exists>res. example_workload (config_of example_scheduled ''r1'' FEDERATED default_options\<lparr>rc_room_id := ''!r''\<rparr>) = Inr res"
    by (simp add: example_workload_def run_workload_def run_throughput_workload_def config_of_def example_scheduled_def
        workload_names Let_def split: prod.split)
  obtain run' cfg' x where c: "conduct example_world FEDERATED ((new_benchmark_run example_scheduled ''r1'' ''2026'')
      \<lparr>br_host_diagnostics := []\<rparr>, config_of example_scheduled ''r1'' FEDERATED default_options) = ((run', cfg'), x)"
    by (metis prod.collapse)
  moreover have "snd (conduct example_world FEDERATED ((new_benchmark_run example_scheduled ''r1'' ''2026'')
      \<lparr>br_host_diagnostics := []\<rparr>, config_of example_scheduled ''r1'' FEDERATED default_options)) = None"
    using w by (auto simp: conduct_def step_def example_world_def assert_frozen_room_configuration_def in_room_def
        check_membership_def measure_def Let_def FEDERATED_def)
  ultimately have "x = None" by simp
  with c conduct_facts [of example_world FEDERATED _ _ run' cfg'] topo show ?thesis
    by (simp add: execute_benchmark_run_def new_benchmark_run_def VALID_def)
qed

theorem valid_run_was_frozen_witness:
  "\<exists>run cfg. execute_benchmark_run example_world [] ''2026'' default_options example_scheduled ''r1'' = Inr (run, cfg) \<and>
     room_version_ok run \<and> set (br_membership run) = {BENCHMARK_SENDER, BENCHMARK_AGENT_FEDERATED}"
proof -
  from example_run obtain run cfg where r: "execute_benchmark_run example_world [] ''2026'' default_options
      example_scheduled ''r1'' = Inr (run, cfg)" "valid (br_validity run)" by blast
  have "topology (sr_topology example_scheduled) = Inr FEDERATED" by (simp add: topology_Inr example_scheduled_def)
  with valid_run_was_frozen [OF r(1)] r(2) have "room_version_ok run \<and>
      set (br_membership run) = {bt_sender FEDERATED, bt_agent FEDERATED}" by auto
  with r(1) show ?thesis by (auto simp: FEDERATED_def)
qed

theorem manifest_matches_stream_witness:
  "\<exists>run cfg doc. execute_benchmark_run example_world [] ''2026'' default_options example_scheduled ''r1'' = Inr (run, cfg) \<and>
     run_to_dict ''h'' (\<lambda>_. Some (''00'', 1)) (evidence_manifest (\<lambda>_. Some (''00'', 1)) [] example_context FEDERATED ''2027''
       cfg run) = Inr doc \<and>
     fst (check_run (read_manifest (\<lambda>_. []) doc) (evidence_streams run)) = []"
proof -
  from example_run obtain run cfg where r: "execute_benchmark_run example_world [] ''2026'' default_options
      example_scheduled ''r1'' = Inr (run, cfg)" "valid (br_validity run)" "br_started_at run = ''2026''" by blast
  have topo: "topology (sr_topology example_scheduled) = Inr FEDERATED" by (simp add: topology_Inr example_scheduled_def)
  let ?m = "evidence_manifest (\<lambda>_. Some (''00'', 1)) [] example_context FEDERATED ''2027'' cfg run"
  have "en_validity ?m = Some (br_validity run)" "en_completed_at ?m = Some ''2027''" "en_started_at ?m = ''2026''"
    by (simp_all add: evidence_manifest_def Let_def r(3))
  moreover have "''2026'' \<le> ''2027''" by code_simp
  moreover have "\<exists>arts. sequence (map (artifact_to_dict (\<lambda>_. Some (''00'', 1)) root) as) = Inr arts" for root as
    by (induction as) (auto simp: artifact_to_dict_def)
  ultimately obtain doc where doc: "run_to_dict ''h'' (\<lambda>_. Some (''00'', 1)) ?m = Inr doc"
    by (fastforce simp: run_to_dict_def with_validity_Inr rbind_eq_Inr)
  have "\<forall>cfg res. rw_workload example_world cfg = Inr res \<longrightarrow> (\<exists>w0 w1. run_workload
      (run_latency_workload (\<lambda>c w. (Inl RuntimeError, w)) (\<lambda>w. (0, w)) (\<lambda>_. 0))
      (run_throughput_workload (\<lambda>_ w. (Inr [], w)) (\<lambda>w. (0, w))) cfg (w0 :: unit) = (Inr res, w1))"
    by (auto simp: example_world_def example_workload_def prod_eq_iff split: sum.splits)
  from manifest_matches_stream [OF r(1) topo this doc] r doc show ?thesis by auto
qed

end
