(* ===== verification/Audit_Campaign.thy ===== *)
theory Audit_Campaign
  imports Final_Audit Lock_Gen Runner
begin

text \<open>
  The rest of \<^verbatim>\<open>scripts/final_audit.py\<close>: the executed schedule, provenance, secrets and the
  verdict. Manifests are JSON documents, in the order of their file names; a \<open>TypeError\<close>
  is the exception \<^const>\<open>ValueError\<close>, and a file is decoded to the code points the model has.
\<close>

section \<open>Schedule and environment\<close>

definition required :: "json \<Rightarrow> string \<Rightarrow> exn + json" where
  "required d k = (case d of
     JObj e \<Rightarrow> (case map_of e k of None \<Rightarrow> Inl KeyError | Some v \<Rightarrow> Inr v)
   | _ \<Rightarrow> Inl ValueError)"

definition text_of :: "json \<Rightarrow> exn + string" where
  "text_of v = (case v of JStr s \<Rightarrow> Inr s | _ \<Rightarrow> Inl ValueError)"

definition items_of :: "json \<Rightarrow> exn + json list" where
  "items_of v = (case v of JList xs \<Rightarrow> Inr xs | _ \<Rightarrow> Inl ValueError)"

type_synonym slot_tuple = "string \<times> rat \<times> string \<times> rat"

definition slot_key :: "json \<Rightarrow> exn + slot_tuple" where
  "slot_key r =
     rbind (rbind (required r ''block_id'') text_of) (\<lambda>b.
     rbind (rbind (required r ''within_block_order'') number_of) (\<lambda>pos.
     rbind (rbind (required r ''topology'') text_of) (\<lambda>t.
     rbind (rbind (required r ''concurrency'') number_of) (\<lambda>c. Inr (b, pos, t, c)))))"

definition locked_slots :: "json \<Rightarrow> exn + slot_tuple list" where
  "locked_slots lock =
     rbind (required lock ''e3_schedule'') (\<lambda>plans.
     rbind (sequence (map (\<lambda>name. rbind (rbind (required plans name) items_of) (\<lambda>rs. sequence (map slot_key rs)))
       (sort (map fst (obj_items (Some plans)))))) (\<lambda>slots. Inr (concat slots)))"

definition executed_slots :: "json list \<Rightarrow> exn + slot_tuple list" where
  "executed_slots ms =
     rbind (sequence (map (\<lambda>m. rbind (required m ''experiment'') (\<lambda>e.
       if py_eq e (JStr EXPERIMENT) then rbind (slot_key m) (\<lambda>k. Inr [k]) else Inr [])) ms)) (\<lambda>slots. Inr (concat slots))"

text \<open>
  The values of a field over all manifests form a set, which the detail of the check sorts:
  lists and objects are not hashable, and values of different types not comparable.
\<close>

definition hashable :: "json \<Rightarrow> bool" where
  "hashable v \<longleftrightarrow> (case v of JList _ \<Rightarrow> False | JObj _ \<Rightarrow> False | _ \<Rightarrow> True)"

definition sortable :: "json list \<Rightarrow> bool" where
  "sortable vs \<longleftrightarrow> list_all (\<lambda>v. py_eq (hd vs) v) vs \<or>
     list_all (\<lambda>v. case v of JStr _ \<Rightarrow> True | _ \<Rightarrow> False) vs \<or>
     list_all (\<lambda>v. case v of JNum _ \<Rightarrow> True | JBool _ \<Rightarrow> True | _ \<Rightarrow> False) vs"

definition field_values :: "json list \<Rightarrow> string \<Rightarrow> json list" where
  "field_values ms k = map (\<lambda>m. value_of (obj_get m k)) ms"

definition only_value :: "json \<Rightarrow> json list \<Rightarrow> bool" where
  "only_value v vs \<longleftrightarrow> vs \<noteq> [] \<and> list_all (\<lambda>x. py_eq x v) vs"

definition locked_field :: "string \<Rightarrow> json \<Rightarrow> json list \<Rightarrow> string \<Rightarrow> exn + check" where
  "locked_field title lock ms k =
     (let vs = field_values ms k in
      if \<not> list_all hashable vs then Inl ValueError
      else rbind (frozen_at lock k) (\<lambda>v.
        if \<not> hashable v \<or> \<not> sortable vs then Inl ValueError else Inr (title, only_value v vs)))"

definition marked_valid :: "json \<Rightarrow> exn + bool" where
  "marked_valid m = (case get_default m ''validity_classification'' (JObj []) of
     JObj d \<Rightarrow> Inr (json_true (map_of d ''valid'')) | _ \<Rightarrow> Inl ValueError)"

definition invalid_runs :: "json list \<Rightarrow> exn + json list" where
  "invalid_runs ms = rbind (sequence (map (\<lambda>m. rbind (marked_valid m) (\<lambda>ok.
     if ok then Inr [] else rbind (required m ''run_id'') (\<lambda>v. Inr [v]))) ms)) (\<lambda>found. Inr (concat found))"

definition schedule_and_environment :: "json \<Rightarrow> json list \<Rightarrow> exn + check list" where
  "schedule_and_environment lock ms =
     rbind (locked_slots lock) (\<lambda>locked.
     rbind (executed_slots ms) (\<lambda>executed.
     rbind (locked_field ''every room used the frozen room version'' lock ms ''room_version'') (\<lambda>room.
     rbind (locked_field ''every formal manifest declares the locked raw schema'' lock ms ''raw_schema_version'') (\<lambda>schema.
       let flags = field_values ms ''publication_data'' in
       if \<not> list_all hashable flags then Inl ValueError else
     rbind (invalid_runs ms) (\<lambda>invalid. Inr
       [(''the executed local/federated pair schedule matches the lock'', sort locked = sort executed), room, schema,
        (''every formal manifest carries publication_data true'', only_value (JBool True) flags),
        (''no run is classified invalid'', invalid = [])])))))"

section \<open>Provenance\<close>

text \<open>The digest of a file under the results directory, if it exists.\<close>

type_synonym digests = "string \<Rightarrow> string option"

definition or_empty :: "json option \<Rightarrow> json" where
  "or_empty v = (if json_true v then value_of v else JList [])"

definition named_artifacts :: "json \<Rightarrow> exn + json list" where
  "named_artifacts m =
     rbind (items_of (or_empty (obj_get m ''raw_artifacts''))) (\<lambda>raw.
     rbind (items_of (or_empty (obj_get m ''evidence_artifacts''))) (\<lambda>evidence. Inr (raw @ evidence)))"

datatype bad_artifact = Missing string | Mismatched string

definition artifact_fault :: "digests \<Rightarrow> json \<Rightarrow> exn + bad_artifact option" where
  "artifact_fault file a =
     rbind (rbind (required a ''path'') text_of) (\<lambda>p.
       case file p of
         None \<Rightarrow> Inr (Some (Missing p))
       | Some digest \<Rightarrow> rbind (required a ''sha256'') (\<lambda>v.
           Inr (if py_eq (JStr digest) v then None else Some (Mismatched p))))"

definition artifact_faults :: "digests \<Rightarrow> json list \<Rightarrow> exn + bad_artifact list" where
  "artifact_faults file ms =
     rbind (sequence (map named_artifacts ms)) (\<lambda>named.
     rbind (sequence (map (artifact_fault file) (concat named))) (\<lambda>found. Inr (List.map_filter id found)))"

definition provenance :: "digests \<Rightarrow> json option \<Rightarrow> json \<Rightarrow> json list \<Rightarrow> exn + check list" where
  "provenance file completion lock ms =
     rbind (artifact_faults file ms) (\<lambda>faults. Inr
       [(''the lock still describes the running code'', compare_lock lock = []),
        (''every artifact a manifest names exists'', list_all (\<lambda>f. case f of Missing _ \<Rightarrow> False | _ \<Rightarrow> True) faults),
        (''every named artifact matches its recorded digest'',
          list_all (\<lambda>f. case f of Mismatched _ \<Rightarrow> False | _ \<Rightarrow> True) faults),
        (''the collection is frozen'', (case completion of
           None \<Rightarrow> False | Some d \<Rightarrow> py_eq (value_of (obj_get d ''collection_phase'')) (JStr ''complete'')))])"

section \<open>Secrets\<close>

text \<open>\<open>re.search\<close>: the pattern at some position, given the character before it.\<close>

fun search_from :: "(char option \<Rightarrow> string \<Rightarrow> bool) \<Rightarrow> char option \<Rightarrow> string \<Rightarrow> bool" where
  "search_from m prev [] = m prev []"
| "search_from m prev (c # s) = (m prev (c # s) \<or> search_from m (Some c) s)"

definition after :: "string \<Rightarrow> string \<Rightarrow> string option" where
  "after pat s = (if take (length pat) s = pat then Some (drop (length pat) s) else None)"

definition at_least :: "nat \<Rightarrow> (char \<Rightarrow> bool) \<Rightarrow> string \<Rightarrow> bool" where
  "at_least n P s \<longleftrightarrow> n \<le> length (takeWhile P s)"

text \<open>\<open>\w\<close> on the code points the model has, and the classes of the patterns.\<close>

definition word_char :: "char \<Rightarrow> bool" where
  "word_char c \<longleftrightarrow> is_alpha c \<or> is_digit c \<or> c = CHR ''_'' \<or> code c \<in> {170, 178, 179, 181, 185, 186, 188, 189, 190} \<or>
     (192 \<le> code c \<and> code c \<noteq> 215 \<and> code c \<noteq> 247)"

definition dash_char :: "char \<Rightarrow> bool" where
  "dash_char c \<longleftrightarrow> is_alpha c \<or> is_digit c \<or> c = CHR ''_'' \<or> c = CHR ''-''"

definition label_char :: "char \<Rightarrow> bool" where
  "label_char c \<longleftrightarrow> c = CHR '' '' \<or> (65 \<le> code c \<and> code c \<le> 90)"

definition boundary :: "char option \<Rightarrow> bool" where
  "boundary prev \<longleftrightarrow> (case prev of None \<Rightarrow> True | Some c \<Rightarrow> \<not> word_char c)"

definition openrouter_key :: "char option \<Rightarrow> string \<Rightarrow> bool" where
  "openrouter_key prev s \<longleftrightarrow> lower (take 9 s) = ''sk-or-v1-'' \<and>
     at_least 16 (\<lambda>c. is_digit c \<or> lower_char c \<in> set ''abcdef'') (drop 9 s)"

definition anthropic_key :: "char option \<Rightarrow> string \<Rightarrow> bool" where
  "anthropic_key prev s \<longleftrightarrow> (case after ''sk-ant-'' s of None \<Rightarrow> False | Some r \<Rightarrow> at_least 16 dash_char r)"

definition bearer_token :: "char option \<Rightarrow> string \<Rightarrow> bool" where
  "bearer_token prev s \<longleftrightarrow> boundary prev \<and> (case after ''Bearer'' s of
     None \<Rightarrow> False
   | Some r \<Rightarrow> at_least 1 is_space r \<and> at_least 16 (\<lambda>c. dash_char c \<or> c = CHR ''.'') (dropWhile is_space r))"

definition private_key_block :: "char option \<Rightarrow> string \<Rightarrow> bool" where
  "private_key_block prev s \<longleftrightarrow> (case after ''-----BEGIN '' s of
     None \<Rightarrow> False
   | Some r \<Rightarrow> drop (length (takeWhile label_char r) - 11) (takeWhile label_char r) = ''PRIVATE KEY'' \<and>
       take 5 (dropWhile label_char r) = ''-----'')"

definition matrix_token :: "char option \<Rightarrow> string \<Rightarrow> bool" where
  "matrix_token prev s \<longleftrightarrow> boundary prev \<and>
     (case after ''syt_'' s of None \<Rightarrow> False | Some r \<Rightarrow> at_least 16 dash_char r)"

definition credential_part :: "string \<Rightarrow> bool" where
  "credential_part r \<longleftrightarrow>
     (let user = takeWhile (\<lambda>c. c \<noteq> CHR '':'' \<and> \<not> is_space c) r; rest = drop (length user) r in
      user \<noteq> [] \<and> (case after '':'' rest of
        None \<Rightarrow> False
      | Some pw \<Rightarrow>
          (let word = takeWhile (\<lambda>c. c \<noteq> CHR ''@'' \<and> \<not> is_space c) pw in
           word \<noteq> [] \<and> take 1 (drop (length word) pw) = ''@'')))"

definition database_url :: "char option \<Rightarrow> string \<Rightarrow> bool" where
  "database_url prev s \<longleftrightarrow>
     (case after ''postgres://'' s of None \<Rightarrow> False | Some r \<Rightarrow> credential_part r) \<or>
     (case after ''postgresql://'' s of None \<Rightarrow> False | Some r \<Rightarrow> credential_part r)"

definition SECRET_PATTERNS :: "(char option \<Rightarrow> string \<Rightarrow> bool) list" where
  "SECRET_PATTERNS = [openrouter_key, anthropic_key, bearer_token, private_key_block, matrix_token, database_url]"

definition REDACTION_MARKER :: string where "REDACTION_MARKER = ''<redacted>''"

definition FORBIDDEN_KEYS :: "string list" where
  "FORBIDDEN_KEYS = [''api_key'', ''access_token'', ''password'', ''registration_shared_secret'',
     ''macaroon_secret_key'', ''form_secret'', ''private_key'']"

text \<open>\<open>walk\<close>: the forbidden keys of a document that are not redacted, in the order they are met.\<close>

fun walk_keys :: "json \<Rightarrow> string list" where
  "walk_keys (JObj d) = concat (map (\<lambda>(k, v).
     (if lower k \<in> set FORBIDDEN_KEYS \<and> \<not> py_eq v (JStr REDACTION_MARKER) then [k] else []) @ walk_keys v) d)"
| "walk_keys (JList xs) = concat (map walk_keys xs)"
| "walk_keys v = []"

text \<open>A file under the results directory: its suffix, its text, and the text read as JSON, if it is.\<close>

record scanned_file =
  sf_suffix :: string
  sf_text :: string
  sf_document :: "json option"

definition scanned :: "scanned_file \<Rightarrow> bool" where
  "scanned f \<longleftrightarrow> sf_suffix f \<in> set [''.json'', ''.jsonl'', ''.csv'', ''.txt'']"

definition shapes_in :: "scanned_file \<Rightarrow> bool" where
  "shapes_in f \<longleftrightarrow> list_ex (\<lambda>p. search_from p None (sf_text f)) SECRET_PATTERNS"

definition keys_in :: "scanned_file \<Rightarrow> string list" where
  "keys_in f = (if sf_suffix f \<noteq> ''.json'' then [] else case sf_document f of None \<Rightarrow> [] | Some d \<Rightarrow> walk_keys d)"

definition secrets :: "scanned_file list \<Rightarrow> check list" where
  "secrets files = (let fs = filter scanned files in
     [(''no credential shape appears in the evidence'', \<not> list_ex shapes_in fs),
      (''no forbidden field name appears in the evidence'', list_all (\<lambda>f. keys_in f = []) fs)])"

section \<open>The verdict\<close>

definition failures :: "check list \<Rightarrow> check list" where
  "failures checks = filter (\<lambda>(_, ok). \<not> ok) checks"

definition audit_checks ::
  "json \<Rightarrow> audit_record list \<Rightarrow> json list \<Rightarrow> digests \<Rightarrow> json option \<Rightarrow> scanned_file list \<Rightarrow> exn + check list" where
  "audit_checks lock rs ms file completion files =
     rbind (impossible_states lock rs) (\<lambda>a.
     rbind (schedule_and_environment lock ms) (\<lambda>b.
     rbind (provenance file completion lock ms) (\<lambda>c. Inr (a @ b @ c @ secrets files))))"

text \<open>What \<open>main\<close> prints of the lock before the sections.\<close>

definition required_in :: "json \<Rightarrow> string \<Rightarrow> string \<Rightarrow> exn + json" where
  "required_in d a b = rbind (required d a) (\<lambda>v. required v b)"

definition headline :: "json \<Rightarrow> exn + json \<times> json \<times> string" where
  "headline lock =
     rbind (required_in lock ''campaign'' ''campaign_id'') (\<lambda>campaign.
     rbind (required_in lock ''implementation'' ''git_tag'') (\<lambda>tag.
     rbind (rbind (required_in lock ''implementation'' ''git_commit'') text_of) (\<lambda>commit.
       Inr (campaign, tag, take 12 commit))))"

text \<open>\<open>main\<close>: the exit status; without a lock the audit fails.\<close>

definition final_audit ::
  "json option \<Rightarrow> audit_record list \<Rightarrow> json list \<Rightarrow> digests \<Rightarrow> json option \<Rightarrow> scanned_file list \<Rightarrow> lock_error + exn + nat" where
  "final_audit lockfile rs ms file completion files = rbind (load_lock lockfile) (\<lambda>doc. case doc of
     None \<Rightarrow> Inr (Inr 1)
   | Some lock \<Rightarrow> Inr (rbind (headline lock) (\<lambda>_. rbind (audit_checks lock rs ms file completion files) (\<lambda>checks.
       Inr (if failures checks = [] then 0 else 1)))))"

section \<open>The locked schedule as the audit reads it\<close>

definition slot_of :: "scheduled_run \<Rightarrow> slot_tuple" where
  "slot_of r = (sr_block_id r, of_nat (sr_within_block_order r), sr_topology r, of_nat (sr_concurrency r))"

definition formal_schedule :: "(string \<Rightarrow> bool list \<Rightarrow> bool list) \<Rightarrow> scheduled_run list" where
  "formal_schedule shuffle = generate_campaign_schedule shuffle (nat E3_SCHEDULE_SEED) E3_PAIRED_BLOCKS
     E3_CONCURRENCY_LEVELS [E3_WORKLOAD_LATENCY, E3_WORKLOAD_THROUGHPUT]"

definition named_plans :: "(string \<Rightarrow> bool list \<Rightarrow> bool list) \<Rightarrow> (string, scheduled_run list) dict" where
  "named_plans shuffle =
     (''latency'', generate_workload_schedule shuffle E3_WORKLOAD_LATENCY 1 (nat E3_SCHEDULE_SEED) E3_PAIRED_BLOCKS) #
     map (\<lambda>level. (''throughput_c'' @ dec level,
       generate_workload_schedule shuffle E3_WORKLOAD_THROUGHPUT level (nat E3_SCHEDULE_SEED) E3_PAIRED_BLOCKS))
       E3_CONCURRENCY_LEVELS"

lemma locked_schedule_plans: "locked_schedule shuffle = map (\<lambda>(name, rs). (name, plan rs)) (named_plans shuffle)"
  by (simp add: locked_schedule_def named_plans_def)

lemma named_plans_ok: "dict_ok (named_plans shuffle)"
  by (auto simp: dict_ok_def named_plans_def comp_def distinct_map inj_on_def E3_CONCURRENCY_LEVELS_def)

lemma formal_schedule_plans: "formal_schedule shuffle = concat (map snd (named_plans shuffle))"
  by (simp add: formal_schedule_def generate_campaign_schedule_def named_plans_def comp_def E3_LATENCY_MAX_IN_FLIGHT_def)

lemma sequence_map_Inr: "(\<And>x. x \<in> set xs \<Longrightarrow> f x = Inr (g x)) \<Longrightarrow> sequence (map f xs) = Inr (map g xs)"
  by (induction xs) simp_all

lemma slot_key_plan: "slot_key (plan_entry r) = Inr (slot_of r)"
  by (simp add: slot_key_def plan_entry_def required_def text_of_def number_of_def slot_of_def)

lemma map_of_map_snd: "map_of (map (\<lambda>(k, v). (k, f v)) d) k = map_option f (map_of d k)"
  by (induction d) auto

lemma mset_concat_by_name:
  assumes "dict_ok d" and "mset names = mset (map fst d)"
  shows "mset (concat (map (\<lambda>k. f (the (map_of d k))) names)) = mset (concat (map (f \<circ> snd) d))"
proof -
  have "mset (concat (map (\<lambda>k. f (the (map_of d k))) names)) = (\<Sum>k\<in>#mset names. mset (f (the (map_of d k))))"
    by (simp add: mset_concat comp_def flip: sum_mset_sum_list)
  also have "\<dots> = (\<Sum>p\<in>#mset d. mset (f (the (map_of d (fst p)))))"
    by (simp add: assms(2) image_mset.compositionality comp_def)
  also have "\<dots> = (\<Sum>p\<in>#mset d. mset (f (snd p)))"
    using assms(1) by (intro arg_cong [where f = sum_mset] image_mset_cong) (auto simp: dict_ok_def)
  finally show ?thesis by (simp add: mset_concat comp_def flip: sum_mset_sum_list)
qed

lemma locked_slots_of:
  assumes "obj_get lock ''e3_schedule'' = Some (JObj (locked_schedule shuffle))"
  shows "\<exists>slots. locked_slots lock = Inr slots \<and> mset slots = mset (map slot_of (formal_schedule shuffle))"
proof -
  let ?p = "named_plans shuffle"
  let ?names = "sort (map fst ?p)"
  let ?slots = "\<lambda>name. map slot_of (the (map_of ?p name))"
  have e: "required lock ''e3_schedule'' = Inr (JObj (locked_schedule shuffle))"
    using assms by (auto simp: required_def obj_get_def split: json.splits)
  have "rbind (rbind (required (JObj (locked_schedule shuffle)) name) items_of) (\<lambda>rs. sequence (map slot_key rs)) =
      Inr (?slots name)" if "name \<in> set ?names" for name
  proof -
    from that obtain rs where rs: "map_of ?p name = Some rs" by (auto dest: weak_map_of_SomeI)
    have "sequence (map slot_key (map plan_entry rs)) = Inr (map slot_of rs)"
      unfolding map_map by (rule sequence_map_Inr) (simp add: slot_key_plan)
    then show ?thesis by (simp add: required_def locked_schedule_plans map_of_map_snd rs plan_def items_of_def)
  qed
  then have "sequence (map (\<lambda>name. rbind (rbind (required (JObj (locked_schedule shuffle)) name) items_of)
      (\<lambda>rs. sequence (map slot_key rs))) ?names) = Inr (map ?slots ?names)" by (rule sequence_map_Inr)
  moreover have "map fst (locked_schedule shuffle) = map fst ?p" by (simp add: locked_schedule_plans case_prod_unfold comp_def)
  ultimately have "locked_slots lock = Inr (concat (map ?slots ?names))" by (simp add: locked_slots_def e obj_items_def)
  moreover have "mset (concat (map ?slots ?names)) = mset (map slot_of (formal_schedule shuffle))"
    using mset_concat_by_name [OF named_plans_ok, of ?names shuffle "map slot_of"]
    by (simp add: formal_schedule_plans map_concat comp_def)
  ultimately show ?thesis by blast
qed

section \<open>The manifests of the runner as the audit reads them\<close>

definition written_manifest :: "benchmark_run \<Rightarrow> json \<Rightarrow> bool" where
  "written_manifest run doc \<longleftrightarrow> (\<exists>host fs fs' telemetry ctx topo now cfg.
     topology (sr_topology (br_scheduled run)) = Inr topo \<and> cc_publication_data ctx \<and>
     run_to_dict host fs (evidence_manifest fs' telemetry ctx topo now cfg run) = Inr doc)"

lemma extra_places:
  "map_of (rev (manifest_extra ctx cfg run)) ''block_id'' = Some (JStr (sr_block_id (br_scheduled run)))"
  "map_of (rev (manifest_extra ctx cfg run)) ''within_block_order'' = Some (JNum (of_nat (sr_within_block_order (br_scheduled run))))"
  by (simp_all add: extra_get extra_common_def Let_def)

lemma extra_left:
  "map_of (rev (manifest_extra ctx cfg run)) ''room_version'' = None"
  "map_of (rev (manifest_extra ctx cfg run)) ''raw_schema_version'' = None"
  "map_of (rev (manifest_extra ctx cfg run)) ''publication_data'' = None"
  using extra_free [of ctx cfg run] by simp_all

lemmas extra_audited = extra_places extra_left

lemma topology_bt_name: "topology name = Inr topo \<Longrightarrow> bt_name topo = name"
  by (auto simp: topology_Inr LOCAL_def FEDERATED_def)

lemma written_manifest_fields:
  assumes "written_manifest run doc"
  shows "required doc ''experiment'' = Inr (JStr EXPERIMENT)" and "slot_key doc = Inr (slot_of (br_scheduled run))"
    and "obj_get doc ''room_version'' = Some (JStr ROOM_VERSION)"
    and "obj_get doc ''raw_schema_version'' = Some (JStr RAW_SCHEMA_VERSION)"
    and "obj_get doc ''publication_data'' = Some (JBool True)" and "marked_valid doc = Inr (valid (br_validity run))"
    and "required doc ''run_id'' = Inr (JStr (br_run_id run))"
proof -
  obtain host fs fs' telemetry ctx topo now cfg where w: "topology (sr_topology (br_scheduled run)) = Inr topo"
    "cc_publication_data ctx" "run_to_dict host fs (evidence_manifest fs' telemetry ctx topo now cfg run) = Inr doc"
    using assms unfolding written_manifest_def by blast
  from w(3) obtain d arts where doc: "doc = JObj d" and get: "\<And>k. map_of d k =
    (case map_of (rev (manifest_extra ctx cfg (run\<lparr>br_agent_transport := agent_transport_summary telemetry\<rparr>))) k of
       Some v \<Rightarrow> Some v
     | None \<Rightarrow> map_of (envelope_dict AUTOMATED host (br_validity run) (evidence_manifest fs' telemetry ctx topo now cfg run) @
         [(''topology'', JStr (bt_name topo)), (''raw_artifacts'', JList (map JObj arts))]) k)"
    by (rule evidence_get) (rule that)
  note facts = get extra_audited extra_identity topology_bt_name [OF w(1)] doc
  show "required doc ''experiment'' = Inr (JStr EXPERIMENT)" "required doc ''run_id'' = Inr (JStr (br_run_id run))"
    by (simp_all add: required_def facts) (simp_all add: envelope_dict_def evidence_manifest_def Let_def)
  show "obj_get doc ''room_version'' = Some (JStr ROOM_VERSION)" "obj_get doc ''raw_schema_version'' = Some (JStr RAW_SCHEMA_VERSION)"
    "obj_get doc ''publication_data'' = Some (JBool True)"
    by (simp_all add: obj_get_def facts) (simp_all add: envelope_dict_def evidence_manifest_def Let_def w(2))
  show "marked_valid doc = Inr (valid (br_validity run))"
    by (simp add: marked_valid_def get_default_def obj_get_def facts) (simp add: envelope_dict_def validity_json_def
      validity_to_manifest_def)
  show "slot_key doc = Inr (slot_of (br_scheduled run))"
    by (simp add: slot_key_def required_def text_of_def number_of_def slot_of_def facts)
      (simp add: envelope_dict_def text_of_def)
qed

lemma sequence_list_all2:
  "list_all2 P xs ys \<Longrightarrow> (\<And>x y. P x y \<Longrightarrow> f y = Inr (g x)) \<Longrightarrow> sequence (map f ys) = Inr (map g xs)"
  by (induction rule: list_all2_induct) simp_all

lemma executed_slots_of:
  assumes "list_all2 written_manifest runs ms"
  shows "executed_slots ms = Inr (map (\<lambda>r. slot_of (br_scheduled r)) runs)"
proof -
  have "sequence (map (\<lambda>m. rbind (required m ''experiment'') (\<lambda>e.
      if py_eq e (JStr EXPERIMENT) then rbind (slot_key m) (\<lambda>k. Inr [k]) else Inr [])) ms) =
    Inr (map (\<lambda>r. [slot_of (br_scheduled r)]) runs)"
    using assms by (rule sequence_list_all2) (simp add: written_manifest_fields)
  then show ?thesis by (simp add: executed_slots_def)
qed

lemma invalid_runs_of:
  assumes "list_all2 written_manifest runs ms"
  shows "\<exists>vs. invalid_runs ms = Inr vs \<and> (vs = [] \<longleftrightarrow> list_all (\<lambda>r. valid (br_validity r)) runs)"
proof -
  have "sequence (map (\<lambda>m. rbind (marked_valid m) (\<lambda>ok.
      if ok then Inr [] else rbind (required m ''run_id'') (\<lambda>v. Inr [v]))) ms) =
    Inr (map (\<lambda>r. if valid (br_validity r) then [] else [JStr (br_run_id r)]) runs)"
    using assms by (rule sequence_list_all2) (simp add: written_manifest_fields)
  then show ?thesis by (auto simp: invalid_runs_def list_all_iff)
qed

lemma field_values_of:
  assumes "list_all2 written_manifest runs ms" and "\<And>run doc. written_manifest run doc \<Longrightarrow> obj_get doc k = Some v"
  shows "field_values ms k = replicate (length runs) v"
  using assms(1) by (induction rule: list_all2_induct) (simp_all add: field_values_def value_of_def assms(2))

lemma locked_field_of:
  assumes "field_values ms k = replicate n (JStr s)" and "n \<noteq> 0" and "frozen_at lock k = Inr (JStr s)"
  shows "locked_field title lock ms k = Inr (title, True)"
  using assms by (auto simp: locked_field_def hashable_def sortable_def only_value_def list_all_iff)

lemma sort_eq_iff_mset: "sort xs = sort ys \<longleftrightarrow> mset xs = mset ys"
  by (metis mset_sort properties_for_sort sorted_sort)

section \<open>Properties\<close>

text \<open>
  C35: Against the lock of the formal campaign and the manifests the runner wrote for it, the
  audit of schedule and environment always comes to a verdict. It finds the frozen room
  version, the locked schema and publication data everywhere, finds an invalid run exactly
  if there is one, and accepts the executed schedule exactly if every scheduled slot of
  the campaign was executed, in whatever order, as often as it was scheduled.
\<close>

theorem formal_schedule_audited:
  assumes "list_all2 written_manifest runs ms" and "runs \<noteq> []"
    and "obj_get lock ''e3_schedule'' = Some (JObj (locked_schedule shuffle))"
    and "obj_get lock ''frozen_parameters'' = Some (JObj frozen_parameters)"
  shows "\<exists>checks. schedule_and_environment lock ms = Inr checks \<and> map snd checks =
    [mset (map (slot_of \<circ> br_scheduled) runs) = mset (map slot_of (formal_schedule shuffle)), True, True, True,
     list_all (\<lambda>r. valid (br_validity r)) runs]"
proof -
  obtain slots where slots: "locked_slots lock = Inr slots" "mset slots = mset (map slot_of (formal_schedule shuffle))"
    using locked_slots_of [OF assms(3)] by blast
  obtain vs where vs: "invalid_runs ms = Inr vs" "vs = [] \<longleftrightarrow> list_all (\<lambda>r. valid (br_validity r)) runs"
    using invalid_runs_of [OF assms(1)] by blast
  have frozen: "frozen_at lock ''room_version'' = Inr (JStr ROOM_VERSION)"
    "frozen_at lock ''raw_schema_version'' = Inr (JStr RAW_SCHEMA_VERSION)"
    by (simp_all add: frozen_at_def sub_get_def assms(4)) (simp_all add: obj_get_def frozen_parameters_def)
  have flags: "field_values ms ''publication_data'' = replicate (length runs) (JBool True)"
    by (rule field_values_of [OF assms(1) written_manifest_fields(5)])
  have room: "locked_field t lock ms ''room_version'' = Inr (t, True)" for t
    by (rule locked_field_of [OF field_values_of [OF assms(1) written_manifest_fields(3)]]) (simp_all add: assms(2) frozen)
  have schema: "locked_field t lock ms ''raw_schema_version'' = Inr (t, True)" for t
    by (rule locked_field_of [OF field_values_of [OF assms(1) written_manifest_fields(4)]]) (simp_all add: assms(2) frozen)
  have "(sort slots = sort (map (\<lambda>r. slot_of (br_scheduled r)) runs)) =
      (mset (map (slot_of \<circ> br_scheduled) runs) = mset (map slot_of (formal_schedule shuffle)))"
    unfolding sort_eq_iff_mset slots(2) comp_def by (rule eq_commute)
  then show ?thesis
    using assms(2) vs by (simp add: schedule_and_environment_def slots executed_slots_of [OF assms(1)] room schema flags
      hashable_def only_value_def list_all_iff)
qed

definition example_formal_lock :: json where
  "example_formal_lock = JObj [(''frozen_parameters'', JObj frozen_parameters),
     (''e3_schedule'', JObj (locked_schedule (\<lambda>_ xs. xs)))]"

lemma example_written: "\<exists>run doc. written_manifest run doc \<and> valid (br_validity run)"
proof -
  from example_run obtain run cfg where e: "execute_benchmark_run example_world [] ''2026'' default_options
      example_scheduled ''r1'' = Inr (run, cfg)" and v: "valid (br_validity run)" "br_started_at run = ''2026''" by blast
  have "topology (sr_topology example_scheduled) = Inr FEDERATED" by (simp add: topology_Inr example_scheduled_def)
  with execute_cases [OF e] v have r: "valid (br_validity run)" "br_started_at run = ''2026''"
    "br_scheduled run = example_scheduled" by simp_all
  have topo: "topology (sr_topology (br_scheduled run)) = Inr FEDERATED" by (simp add: r topology_Inr example_scheduled_def)
  let ?ctx = "example_context\<lparr>cc_publication_data := True\<rparr>"
  let ?m = "evidence_manifest (\<lambda>_. None) [] ?ctx FEDERATED ''2027'' cfg run"
  have "en_validity ?m = Some (br_validity run)" "en_completed_at ?m = Some ''2027''" "en_started_at ?m = ''2026''"
    "rm_artifacts ?m = []"
    by (simp_all add: evidence_manifest_def Let_def r stream_artifacts_def)
  moreover have "''2026'' \<le> ''2027''" by code_simp
  ultimately obtain doc where "run_to_dict ''h'' (\<lambda>_. None) ?m = Inr doc"
    by (fastforce simp: run_to_dict_def with_validity_Inr rbind_eq_Inr)
  moreover have "cc_publication_data ?ctx" by simp
  ultimately have "written_manifest run doc" using topo unfolding written_manifest_def by blast
  with r(1) show ?thesis by blast
qed

lemma length_formal_schedule:
  assumes "\<And>key xs. mset (shuffle key xs) = mset xs"
  shows "length (formal_schedule shuffle) = 2 * E3_PAIRED_BLOCKS * (1 + length E3_CONCURRENCY_LEVELS)"
  by (simp add: formal_schedule_plans named_plans_def length_concat comp_def length_workload_schedule [OF assms]
    sum_list_triv)

theorem formal_schedule_audited_witness:
  "\<exists>run doc checks. written_manifest run doc \<and> schedule_and_environment example_formal_lock [doc] = Inr checks \<and>
     map snd checks = [False, True, True, True, True]"
proof -
  obtain run doc where r: "written_manifest run doc" "valid (br_validity run)" using example_written by blast
  have l: "list_all2 written_manifest [run] [doc]" "[run] \<noteq> []" using r by simp_all
  have d: "obj_get example_formal_lock ''e3_schedule'' = Some (JObj (locked_schedule (\<lambda>_ xs. xs)))"
    "obj_get example_formal_lock ''frozen_parameters'' = Some (JObj frozen_parameters)"
    by (simp_all add: example_formal_lock_def obj_get_def)
  obtain checks where checks: "schedule_and_environment example_formal_lock [doc] = Inr checks"
    "map snd checks = [mset (map (slot_of \<circ> br_scheduled) [run]) = mset (map slot_of (formal_schedule (\<lambda>_ xs. xs))),
       True, True, True, list_all (\<lambda>r. valid (br_validity r)) [run]]"
    using formal_schedule_audited [OF l d] by (elim exE conjE)
  have "length (formal_schedule (\<lambda>_ xs. xs)) \<noteq> 1"
    by (simp add: length_formal_schedule E3_PAIRED_BLOCKS_def E3_CONCURRENCY_LEVELS_def)
  then have "mset (map (slot_of \<circ> br_scheduled) [run]) \<noteq> mset (map slot_of (formal_schedule (\<lambda>_ xs. xs)))"
    by (metis length_map One_nat_def length_Cons list.size(3) mset_eq_length)
  with checks(2) r(2) have "map snd checks = [False, True, True, True, True]" by simp
  with checks(1) r(1) show ?thesis by (intro exI conjI)
qed

text \<open>
  C36: A document the program sanitised leaves the audit nothing to find: whatever keys and
  values it had, at any depth, the walk over it meets no forbidden key that is not
  redacted.
\<close>

theorem sanitized_passes_walk: "walk_keys (sanitize d) = []"
proof (induction d rule: sanitize.induct)
  case (1 d)
  have forbidden: "list_all (\<lambda>k. k \<notin> set SECRET_KEY_EXCEPTIONS \<and> list_ex (\<lambda>m. substring m k) SECRET_KEY_MARKERS)
    FORBIDDEN_KEYS" by code_simp
  have "is_secret_key k" if "lower k \<in> set FORBIDDEN_KEYS" for k
    using that forbidden unfolding is_secret_key_def list_all_iff by blast
  with 1 show ?case by (auto simp: REDACTION_MARKER_def)
qed simp_all

text \<open>The check sorts the values it observed for its report: one manifest without the field stops the audit.\<close>

lemma missing_field_raises:
  "locked_field title example_formal_lock [JObj [(''room_version'', JStr ''10'')], JObj []] ''room_version'' = Inl ValueError"
proof -
  have "frozen_at example_formal_lock ''room_version'' = Inr (JStr ROOM_VERSION)"
    by (simp add: frozen_at_def sub_get_def example_formal_lock_def obj_get_def) (simp add: frozen_parameters_def)
  then show ?thesis by (simp add: locked_field_def field_values_def obj_get_def value_of_def hashable_def sortable_def)
qed

end
