(* ===== verification/Schemas.thy ===== *)
theory Schemas
  imports Human_Objects Runner
begin

text \<open>
  The schemas under \<^verbatim>\<open>results/schemas\<close> that raw records and manifests must satisfy, the JSON
  that \<^verbatim>\<open>src/fam/instrumentation/streams.py\<close> makes of a record, and the theorems that
  what the program writes satisfies them. \<open>conforms\<close> is the meaning the 2020-12 draft gives
  to the keywords the schemas use; titles and descriptions say nothing.
\<close>

section \<open>Schemas\<close>

datatype json_type = T_string | T_integer | T_boolean | T_null | T_array | T_object

datatype pattern = Run_id | Fam_prefix | Hex64

datatype schema =
    Type_in "json_type list"
  | Const json
  | Enum "json list"
  | Minimum rat
  | Maximum rat
  | Min_items nat
  | Pattern pattern
  | Required "string list"
  | Properties "(string \<times> schema) list"
  | Items schema
  | All "schema list"
  | Any "schema list"
  | Not schema
  | If schema schema schema

text \<open>A number with no fraction is an integer.\<close>

definition has_type :: "json \<Rightarrow> json_type \<Rightarrow> bool" where
  "has_type v t = (case v of
     JNull \<Rightarrow> t = T_null | JBool _ \<Rightarrow> t = T_boolean | JNum n \<Rightarrow> t = T_integer \<and> of_int \<lfloor>n\<rfloor> = n
   | JStr _ \<Rightarrow> t = T_string | JList _ \<Rightarrow> t = T_array | JObj _ \<Rightarrow> t = T_object)"

definition run_id_char :: "char \<Rightarrow> bool" where
  "run_id_char c \<longleftrightarrow> is_alpha c \<or> is_digit c \<or> c \<in> set ''._:-''"

text \<open>The \<open>$\<close> of the engine the validator uses also matches before a final newline.\<close>

definition whole :: "(string \<Rightarrow> bool) \<Rightarrow> string \<Rightarrow> bool" where
  "whole P s \<longleftrightarrow> P s \<or> (s \<noteq> [] \<and> last s = newline \<and> P (butlast s))"

fun matches :: "pattern \<Rightarrow> string \<Rightarrow> bool" where
  "matches Run_id s = whole (\<lambda>t. t \<noteq> [] \<and> list_all run_id_char t) s"
| "matches Fam_prefix s = (take 4 s = ''fam-'')"
| "matches Hex64 s = whole (\<lambda>t. length t = 64 \<and> list_all (\<lambda>c. is_digit c \<or> c \<in> set ''abcdef'') t) s"

fun conforms :: "schema \<Rightarrow> json \<Rightarrow> bool" where
  "conforms (Type_in ts) v = list_ex (has_type v) ts"
| "conforms (Const x) v = (v = x)"
| "conforms (Enum xs) v = (v \<in> set xs)"
| "conforms (Minimum m) v = (case v of JNum n \<Rightarrow> m \<le> n | _ \<Rightarrow> True)"
| "conforms (Maximum m) v = (case v of JNum n \<Rightarrow> n \<le> m | _ \<Rightarrow> True)"
| "conforms (Min_items k) v = (case v of JList xs \<Rightarrow> k \<le> length xs | _ \<Rightarrow> True)"
| "conforms (Pattern p) v = (case v of JStr s \<Rightarrow> matches p s | _ \<Rightarrow> True)"
| "conforms (Required ks) v = (case v of JObj d \<Rightarrow> list_all (\<lambda>k. map_of d k \<noteq> None) ks | _ \<Rightarrow> True)"
| "conforms (Properties ps) v = (case v of
     JObj d \<Rightarrow> (\<forall>(k, s) \<in> set ps. case map_of d k of None \<Rightarrow> True | Some x \<Rightarrow> conforms s x) | _ \<Rightarrow> True)"
| "conforms (Items s) v = (case v of JList xs \<Rightarrow> list_all (conforms s) xs | _ \<Rightarrow> True)"
| "conforms (All ss) v = list_all (\<lambda>s. conforms s v) ss"
| "conforms (Any ss) v = list_ex (\<lambda>s. conforms s v) ss"
| "conforms (Not s) v = (\<not> conforms s v)"
| "conforms (If c t e) v = (if conforms c v then conforms t v else conforms e v)"

definition RUN_MANIFEST_SCHEMA :: schema where
  "RUN_MANIFEST_SCHEMA = All [Type_in [T_object], Required [''manifest_type'', ''manifest_schema_version'', ''experiment'',
      ''execution_protocol_version'', ''execution_analysis_spec_version'', ''protocol_git_commit'',
      ''raw_schema_version'', ''publication_data'', ''run_id'', ''room_id'', ''room_version'', ''participants'',
      ''execution_host_identifier'', ''start_timestamp'', ''completion_status'', ''validity_classification''],
      Properties [
      (''manifest_type'', All [Type_in [T_string], Enum [JStr ''automated_experiment_manifest'',
      JStr ''human_llm_validation_manifest'']]),
      (''manifest_schema_version'', Const (JStr ''1'')),
      (''experiment'', Type_in [T_string]),
      (''execution_protocol_version'', Type_in [T_string]),
      (''execution_analysis_spec_version'', Type_in [T_string]),
      (''protocol_git_commit'', Type_in [T_string]),
      (''raw_schema_version'', All [Type_in [T_string], Enum [JStr ''1'', JStr ''2'']]),
      (''publication_data'', Type_in [T_boolean]),
      (''run_id'', Type_in [T_string]),
      (''room_id'', Type_in [T_string]),
      (''room_version'', Const (JStr ''12'')),
      (''participants'', Type_in [T_object]),
      (''environment_manifest'', Type_in [T_string, T_null]),
      (''execution_host_identifier'', Type_in [T_string]),
      (''start_timestamp'', Type_in [T_string]),
      (''completion_timestamp'', Type_in [T_string, T_null]),
      (''completion_status'', Type_in [T_string]),
      (''validity_classification'', All [Type_in [T_object], Required [''valid'', ''invalid_class''], Properties [
        (''valid'', Type_in [T_boolean]),
        (''invalid_class'', All [Type_in [T_string, T_null], Enum [JNull, JStr ''protocol_lock_mismatch'',
      JStr ''execution_precondition_violation'', JStr ''frozen_configuration_error'',
      JStr ''instrumentation_or_output_failure'', JStr ''runner_implementation_failure'',
      JStr ''infrastructure_failure'', JStr ''environment_corruption'', JStr ''external_interference'',
      JStr ''external_dependency_or_client_environment_failure'']]),
        (''note'', Type_in [T_string])]]),
      (''raw_artifacts'', All [Type_in [T_array], Min_items 1, Items (All [Type_in [T_object], Required [''role'',
      ''path'', ''sha256''], Properties [
         (''role'', Type_in [T_string]),
         (''path'', Type_in [T_string]),
         (''sha256'', All [Type_in [T_string], Pattern Hex64]),
         (''bytes'', All [Type_in [T_integer], Minimum 0])]])]),
      (''human_client_name'', Type_in [T_string]),
      (''human_client_version'', Type_in [T_string]),
      (''human_client_host'', Type_in [T_string]),
      (''llm_provider'', Type_in [T_string]),
      (''llm_model'', Type_in [T_string]),
      (''agent_configuration_hash'', All [Type_in [T_string], Pattern Hex64]),
      (''executor_identifier'', All [Type_in [T_string], Enum [JStr ''deterministic'', JStr ''llm'']]),
      (''interaction_event_ids'', All [Type_in [T_array], Items (All [Type_in [T_object],
      Required [''request_event_id'', ''request_sender''], Properties [
         (''request_event_id'', Type_in [T_string]),
         (''request_sender'', Type_in [T_string]),
         (''response_event_id'', Type_in [T_string, T_null]),
         (''response_sender'', Type_in [T_string]),
         (''llm_provider'', Type_in [T_string]),
         (''llm_model'', Type_in [T_string])]])]),
      (''evidence_artifacts'', All [Type_in [T_array], Items (All [Type_in [T_object], Required [''role'', ''path'',
      ''sha256''], Properties [
         (''role'', All [Type_in [T_string], Enum [JStr ''transcript'', JStr ''screenshot'']]),
         (''path'', Type_in [T_string]),
         (''sha256'', All [Type_in [T_string], Pattern Hex64]),
         (''bytes'', All [Type_in [T_integer], Minimum 0]),
         (''note'', Type_in [T_string])]])]),
      (''functional_result'', All [Type_in [T_string], Enum [JStr ''pass'', JStr ''fail'']]),
      (''three_party_topology_confirmed'', Type_in [T_boolean])], All [If (All [Properties [
        (''manifest_type'', Const (JStr ''human_llm_validation_manifest''))],
      Required [''manifest_type'']]) (All [Required [''human_client_name'', ''human_client_version'',
      ''human_client_host'', ''llm_provider'', ''llm_model'', ''agent_configuration_hash'', ''executor_identifier'',
      ''interaction_event_ids'', ''evidence_artifacts'', ''functional_result'', ''three_party_topology_confirmed''],
      Not (Any [Required [''window_start_ns''], Required [''window_end_ns''], Required [''concurrency''],
      Required [''max_in_flight'']])]) (All []), If (All [Properties [
        (''manifest_type'', Const (JStr ''automated_experiment_manifest''))],
      Required [''manifest_type'']]) (All [Required [''raw_artifacts'', ''topology''],
      Not (Required [''evidence_artifacts''])]) (All [])]]"

definition RUNNER_RECORD_SCHEMA :: schema where
  "RUNNER_RECORD_SCHEMA = All [Type_in [T_object], Required [''schema_version'', ''stream'', ''experiment'', ''run_id''], Properties [
      (''schema_version'', Const (JStr ''2'')),
      (''stream'', Const (JStr ''runner'')),
      (''experiment'', Type_in [T_string]),
      (''topology'', All [Type_in [T_string], Enum [JStr ''same-domain'', JStr ''federated'', JStr ''local'']]),
      (''run_id'', All [Type_in [T_string], Pattern Run_id]),
      (''sequence_id'', All [Type_in [T_integer], Minimum 0]),
      (''run_phase'', Type_in [T_string]),
      (''request_class'', Type_in [T_string]),
      (''room_id'', Type_in [T_string]),
      (''sender'', Type_in [T_string]),
      (''receiver_role'', Type_in [T_string]),
      (''request_txn_id'', All [Type_in [T_string], Pattern Fam_prefix]),
      (''request_event_id'', Type_in [T_string, T_null]),
      (''response_txn_id'', Type_in [T_string, T_null]),
      (''response_event_id'', Type_in [T_string, T_null]),
      (''initiated_monotonic_ns'', Type_in [T_integer]),
      (''completed_monotonic_ns'', Type_in [T_integer, T_null]),
      (''outcome'', All [Type_in [T_string], Enum [JStr ''success'', JStr ''timeout'', JStr ''send_error'',
      JStr ''malformed_response'', JStr ''unexpected_response'', JStr ''runner_error'', JStr ''offline_send'']]),
      (''note'', Type_in [T_string]),
      (''record_type'', All [Type_in [T_string], Enum [JStr ''interaction'', JStr ''marker'']]),
      (''marker'', Type_in [T_string]),
      (''monotonic_ns'', Type_in [T_integer]),
      (''workload'', All [Type_in [T_string], Enum [JStr ''latency'', JStr ''throughput'']]),
      (''block_id'', Type_in [T_string]),
      (''within_block_order'', All [Type_in [T_integer], Minimum 1, Maximum 2]),
      (''concurrency'', All [Type_in [T_integer], Minimum 1]),
      (''message_body_bytes'', Type_in [T_integer]),
      (''phase'', All [Type_in [T_string], Enum [JStr ''warmup'', JStr ''window'', JStr ''drain'',
      JStr ''measured'']]),
      (''window_start_ns'', Type_in [T_integer, T_null]),
      (''window_end_ns'', Type_in [T_integer, T_null]),
      (''live_recovery_episode'', Type_in [T_integer, T_null]),
      (''send_errcode'', Type_in [T_string]),
      (''late_ack_monotonic_ns'', Type_in [T_integer, T_null]),
      (''ack_count'', All [Type_in [T_integer], Minimum 0]),
      (''duplicate_ack_count'', All [Type_in [T_integer], Minimum 0]),
      (''duplicate_ack_event_ids'', All [Type_in [T_array], Items (Type_in [T_string])])],
      Not (Any [Required [''counted_in_window''], Required [''measurement_start''], Required [''measurement_end'']]),
      All [If (All [Properties [
        (''record_type'', Const (JStr ''marker''))],
      Required [''record_type'']]) (Required [''marker'']) (Required [''topology'', ''sequence_id'', ''run_phase'',
      ''room_id'', ''sender'', ''request_txn_id'', ''initiated_monotonic_ns'', ''outcome'', ''ack_count'',
      ''duplicate_ack_count''])]]"

section \<open>Records as JSON\<close>

definition nat_num :: "nat option \<Rightarrow> json" where
  "nat_num v = opt_num (map_option int v)"

definition num :: "int \<Rightarrow> json" where
  "num n = JNum (of_int n)"

text \<open>The dictionary \<open>runner_record\<close> returns; raw data of version 1 has no duplicate count.\<close>

definition runner_record_json :: "'a runner_record_scheme \<Rightarrow> (string, json) dict" where
  "runner_record_json r =
     [(''record_type'', JStr ''interaction''), (''experiment'', JStr (rr_experiment r)), (''topology'', JStr (rr_topology r)),
      (''run_id'', JStr (rr_run_id r)), (''sequence_id'', num (rr_sequence_id r)), (''run_phase'', JStr (rr_run_phase r)),
      (''request_class'', JStr (rr_request_class r)), (''room_id'', JStr (rr_room_id r)), (''sender'', JStr (rr_sender r)),
      (''receiver_role'', JStr (rr_receiver_role r)), (''request_txn_id'', JStr (rr_request_txn_id r)),
      (''request_event_id'', opt_str (rr_request_event_id r)), (''response_txn_id'', opt_str (rr_response_txn_id r)),
      (''response_event_id'', opt_str (rr_response_event_id r)), (''initiated_monotonic_ns'', num (initiated_ns r)),
      (''completed_monotonic_ns'', opt_num (completed_ns r)), (''outcome'', JStr (outcome r)), (''note'', JStr (rr_note r)),
      (''ack_count'', num (int (ack_count r))), (''duplicate_ack_count'', nat_num (duplicate_ack_count r)),
      (''duplicate_ack_event_ids'', JList (map JStr (duplicate_ack_event_ids r)))]"

definition benchmark_record_json :: "benchmark_record \<Rightarrow> (string, json) dict" where
  "benchmark_record_json b = dict_update (runner_record_json b)
     [(''workload'', JStr (workload b)), (''block_id'', JStr (block_id b)),
      (''within_block_order'', num (int (within_block_order b))), (''concurrency'', num (int (concurrency b))),
      (''message_body_bytes'', num (message_body_bytes b)), (''phase'', JStr (phase b)),
      (''window_start_ns'', opt_num (rec_window_start b)), (''window_end_ns'', opt_num (rec_window_end b)),
      (''live_recovery_episode'', nat_num (live_recovery_episode b)), (''send_errcode'', JStr (send_errcode b)),
      (''late_ack_monotonic_ns'', opt_num (late_ack_ns b)), (''ack_count'', num (int (ack_count b))),
      (''duplicate_ack_count'', nat_num (duplicate_ack_count b)),
      (''duplicate_ack_event_ids'', JList (map JStr (duplicate_ack_event_ids b)))]"

definition runner_marker :: "string \<Rightarrow> string \<Rightarrow> string \<Rightarrow> (string, json) dict \<Rightarrow> (string, json) dict" where
  "runner_marker experiment rid marker extra = dict_update
     [(''record_type'', JStr ''marker''), (''experiment'', JStr experiment), (''run_id'', JStr rid), (''marker'', JStr marker)]
     extra"

text \<open>The line of a runner stream that holds a record.\<close>

definition runner_line :: "(string, json) dict \<Rightarrow> json" where
  "runner_line r = JObj (last (lines_written (stream_write (JStr RAW_SCHEMA_VERSION) r
     \<lparr>stream_kind = JStr ''runner'', lines_written = []\<rparr>)))"

section \<open>What the engine writes\<close>

lemma runner_line_get:
  assumes "dict_ok r"
  obtains d where "runner_line r = JObj d" and "\<And>k. map_of d k = (case map_of r k of Some v \<Rightarrow> Some v
     | None \<Rightarrow> map_of [(''schema_version'', JStr RAW_SCHEMA_VERSION), (''stream'', JStr ''runner'')] k)"
proof
  show "runner_line r = JObj (dict_update [(''schema_version'', JStr RAW_SCHEMA_VERSION), (''stream'', JStr ''runner'')] r)"
    by (simp add: runner_line_def stream_write_def)
  show "map_of (dict_update [(''schema_version'', JStr RAW_SCHEMA_VERSION), (''stream'', JStr ''runner'')] r) k =
    (case map_of r k of Some v \<Rightarrow> Some v
     | None \<Rightarrow> map_of [(''schema_version'', JStr RAW_SCHEMA_VERSION), (''stream'', JStr ''runner'')] k)" for k
    by (simp add: map_of_dict_update assms map_add_def fun_upd_def split: option.split)
qed

lemma conforms_obj:
  "conforms (Required ks) (JObj d) \<longleftrightarrow> list_all (\<lambda>k. map_of d k \<noteq> None) ks"
  "conforms (Properties ps) (JObj d) \<longleftrightarrow> list_all (\<lambda>(k, s). case map_of d k of None \<Rightarrow> True | Some x \<Rightarrow> conforms s x) ps"
  by (simp_all add: list_all_iff)

lemma has_type_simps [simp]:
  "has_type JNull T_null" "has_type (JStr s) T_string" "has_type (JBool b) T_boolean" "has_type (JList xs) T_array"
  "has_type (JObj d) T_object" "has_type (num n) T_integer" "has_type (JNum (of_int n)) T_integer"
  "has_type (JNum (of_nat k)) T_integer"
  by (simp_all add: has_type_def num_def)

lemma opt_str_type [simp]: "has_type (opt_str v) T_string \<or> has_type (opt_str v) T_null"
  by (cases v) (simp_all add: opt_str_def)

lemma opt_num_type [simp]: "has_type (opt_num v) T_integer \<or> has_type (opt_num v) T_null"
  by (cases v) (simp_all add: opt_num_def)

lemma fam_prefix: "txn_id c direction = Inr t \<Longrightarrow> take 4 t = ''fam-''"
  by (auto simp: txn_id_def rbind_eq_Inr split: if_splits)

lemma outcome_values: "outcome_value out \<in> set [''success'', ''timeout'', ''send_error'',
    ''malformed_response'', ''unexpected_response'', ''runner_error'', ''offline_send'']"
  by (cases out) simp_all

text \<open>What the schema asks of a record beyond the types its fields have anyway.\<close>

definition record_in_range :: "benchmark_record \<Rightarrow> bool" where
  "record_in_range b \<longleftrightarrow> rr_topology b \<in> set [''same-domain'', ''federated'', ''local''] \<and> matches Run_id (rr_run_id b) \<and>
     0 \<le> rr_sequence_id b \<and> take 4 (rr_request_txn_id b) = ''fam-'' \<and>
     outcome b \<in> set [''success'', ''timeout'', ''send_error'', ''malformed_response'', ''unexpected_response'',
       ''runner_error'', ''offline_send''] \<and>
     workload b \<in> set [''latency'', ''throughput''] \<and> within_block_order b \<in> set [1, 2] \<and> 1 \<le> concurrency b \<and>
     phase b \<in> set [''warmup'', ''window'', ''drain'', ''measured''] \<and> duplicate_ack_count b \<noteq> None"

lemma benchmark_record_get:
  "map_of (benchmark_record_json b) k = (case map_of
     [(''workload'', JStr (workload b)), (''block_id'', JStr (block_id b)),
      (''within_block_order'', num (int (within_block_order b))), (''concurrency'', num (int (concurrency b))),
      (''message_body_bytes'', num (message_body_bytes b)), (''phase'', JStr (phase b)),
      (''window_start_ns'', opt_num (rec_window_start b)), (''window_end_ns'', opt_num (rec_window_end b)),
      (''live_recovery_episode'', nat_num (live_recovery_episode b)), (''send_errcode'', JStr (send_errcode b)),
      (''late_ack_monotonic_ns'', opt_num (late_ack_ns b)), (''ack_count'', num (int (ack_count b))),
      (''duplicate_ack_count'', nat_num (duplicate_ack_count b)),
      (''duplicate_ack_event_ids'', JList (map JStr (duplicate_ack_event_ids b)))] k of Some v \<Rightarrow> Some v
     | None \<Rightarrow> map_of (runner_record_json b) k)"
  unfolding benchmark_record_json_def by (subst map_of_dict_update) (simp_all add: dict_ok_def map_add_def)

lemma benchmark_record_ok: "dict_ok (benchmark_record_json b)"
  unfolding benchmark_record_json_def by (rule dict_ok_dict_update) (simp add: dict_ok_def runner_record_json_def)

lemma record_in_range_conforms:
  assumes "record_in_range b"
  shows "conforms RUNNER_RECORD_SCHEMA (runner_line (benchmark_record_json b))"
proof -
  obtain d where line: "runner_line (benchmark_record_json b) = JObj d" and
    get: "\<And>k. map_of d k = (case map_of (benchmark_record_json b) k of Some v \<Rightarrow> Some v
     | None \<Rightarrow> map_of [(''schema_version'', JStr RAW_SCHEMA_VERSION), (''stream'', JStr ''runner'')] k)"
    by (rule runner_line_get [OF benchmark_record_ok]) (rule that)
  obtain n where n: "duplicate_ack_count b = Some n" using assms by (auto simp: record_in_range_def)
  have "within_block_order b \<in> set [1, 2]" using assms by (simp add: record_in_range_def)
  then have order: "Suc 0 \<le> within_block_order b" "within_block_order b \<le> 2" by auto
  show ?thesis
    unfolding line RUNNER_RECORD_SCHEMA_def
    using assms
    by (simp add: conforms_obj get benchmark_record_get runner_record_json_def record_in_range_def n nat_num_def
      opt_num_def [of "Some _"] RAW_SCHEMA_VERSION_def list_all_iff num_def order del: conforms.simps(8,9))
qed

text \<open>The runs of the schedule.\<close>

definition schedulable :: "scheduled_run \<Rightarrow> bool" where
  "schedulable r \<longleftrightarrow> sr_topology r \<in> {E3_TOPOLOGY_LOCAL, E3_TOPOLOGY_FEDERATED} \<and>
     sr_workload r \<in> {E3_WORKLOAD_LATENCY, E3_WORKLOAD_THROUGHPUT} \<and> sr_within_block_order r \<in> {1, 2} \<and> 1 \<le> sr_concurrency r"

lemma runs_from_schedulable:
  assumes "w \<in> {E3_WORKLOAD_LATENCY, E3_WORKLOAD_THROUGHPUT}" and "1 \<le> c" and "r \<in> set (runs_from w c n os)"
  shows "schedulable r"
  using assms(3)
proof (induction os arbitrary: n)
  case (Cons b os)
  then show ?case using assms(1,2) by (auto simp: block_runs_eq block_order_def schedulable_def)
qed simp

lemma campaign_schedulable:
  assumes "sched \<in> set (generate_campaign_schedule shuffle seed blocks levels workloads)" and "0 \<notin> set levels"
  shows "schedulable sched"
proof -
  have lat: "schedulable sched" if "sched \<in> set (runs_from E3_WORKLOAD_LATENCY E3_LATENCY_MAX_IN_FLIGHT n os)" for n os
    by (rule runs_from_schedulable [OF _ _ that]) (simp_all add: E3_LATENCY_MAX_IN_FLIGHT_def)
  have thr: "schedulable sched" if "c \<in> set levels" "sched \<in> set (runs_from E3_WORKLOAD_THROUGHPUT c n os)" for c n os
  proof (rule runs_from_schedulable [OF _ _ that(2)])
    have "c \<noteq> 0" using that(1) assms(2) by (intro notI) simp
    then show "1 \<le> c" by simp
  qed simp
  from assms(1) show ?thesis
    unfolding generate_campaign_schedule_def workload_schedule_eq by (auto split: if_splits intro: lat thr)
qed

lemma interaction_record_in_range:
  assumes "interaction_record cfg it ph ws we = Inr b" and "own_txn it" and "0 \<le> sequence_id (it_correlation it)"
    and "ph \<in> {PHASE_WARMUP, PHASE_WINDOW, PHASE_DRAIN, PHASE_MEASURED}" and "schedulable sched"
    and "cfg = (config_of sched rid topo opts)\<lparr>rc_room_id := room\<rparr>" and "topology (sr_topology sched) = Inr topo"
    and "matches Run_id rid"
  shows "record_in_range b"
proof -
  have "bt_name topo \<in> set [''same-domain'', ''federated'', ''local'']"
    using assms(7) by (auto simp: topology_Inr LOCAL_def FEDERATED_def topology_names)
  moreover have "take 4 (it_request_txn_id it) = ''fam-''" using assms(2) fam_prefix by (auto simp: own_txn_def)
  moreover have "ph \<in> set [''warmup'', ''window'', ''drain'', ''measured'']" using assms(4) by (auto simp: phase_names)
  moreover have "rr_topology b = bt_name topo \<and> rr_run_id b = rid \<and> rr_sequence_id b = sequence_id (it_correlation it) \<and>
      rr_request_txn_id b = it_request_txn_id it \<and> outcome b = outcome_value (outcome_of it) \<and>
      workload b = sr_workload sched \<and> within_block_order b = sr_within_block_order sched \<and>
      concurrency b = sr_concurrency sched \<and> phase b = ph \<and> duplicate_ack_count b \<noteq> None"
    using assms(1) by (auto simp: interaction_record_def rbind_eq_Inr make_benchmark_record_def runner_record.defs
      benchmark_record.defs assms(6) config_of_def)
  moreover have "sr_workload sched \<in> set [''latency'', ''throughput'']" "sr_within_block_order sched \<in> set [1, 2]"
    "1 \<le> sr_concurrency sched" using assms(5) by (auto simp: schedulable_def workload_names)
  ultimately show ?thesis
    using assms(3,8) outcome_values [of "outcome_of it"] by (simp only: record_in_range_def) simp
qed

section \<open>What the runner's manifest holds\<close>

definition hex_digests :: "file_system \<Rightarrow> bool" where
  "hex_digests fs \<longleftrightarrow> (\<forall>p digest bytes. fs p = Some (digest, bytes) \<longrightarrow> matches Hex64 digest)"

text \<open>What the schema asks of an artifact.\<close>

definition artifact_schema :: schema where
  "artifact_schema = All [Type_in [T_object], Required [''role'', ''path'', ''sha256''], Properties [
     (''role'', Type_in [T_string]), (''path'', Type_in [T_string]),
     (''sha256'', All [Type_in [T_string], Pattern Hex64]),
     (''bytes'', All [Type_in [T_integer], Minimum 0])]]"

lemma artifact_conforms:
  assumes "artifact_to_dict fs base a = Inr d" and "hex_digests fs"
  shows "conforms artifact_schema (JObj d)"
proof -
  from assms(1) obtain digest bytes where f: "fs (ra_path a) = Some (digest, bytes)"
    and d: "d = [(''role'', JStr (ra_role a)), (''path'', JStr (relative_name base (ra_path a))),
       (''sha256'', JStr digest), (''bytes'', JNum (of_nat bytes))]"
    by (auto simp: artifact_to_dict_def split: option.splits)
  from f assms(2) have "matches Hex64 digest" unfolding hex_digests_def by blast
  then show ?thesis by (simp add: d artifact_schema_def conforms_obj del: matches.simps conforms.simps(8,9))
qed

lemma artifacts_conform:
  "sequence (map (artifact_to_dict fs base) as) = Inr ds \<Longrightarrow> hex_digests fs \<Longrightarrow>
     length ds = length as \<and> list_all (conforms artifact_schema) (map JObj ds)"
proof (induction as arbitrary: ds)
  case (Cons a as)
  then obtain d ds' where "artifact_to_dict fs base a = Inr d" "sequence (map (artifact_to_dict fs base) as) = Inr ds'"
    "ds = d # ds'" by (auto simp: rbind_eq_Inr)
  with Cons.IH [of ds'] Cons.prems(2) show ?case by (simp add: artifact_conforms)
qed simp

section \<open>Properties\<close>

text \<open>
  C26: Every record the benchmark engine writes satisfies the schema of raw runner records.
  Whatever a participant did to reach an interaction, and whatever became of it, the line
  of its record under a run of the schedule has every required field and the type, range,
  pattern or enumeration the schema demands of each.
\<close>

theorem engine_records_conform:
  assumes "human_steps new_human h" and "it \<in> set (h_objects h)"
    and "make_correlation e r n = Inr (it_correlation it)"
    and "sched \<in> set (generate_campaign_schedule shuffle seed blocks levels workloads)" and "0 \<notin> set levels"
    and "topology (sr_topology sched) = Inr topo" and "matches Run_id rid"
    and "cfg = (config_of sched rid topo opts)\<lparr>rc_room_id := room\<rparr>"
    and "ph \<in> {PHASE_WARMUP, PHASE_WINDOW, PHASE_DRAIN, PHASE_MEASURED}"
    and "interaction_record cfg it ph ws we = Inr b"
  shows "conforms RUNNER_RECORD_SCHEMA (runner_line (benchmark_record_json b))"
proof (rule record_in_range_conforms)
  have "0 \<le> sequence_id (it_correlation it)"
    using assms(3) by (auto simp: make_correlation_def rbind_eq_Inr split: if_splits dest!: sym [where t = "it_correlation it"])
  from interaction_record_in_range [OF assms(10) txns.reached [OF assms(1,2)] this assms(9)
      campaign_schedulable [OF assms(4,5)] assms(8,6,7)] show "record_in_range b" .
qed

text \<open>
  C27: The manifest of every run conforms to the schema of formal manifests: if the streams
  the runner names exist with digests of 64 hexadecimal digits and there is at least one,
  the document it writes has every field the schema requires of an automated experiment,
  each of its type and among the values allowed, and none that is only for E4, whatever the
  run went through.
\<close>

theorem run_manifest_conforms:
  assumes "run_to_dict host fs (evidence_manifest fs' telemetry ctx topo now cfg run) = Inr doc"
    and "hex_digests fs" and "stream_artifacts fs' ctx run \<noteq> []"
  shows "conforms RUN_MANIFEST_SCHEMA doc"
proof -
  let ?m = "evidence_manifest fs' telemetry ctx topo now cfg run"
  obtain d arts where doc: "doc = JObj d" and get: "\<And>k. map_of d k =
    (case map_of (rev (manifest_extra ctx cfg (run\<lparr>br_agent_transport := agent_transport_summary telemetry\<rparr>))) k of
       Some v \<Rightarrow> Some v
     | None \<Rightarrow> map_of (envelope_dict AUTOMATED host (br_validity run) ?m @
         [(''topology'', JStr (bt_name topo)), (''raw_artifacts'', JList (map JObj arts))]) k)"
    and arts: "sequence (map (artifact_to_dict fs (cc_results_root ctx)) (stream_artifacts fs' ctx run)) = Inr arts"
    by (rule evidence_get [OF assms(1)]) (rule that)
  from artifacts_conform [OF arts assms(2)] assms(3) have list: "1 \<le> length arts"
    "list_all (conforms artifact_schema) (map JObj arts)"
    by (auto simp: Suc_le_eq)
  have cls: "opt_str (map_option invalid_class_value (invalid_class (br_validity run))) \<in> set [JNull, JStr ''protocol_lock_mismatch'',
     JStr ''execution_precondition_violation'', JStr ''frozen_configuration_error'', JStr ''instrumentation_or_output_failure'',
     JStr ''runner_implementation_failure'', JStr ''infrastructure_failure'', JStr ''environment_corruption'',
     JStr ''external_interference'', JStr ''external_dependency_or_client_environment_failure'']"
  proof (cases "invalid_class (br_validity run)")
    case (Some c)
    then show ?thesis by (cases c) (simp_all add: opt_str_def)
  qed (simp add: opt_str_def)
  note free = extra_free [of ctx cfg "run\<lparr>br_agent_transport := agent_transport_summary telemetry\<rparr>", simplified]
  show ?thesis
    unfolding doc RUN_MANIFEST_SCHEMA_def artifact_schema_def [symmetric]
    using list cls
    by (simp add: conforms_obj get free envelope_dict_def validity_json_def validity_to_manifest_def strings_def
      MANIFEST_SCHEMA_VERSION_def RAW_SCHEMA_VERSION_def ROOM_VERSION_def AUTOMATED_def del: conforms.simps(8,9))
qed

theorem run_manifest_conforms_witness:
  "\<exists>run cfg doc. execute_benchmark_run example_world [] ''2026'' default_options example_scheduled ''r1'' = Inr (run, cfg) \<and>
     run_to_dict ''h'' (\<lambda>_. Some (replicate 64 CHR ''a'', 1)) (evidence_manifest (\<lambda>_. Some (replicate 64 CHR ''a'', 1)) []
       example_context FEDERATED ''2027'' cfg run) = Inr doc \<and> conforms RUN_MANIFEST_SCHEMA doc"
proof -
  let ?fs = "\<lambda>_. Some (replicate 64 CHR ''a'', 1)"
  from example_run obtain run cfg where r: "execute_benchmark_run example_world [] ''2026'' default_options
      example_scheduled ''r1'' = Inr (run, cfg)" "br_started_at run = ''2026''" by blast
  let ?m = "evidence_manifest ?fs [] example_context FEDERATED ''2027'' cfg run"
  have "en_validity ?m = Some (br_validity run)" "en_completed_at ?m = Some ''2027''" "en_started_at ?m = ''2026''"
    by (simp_all add: evidence_manifest_def Let_def r(2))
  moreover have "''2026'' \<le> ''2027''" by code_simp
  moreover have "\<exists>arts. sequence (map (artifact_to_dict ?fs base) as) = Inr arts" for base as
    by (induction as) (auto simp: artifact_to_dict_def)
  ultimately obtain doc where doc: "run_to_dict ''h'' ?fs ?m = Inr doc"
    by (fastforce simp: run_to_dict_def with_validity_Inr rbind_eq_Inr)
  have "matches Hex64 (replicate 64 CHR ''a'')" by code_simp
  then have "hex_digests ?fs" by (simp add: hex_digests_def del: matches.simps)
  moreover have "stream_artifacts ?fs example_context run \<noteq> []" by (simp add: stream_artifacts_def)
  ultimately have "conforms RUN_MANIFEST_SCHEMA doc" by (rule run_manifest_conforms [OF doc])
  with r(1) doc show ?thesis by blast
qed

definition example_slot :: scheduled_run where
  "example_slot = \<lparr>sr_workload = E3_WORKLOAD_LATENCY, sr_block_id = make_block_id E3_WORKLOAD_LATENCY 1 1, sr_block_index = 1,
     sr_within_block_order = 1, sr_topology = E3_TOPOLOGY_FEDERATED, sr_concurrency = 1\<rparr>"

definition example_slot_config :: run_config where
  "example_slot_config = (config_of example_slot ''r1'' FEDERATED default_options)\<lparr>rc_room_id := ''!r''\<rparr>"

lemma example_slot_scheduled:
  "example_slot \<in> set (generate_campaign_schedule (\<lambda>_ xs. xs) 7 1 [1] [E3_WORKLOAD_LATENCY])"
  by (simp add: generate_campaign_schedule_def generate_workload_schedule_def counterbalanced_orders_def block_runs_eq
    block_order_def example_slot_def E3_LATENCY_MAX_IN_FLIGHT_def)

theorem engine_records_conform_witness:
  "\<exists>b. interaction_record example_slot_config (h_objects overtaken ! 0) PHASE_MEASURED None None = Inr b \<and>
     conforms RUNNER_RECORD_SCHEMA (runner_line (benchmark_record_json b))"
proof -
  let ?it = "h_objects overtaken ! 0"
  have "case txn_id (it_correlation ?it) ''response'' of Inr _ \<Rightarrow> True | Inl _ \<Rightarrow> False"
    unfolding overtaken_value by code_simp
  then obtain b where b: "interaction_record example_slot_config ?it PHASE_MEASURED None None = Inr b"
    by (auto simp: interaction_record_def split: sum.splits)
  have it: "?it \<in> set (h_objects overtaken)" using overtaken_object by (intro nth_mem) simp
  have "case make_correlation ''E3'' ''r1'' (sequence_id (it_correlation ?it)) of Inr c \<Rightarrow> c = it_correlation ?it | Inl _ \<Rightarrow> False"
    unfolding overtaken_value by code_simp
  then have c: "make_correlation ''E3'' ''r1'' (sequence_id (it_correlation ?it)) = Inr (it_correlation ?it)"
    by (simp split: sum.splits)
  have topo: "topology (sr_topology example_slot) = Inr FEDERATED" by (simp add: topology_Inr example_slot_def)
  have "matches Run_id ''r1''" by code_simp
  then have "conforms RUNNER_RECORD_SCHEMA (runner_line (benchmark_record_json b))"
    using engine_records_conform [OF overtaken_reached it c example_slot_scheduled _ topo _ example_slot_config_def _ b]
    by simp
  with b show ?thesis by blast
qed

end
