(* ===== verification/Pipeline.thy ===== *)
theory Pipeline
  imports Audit_Campaign Schemas E3_Evidence
begin

text \<open>
  \<^verbatim>\<open>scripts/verify_digests.py\<close> and \<^verbatim>\<open>scripts/analyse.py\<close>: from the results directory to the
  one verdict. The manifests are JSON documents with their file names, in the order of the
  names; a raw stream is its name with what \<open>load_jsonl\<close> makes of it; the validator of JSON
  schemas is an argument. What is only printed is left out.
\<close>

section \<open>Digests\<close>

datatype digest_problem = NoDirectory | NothingToVerify json | FileMissing json string | FileDiffers json string

definition items_or_empty :: "json \<Rightarrow> string \<Rightarrow> exn + json list" where
  "items_or_empty m k = (case obj_get m k of None \<Rightarrow> Inr [] | Some v \<Rightarrow> items_of v)"

definition telemetry_artifact :: "json \<Rightarrow> json list" where
  "telemetry_artifact m = (case obj_get m ''agent_telemetry'' of
     Some (JObj d) \<Rightarrow> if json_true (map_of d ''path'') then [JObj d] else []
   | _ \<Rightarrow> [])"

definition artifacts_of :: "json \<Rightarrow> exn + json list" where
  "artifacts_of m =
     rbind (items_or_empty m ''raw_artifacts'') (\<lambda>raw.
     rbind (items_or_empty m ''evidence_artifacts'') (\<lambda>evidence. Inr (raw @ evidence @ telemetry_artifact m)))"

definition verify_artifact :: "digests \<Rightarrow> json \<Rightarrow> json \<Rightarrow> exn + digest_problem option" where
  "verify_artifact file rid a =
     rbind (rbind (required a ''path'') text_of) (\<lambda>p. case file p of
       None \<Rightarrow> Inr (Some (FileMissing rid p))
     | Some actual \<Rightarrow> rbind (required a ''sha256'') (\<lambda>v.
         Inr (if py_eq (JStr actual) v then None else Some (FileDiffers rid p))))"

definition verify_manifest :: "digests \<Rightarrow> string \<times> json \<Rightarrow> exn + nat \<times> digest_problem list" where
  "verify_manifest file = (\<lambda>(stem, m).
     let rid = get_default m ''run_id'' (JStr stem) in
     if \<not> has_type m T_object then Inl ValueError else
     rbind (artifacts_of m) (\<lambda>as.
       if as = [] then Inr (0, [NothingToVerify rid])
       else rbind (sequence (map (verify_artifact file rid) as)) (\<lambda>found.
         Inr (length as, List.map_filter id found))))"

text \<open>\<open>verify\<close>: the artifacts checked, the failures and what they are; \<open>None\<close>: no directory.\<close>

definition verify_digests :: "digests \<Rightarrow> (string \<times> json) list option \<Rightarrow> exn + nat \<times> nat \<times> digest_problem list" where
  "verify_digests file manifests = (case manifests of
     None \<Rightarrow> Inr (0, 0, [NoDirectory])
   | Some ms \<Rightarrow> rbind (sequence (map (verify_manifest file) ms)) (\<lambda>results.
       let problems = concat (map snd results) in Inr (sum_list (map fst results), length problems, problems)))"

text \<open>The verdict of \<open>verify_digests.py\<close> itself.\<close>

definition digests_pass :: "nat \<times> nat \<times> digest_problem list \<Rightarrow> bool" where
  "digests_pass r \<longleftrightarrow> fst r \<noteq> 0 \<and> fst (snd r) = 0"

section \<open>Schemas\<close>

definition FORBIDDEN_RAW_FIELDS :: "string list" where "FORBIDDEN_RAW_FIELDS = [''counted_in_window'']"

datatype schema_file = Runner_v1 | Runner_v2 | Agent_records | Manifests

datatype schema_problem = NotJson string | EmptyStream string | DerivedField string nat | UnknownVersion string nat json
  | Violation string nat | ManifestViolation string

record raw_stream =
  rs_name :: string
  rs_loaded :: "json list option"

definition is_runner_stream :: "raw_stream \<Rightarrow> bool" where
  "is_runner_stream s \<longleftrightarrow> (let suffix = ''.runner.jsonl''; n = rs_name s in
     length suffix \<le> length n \<and> drop (length n - length suffix) n = suffix)"

definition runner_validator :: "json \<Rightarrow> schema_file option" where
  "runner_validator version = map_of [(JStr ''1'', Runner_v1), (JStr ''2'', Runner_v2)] version"

datatype stage_failure = Unavailable | Raised exn

text \<open>One record: its first problem, if it has one; the rest of the stream is then skipped.\<close>

definition validate_record ::
  "(schema_file \<Rightarrow> json \<Rightarrow> bool) \<Rightarrow> raw_stream \<Rightarrow> nat \<Rightarrow> json \<Rightarrow> stage_failure + schema_problem option" where
  "validate_record valid_for s i r = (case r of
     JObj d \<Rightarrow>
       if \<exists>k \<in> set FORBIDDEN_RAW_FIELDS. map_of d k \<noteq> None then Inr (Some (DerivedField (rs_name s) i))
       else
         (let declared = value_of (map_of d ''schema_version'') in
          if \<not> list_ex (\<lambda>v. py_eq (JStr v) declared) SUPPORTED_RAW_SCHEMA_VERSIONS
          then Inr (Some (UnknownVersion (rs_name s) i declared))
          else case (if is_runner_stream s then runner_validator declared else Some Agent_records) of
            None \<Rightarrow> Inl Unavailable
          | Some v \<Rightarrow> Inr (if valid_for v r then None else Some (Violation (rs_name s) i)))
   | _ \<Rightarrow> Inl (Raised ValueError))"

fun validate_records ::
  "(schema_file \<Rightarrow> json \<Rightarrow> bool) \<Rightarrow> raw_stream \<Rightarrow> nat \<Rightarrow> json list \<Rightarrow> stage_failure + schema_problem list" where
  "validate_records valid_for s i [] = Inr []"
| "validate_records valid_for s i (r # rs) = rbind (validate_record valid_for s i r) (\<lambda>p. case p of
     None \<Rightarrow> validate_records valid_for s (i + 1) rs | Some e \<Rightarrow> Inr [e])"

definition validate_stream ::
  "(schema_file \<Rightarrow> json \<Rightarrow> bool) \<Rightarrow> raw_stream \<Rightarrow> stage_failure + schema_problem list" where
  "validate_stream valid_for s = (case rs_loaded s of
     None \<Rightarrow> Inr [NotJson (rs_name s)]
   | Some rs \<Rightarrow> if rs = [] then Inr [EmptyStream (rs_name s)] else validate_records valid_for s 1 rs)"

text \<open>
  \<open>validate_streams\<close>: \<open>None\<close> for the validators if the library or a schema file is missing,
  which ends the stage before any record is read.
\<close>

definition validate_streams ::
  "(schema_file \<Rightarrow> json \<Rightarrow> bool) option \<Rightarrow> raw_stream list \<Rightarrow> (string \<times> json) list \<Rightarrow>
   stage_failure + schema_problem list" where
  "validate_streams validators streams ms = (case validators of
     None \<Rightarrow> Inl Unavailable
   | Some valid_for \<Rightarrow> rbind (sequence (map (validate_stream valid_for) streams)) (\<lambda>found.
       Inr (concat found @ map (\<lambda>(name, _). ManifestViolation name) (filter (\<lambda>(_, m). \<not> valid_for Manifests m) ms))))"

section \<open>Summaries of E0, E1, E2 and readiness\<close>

text \<open>Fields copied under their own or another name, and fields with a default.\<close>

definition copied :: "json \<Rightarrow> (string \<times> string) list \<Rightarrow> (string, json) dict" where
  "copied m ks = map (\<lambda>(new, old). (new, value_of (obj_get m old))) ks"

definition same :: "string list \<Rightarrow> (string \<times> string) list" where
  "same ks = map (\<lambda>k. (k, k)) ks"

definition with_empty :: "json \<Rightarrow> string list \<Rightarrow> (string, json) dict" where
  "with_empty m ks = map (\<lambda>k. (k, get_default m k (JList []))) ks"

definition source_digests :: "json \<Rightarrow> exn + json" where
  "source_digests m =
     rbind (items_or_empty m ''raw_artifacts'') (\<lambda>as.
     rbind (sequence (map (\<lambda>a. rbind (rbind (required a ''role'') text_of) (\<lambda>role.
       rbind (required a ''sha256'') (\<lambda>v. Inr (role, v)))) as)) (\<lambda>ps. Inr (JObj (dict_update [] ps))))"

definition identity_kept :: "json \<Rightarrow> json" where
  "identity_kept m = JBool (py_eq (value_of (obj_get m ''agent_identity_before_restart''))
     (value_of (obj_get m ''agent_identity_after_restart'')))"

definition e0_run :: "json \<Rightarrow> exn + (string, json) dict" where
  "e0_run m =
     rbind (required m ''run_id'') (\<lambda>rid.
     rbind (source_digests m) (\<lambda>digests. Inr
       ([(''run_id'', rid)] @ copied m (same [''room_id'', ''publication_data'', ''requests_sent'', ''requests_acked'',
          ''duplicate_acks'', ''agent_identity_before_restart'', ''agent_identity_after_restart'']) @
        [(''identity_stable'', identity_kept m)] @
        copied m [(''resumed_from_transport_checkpoint'', ''resumed_from_transport_checkpoint''),
          (''completion_status'', ''completion_status''), (''validity'', ''validity_classification'')] @
        with_empty m [''acceptance_failures''] @
        [(''c2_supporting_evidence_complete'', value_of (sub_get m ''c2_evidence'' ''c2_supporting_evidence_complete'')),
         (''source_digests'', digests)])))"

definition request_class :: "json \<Rightarrow> string \<Rightarrow> json" where
  "request_class m c = (let d = (case sub_get m ''request_classes'' c of None \<Rightarrow> JObj [] | Some v \<Rightarrow> v) in
     JObj (copied d [(''sender'', ''sender''), (''requests'', ''sent''), (''acks'', ''acked''), (''duplicates'', ''duplicates'')]))"

definition e1_run :: "json \<Rightarrow> exn + (string, json) dict" where
  "e1_run m =
     rbind (required m ''run_id'') (\<lambda>rid.
     rbind (source_digests m) (\<lambda>digests. Inr
       ([(''run_id'', rid)] @ copied m (same [''room_id'', ''publication_data'']) @
        [(''cross_domain'', request_class m ''cross_domain''), (''same_domain'', request_class m ''same_domain'')] @
        copied m (same [''a_requests_visible_on_b'', ''b_requests_visible_on_a'', ''expected_event_count'',
          ''domain_a_event_count'', ''domain_b_event_count'']) @
        with_empty m [''missing_on_a'', ''missing_on_b'', ''unexpected_on_a'', ''unexpected_on_b''] @
        copied m [(''event_set_equal'', ''event_set_equal''), (''membership_compatible'', ''membership_compatible''),
          (''membership_after_join'', ''membership_after_join''), (''validity'', ''validity_classification''),
          (''completion_status'', ''completion_status'')] @
        with_empty m [''acceptance_failures''] @
        copied m [(''comparison_artifact'', ''federation_comparison_artifact'')] @ [(''source_digests'', digests)])))"

definition e2_run :: "json \<Rightarrow> exn + (string, json) dict" where
  "e2_run m =
     rbind (required m ''run_id'') (\<lambda>rid.
     rbind (source_digests m) (\<lambda>digests. Inr
       ([(''run_id'', rid)] @ copied m (same [''room_id'', ''publication_data'', ''timeline_limit'']) @
        copied m [(''offline_sends_accepted'', ''sent_count'')] @
        copied m (same [''sync_limited'', ''recovered_from_sync'', ''recovered_from_history'', ''duplicate_observations'',
          ''pagination_invoked'', ''history_pages_fetched'', ''sent_count'', ''recovered_count'']) @
        with_empty m [''missing_from_recovery'', ''unexpected_in_recovery''] @
        copied m (same [''logically_processed'', ''ack_count'', ''duplicate_acks'']) @
        [(''identity_resumed'', identity_kept m)] @
        copied m [(''checkpoint_resumed'', ''checkpoint_resumed''), (''validity'', ''validity_classification''),
          (''completion_status'', ''completion_status'')] @
        with_empty m [''acceptance_failures''] @
        copied m [(''comparison_artifact'', ''recovery_comparison_artifact'')] @ [(''source_digests'', digests)])))"

definition readiness_run :: "json \<Rightarrow> exn + (string, json) dict" where
  "readiness_run m =
     rbind (required m ''run_id'') (\<lambda>rid.
     rbind (source_digests m) (\<lambda>digests. Inr
       ([(''run_id'', rid)] @ copied m (same [''room_id'', ''publication_data'', ''request_count'', ''max_in_flight'',
          ''development_timeline_limit'', ''limited_sync_count'', ''recovery_episode_count'', ''history_pages_fetched'',
          ''events_recovered_via_history'', ''sent_count'', ''processed_count'', ''ack_count'']) @
        with_empty m [''missing_processed'', ''unexpected_processed''] @
        copied m (same [''duplicate_observations'', ''duplicate_acks'', ''recovery_failures'', ''checkpoint_commits'']) @
        copied m [(''validity'', ''validity_classification''), (''completion_status'', ''completion_status'')] @
        with_empty m [''acceptance_failures''] @ [(''source_digests'', digests)])))"

record run_summary =
  su_runs :: "(string, json) dict list"
  su_total :: nat
  su_valid :: nat
  su_passed :: nat
  su_verdict :: string
  su_publication :: bool

definition passed_run :: "(string, json) dict \<Rightarrow> bool" where
  "passed_run r \<longleftrightarrow> py_eq (value_of (map_of r ''completion_status'')) (JStr ''pass'')"

text \<open>\<open>(r["validity"] or {}).get("valid")\<close>.\<close>

definition valid_run_entry :: "(string, json) dict \<Rightarrow> bool" where
  "valid_run_entry r \<longleftrightarrow> json_true (obj_get (value_of (map_of r ''validity'')) ''valid'')"

text \<open>Only the summary of E0 shows whether a run was publication data, and all others how many were valid.\<close>

definition summary_of :: "string \<Rightarrow> (string, json) dict list \<Rightarrow> run_summary" where
  "summary_of what runs = (let passed = length (filter passed_run runs) in
     \<lparr>su_runs = runs, su_total = length runs, su_valid = length (filter valid_run_entry runs), su_passed = passed,
      su_verdict = (if runs = [] then ''no '' @ what @ '' runs found''
        else dec passed @ ''/'' @ dec (length runs) @ '' PASS''),
      su_publication = list_ex (\<lambda>r. json_true (map_of r ''publication_data'')) runs\<rparr>)"

definition of_experiment :: "string \<Rightarrow> json \<Rightarrow> bool" where
  "of_experiment name m \<longleftrightarrow> py_eq (value_of (obj_get m ''experiment'')) (JStr name)"

definition summarize_experiment ::
  "string \<Rightarrow> string \<Rightarrow> (json \<Rightarrow> exn + (string, json) dict) \<Rightarrow> json list \<Rightarrow> exn + run_summary" where
  "summarize_experiment name what entry ms =
     rbind (sequence (map entry (filter (of_experiment name) ms)))
       (\<lambda>runs. Inr (summary_of what runs))"

definition summarize_e0 :: "json list \<Rightarrow> exn + run_summary" where
  "summarize_e0 ms = summarize_experiment ''E0'' ''E0'' e0_run ms"

definition summarize_e1 :: "json list \<Rightarrow> exn + run_summary" where
  "summarize_e1 ms = summarize_experiment ''E1'' ''E1'' e1_run ms"

definition summarize_e2 :: "json list \<Rightarrow> exn + run_summary" where
  "summarize_e2 ms = summarize_experiment ''E2'' ''E2'' e2_run ms"

definition summarize_readiness :: "json list \<Rightarrow> exn + run_summary" where
  "summarize_readiness ms = summarize_experiment ''E3READINESS'' ''readiness'' readiness_run ms"

section \<open>E3\<close>

text \<open>How the program reads raw files and draws: the arguments of the E3 analysis.\<close>

record e3_world =
  ew_render :: "json \<Rightarrow> string"
  ew_load :: "string \<Rightarrow> benchmark_record list"
  ew_line :: "string \<Rightarrow> (string option \<times> benchmark_record) option"
  ew_files :: "string \<Rightarrow> string list option"
  ew_draw_latency :: "nat \<Rightarrow> int \<Rightarrow> nat \<Rightarrow> nat list list"
  ew_draw_throughput :: "nat \<Rightarrow> int \<Rightarrow> nat list \<Rightarrow> nat list list"
  ew_sqrt :: "rat \<Rightarrow> rat"
  ew_agent_line :: "string \<Rightarrow> agent_record option"

text \<open>\<open>int(os.environ.get(name, "0") or 0)\<close>.\<close>

definition env_int :: "variables \<Rightarrow> string \<Rightarrow> exn + int" where
  "env_int env name = (let s = env_or env name ''0'' in
     if s = [] then Inr 0 else case read_int s of None \<Rightarrow> Inl ValueError | Some n \<Rightarrow> Inr n)"

definition named_campaign :: "variables \<Rightarrow> string option" where
  "named_campaign env = (let s = strip (env_or env ''FAM_E3_CAMPAIGN'' []) in if s = [] then None else Some s)"

definition summarize_e3 :: "e3_world \<Rightarrow> variables \<Rightarrow> json list \<Rightarrow> exn + (analysis \<times> integrity_report) option" where
  "summarize_e3 w env ms =
     (let runs = load_campaign (ew_load w) (map (read_manifest (ew_render w)) ms) (named_campaign env) in
      if runs = [] then Inr None
      else
        rbind (env_int env ''FAM_E3_BOOTSTRAP_REPLICATES'') (\<lambda>replicates.
        rbind (env_int env ''FAM_E3_BOOTSTRAP_SEED'') (\<lambda>seed.
          let n = (if replicates = 0 then E3_BOOTSTRAP_REPLICATES else nat replicates);
              sd = (if seed = 0 then E3_BOOTSTRAP_SEED else seed)
          in Inr (Some (analyse (ew_draw_latency w n sd) (ew_draw_throughput w n sd) (ew_sqrt w)
               (Some (agent_send_failures (ew_agent_line w) (ew_files w))) runs, verify_campaign (ew_line w) (ew_files w) (map rn_manifest runs))))))"

definition e3_acceptable :: "(analysis \<times> integrity_report) option \<Rightarrow> bool" where
  "e3_acceptable e3 \<longleftrightarrow> (case e3 of
     None \<Rightarrow> True
   | Some (a, r) \<Rightarrow> an_runs_invalid a = [] \<and> an_incomplete_blocks a = [] \<and> an_integrity_problems a = [] \<and> mismatches r = [])"

section \<open>Provenance\<close>

text \<open>The commits of each experiment, both sorted; the marker of a mixed set goes on after its first word.\<close>

definition commit_entry :: "json \<Rightarrow> exn + (string \<times> string) list" where
  "commit_entry m =
     (if \<not> json_true (obj_get m ''protocol_git_commit'') then Inr []
      else rbind (text_of (get_default m ''experiment'' (JStr ''unknown''))) (\<lambda>e.
        rbind (text_of (value_of (obj_get m ''protocol_git_commit''))) (\<lambda>c. Inr [(e, c)])))"

definition protocol_commits :: "json list \<Rightarrow> exn + (string, string list) dict" where
  "protocol_commits ms = rbind (sequence (map commit_entry ms)) (\<lambda>found.
     let ps = concat found in
     Inr (map (\<lambda>e. (e, sort (remdups (map snd (filter (\<lambda>p. fst p = e) ps))))) (sort (remdups (map fst ps)))))"

definition protocol_commit :: "(string, string list) dict \<Rightarrow> string" where
  "protocol_commit commits = (case remdups (concat (map snd commits)) of
     [] \<Rightarrow> ''unknown'' | [c] \<Rightarrow> c | _ \<Rightarrow> ''mixed'')"

section \<open>The verdict\<close>

datatype verdict = Pass | FailPrecondition | FailProvenance | FailUnavailable | FailSchema | FailAcceptance | FailAnalysis

fun exit_status :: "verdict \<Rightarrow> nat" where
  "exit_status Pass = 0"
| "exit_status FailPrecondition = 2"
| "exit_status _ = 1"

definition all_passed :: "run_summary \<Rightarrow> bool" where
  "all_passed s \<longleftrightarrow> su_total s \<noteq> 0 \<longrightarrow> su_passed s = su_total s"

text \<open>Every E0 run prints its status in capitals, which needs it to be a string.\<close>

definition printable :: "run_summary \<Rightarrow> bool" where
  "printable s \<longleftrightarrow> list_all (\<lambda>r. case map_of r ''completion_status'' of Some (JStr _) \<Rightarrow> True | _ \<Rightarrow> False) (su_runs s)"

definition acceptance :: "e3_world \<Rightarrow> variables \<Rightarrow> json list \<Rightarrow> exn + bool" where
  "acceptance w env ms =
     rbind (summarize_e0 ms) (\<lambda>e0. if \<not> printable e0 then Inl ValueError else
     rbind (summarize_e1 ms) (\<lambda>e1.
     rbind (summarize_e2 ms) (\<lambda>e2.
     rbind (summarize_readiness ms) (\<lambda>ready.
     rbind (summarize_e3 w env ms) (\<lambda>e3.
     rbind (protocol_commits ms) (\<lambda>_.
       Inr (su_total e0 \<noteq> 0 \<and> su_passed e0 = su_total e0 \<and> all_passed e1 \<and> all_passed e2 \<and> all_passed ready \<and>
         e3_acceptable e3)))))))"

text \<open>\<open>_analyse\<close> under the handlers of \<open>main\<close>; \<open>root_ok\<close>: the results directory resolves.\<close>

definition run_analysis ::
  "bool \<Rightarrow> digests \<Rightarrow> (schema_file \<Rightarrow> json \<Rightarrow> bool) option \<Rightarrow> raw_stream list \<Rightarrow> (string \<times> json) list \<Rightarrow>
   e3_world \<Rightarrow> variables \<Rightarrow> verdict" where
  "run_analysis root_ok file validators streams ms w env =
     (if \<not> root_ok then FailPrecondition
      else case verify_digests file (Some ms) of
        Inl _ \<Rightarrow> FailAnalysis
      | Inr r \<Rightarrow>
          if \<not> digests_pass r then FailProvenance
          else case validate_streams validators streams ms of
            Inl Unavailable \<Rightarrow> FailUnavailable
          | Inl (Raised _) \<Rightarrow> FailAnalysis
          | Inr problems \<Rightarrow>
              if problems \<noteq> [] then FailSchema
              else case acceptance w env (map snd ms) of
                Inl _ \<Rightarrow> FailAnalysis
              | Inr ok \<Rightarrow> if ok then Pass else FailAcceptance)"

section \<open>What the stages establish\<close>

definition artifact_verified :: "digests \<Rightarrow> json \<Rightarrow> bool" where
  "artifact_verified file a \<longleftrightarrow> (\<exists>p digest. required a ''path'' = Inr (JStr p) \<and> file p = Some digest \<and>
     required a ''sha256'' = Inr (JStr digest))"

lemma map_filter_id: "List.map_filter id xs = [] \<longleftrightarrow> (\<forall>x \<in> set xs. x = None)"
  by (simp add: map_filter_none)

lemma sequence_member:
  "sequence (map f xs) = Inr ys \<Longrightarrow> x \<in> set xs \<Longrightarrow> \<exists>y \<in> set ys. f x = Inr y"
  by (induction xs arbitrary: ys) (auto simp: rbind_eq_Inr)

lemma text_of_Inr: "text_of v = Inr s \<longleftrightarrow> v = JStr s"
  by (auto simp: text_of_def split: json.splits)

lemma verify_artifact_None: "verify_artifact file rid a = Inr None \<longleftrightarrow> artifact_verified file a"
  by (auto simp: verify_artifact_def artifact_verified_def rbind_eq_Inr text_of_Inr split: option.split)

lemma verify_manifest_clean:
  assumes "verify_manifest file (stem, m) = Inr (n, [])"
  shows "\<exists>as. artifacts_of m = Inr as \<and> as \<noteq> [] \<and> (\<forall>a \<in> set as. artifact_verified file a)"
proof -
  from assms obtain as found where as: "artifacts_of m = Inr as" "as \<noteq> []"
    and found: "sequence (map (verify_artifact file (get_default m ''run_id'' (JStr stem))) as) = Inr found"
      "List.map_filter id found = []"
    by (auto simp: verify_manifest_def Let_def rbind_eq_Inr split: if_splits)
  have "verify_artifact file (get_default m ''run_id'' (JStr stem)) a = Inr None" if "a \<in> set as" for a
    using sequence_member [OF found(1) that] found(2) by (auto simp: map_filter_id)
  with as show ?thesis by (auto simp: verify_artifact_None)
qed

lemma verify_digests_pass:
  assumes "verify_digests file (Some ms) = Inr r" and "digests_pass r"
  shows "ms \<noteq> [] \<and> (\<forall>(stem, m) \<in> set ms. \<exists>as. artifacts_of m = Inr as \<and> as \<noteq> [] \<and> (\<forall>a \<in> set as. artifact_verified file a))"
proof -
  obtain rs where rs: "sequence (map (verify_manifest file) ms) = Inr rs" "r = (sum_list (map fst rs),
      length (concat (map snd rs)), concat (map snd rs))"
    using assms(1) by (auto simp: verify_digests_def rbind_eq_Inr Let_def)
  have clean: "\<forall>p \<in> set rs. snd p = []" using assms(2) by (auto simp: rs(2) digests_pass_def)
  have "\<exists>n. verify_manifest file (stem, m) = Inr (n, [])" if "(stem, m) \<in> set ms" for stem m
    using sequence_member [OF rs(1) that] clean by (metis prod.collapse)
  moreover have "ms \<noteq> []" using assms(2) rs by (auto simp: digests_pass_def)
  ultimately show ?thesis by (auto dest: verify_manifest_clean)
qed

text \<open>The schema a record must satisfy, given its stream and the version it declares.\<close>

definition schema_of :: "raw_stream \<Rightarrow> json \<Rightarrow> schema_file option" where
  "schema_of s r = (if is_runner_stream s then runner_validator (value_of (obj_get r ''schema_version'')) else Some Agent_records)"

lemma validate_record_clean:
  assumes "validate_record valid_for s i r = Inr None"
  shows "\<exists>f. schema_of s r = Some f \<and> valid_for f r \<and> obj_get r ''counted_in_window'' = None"
  using assms by (auto simp: validate_record_def schema_of_def Let_def FORBIDDEN_RAW_FIELDS_def split: json.splits if_splits option.splits)

lemma validate_records_clean:
  "validate_records valid_for s i rs = Inr [] \<Longrightarrow>
     \<forall>r \<in> set rs. \<exists>f. schema_of s r = Some f \<and> valid_for f r \<and> obj_get r ''counted_in_window'' = None"
  by (induction rs arbitrary: i) (auto simp: rbind_eq_Inr split: option.splits dest: validate_record_clean)

lemma validate_streams_clean:
  assumes "validate_streams validators streams ms = Inr []"
  shows "\<exists>valid_for. validators = Some valid_for \<and> (\<forall>(_, m) \<in> set ms. valid_for Manifests m) \<and>
    (\<forall>s \<in> set streams. \<exists>rs. rs_loaded s = Some rs \<and> rs \<noteq> [] \<and>
      (\<forall>r \<in> set rs. \<exists>f. schema_of s r = Some f \<and> valid_for f r \<and> obj_get r ''counted_in_window'' = None))"
proof -
  obtain valid_for found where v: "validators = Some valid_for"
    and found: "sequence (map (validate_stream valid_for) streams) = Inr found" "concat found = []"
    and ms: "filter (\<lambda>(_, m). \<not> valid_for Manifests m) ms = []"
    using assms by (auto simp: validate_streams_def rbind_eq_Inr split: option.splits)
  have "validate_stream valid_for s = Inr []" if "s \<in> set streams" for s
    using sequence_member [OF found(1) that] found(2) by auto
  then have "\<exists>rs. rs_loaded s = Some rs \<and> rs \<noteq> [] \<and> validate_records valid_for s 1 rs = Inr []" if "s \<in> set streams" for s
    using that by (fastforce simp: validate_stream_def split: option.splits if_splits)
  with v ms show ?thesis by (fastforce simp: filter_empty_conv dest: validate_records_clean)
qed

text \<open>A manifest whose run passed.\<close>

definition run_passed :: "json \<Rightarrow> bool" where
  "run_passed m \<longleftrightarrow> py_eq (value_of (obj_get m ''completion_status'')) (JStr ''pass'')"

definition keeps_status :: "(json \<Rightarrow> exn + (string, json) dict) \<Rightarrow> bool" where
  "keeps_status entry \<longleftrightarrow> (\<forall>m r. entry m = Inr r \<longrightarrow> map_of r ''completion_status'' = Some (value_of (obj_get m ''completion_status'')))"

lemma entries_keep_status [simp]:
  "keeps_status e0_run" "keeps_status e1_run" "keeps_status e2_run" "keeps_status readiness_run"
  by (auto simp: keeps_status_def e0_run_def e1_run_def e2_run_def readiness_run_def rbind_eq_Inr copied_def same_def
    with_empty_def)

lemma filter_all: "length (filter P xs) = length xs \<longleftrightarrow> (\<forall>x \<in> set xs. P x)"
  by (metis filter_True length_filter_less order_less_irrefl)

lemma summarize_passed:
  assumes "summarize_experiment name what entry ms = Inr s" and "keeps_status entry"
  shows "su_total s = length (filter (of_experiment name) ms)"
    and "su_passed s = su_total s \<longleftrightarrow> (\<forall>m \<in> set ms. of_experiment name m \<longrightarrow> run_passed m)"
proof -
  obtain runs where runs: "sequence (map entry (filter (of_experiment name) ms)) = Inr runs" "s = summary_of what runs"
    using assms(1) by (auto simp: summarize_experiment_def rbind_eq_Inr)
  then have all2: "list_all2 (\<lambda>m r. entry m = Inr r) (filter (of_experiment name) ms) runs"
    by (simp add: sequence_Inr list_all2_map1)
  have same: "passed_run r = run_passed m" if "entry m = Inr r" for m r
    using assms(2) that by (simp add: keeps_status_def passed_run_def run_passed_def value_of_def)
  show "su_total s = length (filter (of_experiment name) ms)"
    using all2 by (simp add: runs(2) summary_of_def Let_def list_all2_lengthD)
  have "(\<forall>r \<in> set runs. passed_run r) \<longleftrightarrow> (\<forall>m \<in> set (filter (of_experiment name) ms). run_passed m)"
    using all2 by (induction rule: list_all2_induct) (simp_all add: same)
  then show "su_passed s = su_total s \<longleftrightarrow> (\<forall>m \<in> set ms. of_experiment name m \<longrightarrow> run_passed m)"
    by (simp add: runs(2) summary_of_def Let_def filter_all) blast
qed

lemma all_passed_iff:
  assumes "summarize_experiment name what entry ms = Inr s" and "keeps_status entry"
  shows "all_passed s \<longleftrightarrow> (\<forall>m \<in> set ms. of_experiment name m \<longrightarrow> run_passed m)"
  using summarize_passed [OF assms] by (auto simp: all_passed_def filter_empty_conv)

definition e3_runs :: "e3_world \<Rightarrow> variables \<Rightarrow> json list \<Rightarrow> run_records list" where
  "e3_runs w env ms = load_campaign (ew_load w) (map (read_manifest (ew_render w)) ms) (named_campaign env)"

lemma e3_acceptable_iff:
  assumes "summarize_e3 w env ms = Inr e3"
  shows "e3_acceptable e3 \<longleftrightarrow> (let runs = e3_runs w env ms in runs = [] \<or>
    (\<forall>r \<in> set runs. rn_valid r) \<and> incomplete_blocks (latency_runs runs) = [] \<and> integrity_problems runs = [] \<and>
     mismatches (verify_campaign (ew_line w) (ew_files w) (map rn_manifest runs)) = [])"
proof (cases "e3_runs w env ms = []")
  case True
  with assms show ?thesis by (simp add: summarize_e3_def e3_runs_def Let_def e3_acceptable_def)
next
  case False
  with assms show ?thesis
    by (auto simp: summarize_e3_def e3_runs_def Let_def rbind_eq_Inr e3_acceptable_def analyse_def filter_empty_conv)
qed

lemma acceptance_True:
  assumes "acceptance w env ms = Inr True"
  shows "(\<exists>m \<in> set ms. of_experiment ''E0'' m) \<and>
    (\<forall>m \<in> set ms. list_ex (\<lambda>name. of_experiment name m) [''E0'', ''E1'', ''E2'', ''E3READINESS''] \<longrightarrow> run_passed m) \<and>
    (let runs = e3_runs w env ms in runs = [] \<or>
      (\<forall>r \<in> set runs. rn_valid r) \<and> incomplete_blocks (latency_runs runs) = [] \<and> integrity_problems runs = [] \<and>
      mismatches (verify_campaign (ew_line w) (ew_files w) (map rn_manifest runs)) = [])"
proof -
  obtain e0 e1 e2 ready e3 where s: "summarize_e0 ms = Inr e0" "summarize_e1 ms = Inr e1" "summarize_e2 ms = Inr e2"
    "summarize_readiness ms = Inr ready" "summarize_e3 w env ms = Inr e3"
    and ok: "su_total e0 \<noteq> 0" "su_passed e0 = su_total e0" "all_passed e1" "all_passed e2" "all_passed ready" "e3_acceptable e3"
    using assms by (auto simp: acceptance_def rbind_eq_Inr split: if_splits)
  note e = s(1-4) [unfolded summarize_e0_def summarize_e1_def summarize_e2_def summarize_readiness_def]
  have "filter (of_experiment ''E0'') ms \<noteq> []" using ok(1) summarize_passed(1) [OF e(1)] by auto
  then have "\<exists>m \<in> set ms. of_experiment ''E0'' m" by (auto simp: filter_empty_conv)
  then show ?thesis
    using ok summarize_passed(2) [OF e(1)] all_passed_iff [OF e(2)] all_passed_iff [OF e(3)] all_passed_iff [OF e(4)]
      e3_acceptable_iff [OF s(5)] by auto
qed

section \<open>Properties\<close>

text \<open>
  C28: A PASS is never reported for what was not checked. If the analysis passes, the results
  directory was usable; there is a manifest, every manifest names artifacts, and each
  exists with the digest recorded; validators were at hand, every raw stream was read and
  not empty, each of its records satisfies the schema of the version it declares and holds
  no derived field, and every manifest satisfies its schema; there is an E0 run, every run
  of E0, E1, E2 and readiness passed; and the runs of the E3 campaign, if there are any, are
  valid, complete in their latency blocks, show nothing impossible and agree with their raw
  streams.
\<close>

theorem pass_means_checked:
  assumes "run_analysis root_ok file validators streams ms w env = Pass"
  shows "root_ok \<and>
    (ms \<noteq> [] \<and> (\<forall>(stem, m) \<in> set ms. \<exists>as. artifacts_of m = Inr as \<and> as \<noteq> [] \<and> (\<forall>a \<in> set as. artifact_verified file a))) \<and>
    (\<exists>valid_for. validators = Some valid_for \<and> (\<forall>(_, m) \<in> set ms. valid_for Manifests m) \<and>
      (\<forall>s \<in> set streams. \<exists>rs. rs_loaded s = Some rs \<and> rs \<noteq> [] \<and>
        (\<forall>r \<in> set rs. \<exists>f. schema_of s r = Some f \<and> valid_for f r \<and> obj_get r ''counted_in_window'' = None))) \<and>
    (\<exists>m \<in> snd ` set ms. of_experiment ''E0'' m) \<and>
    (\<forall>m \<in> snd ` set ms. list_ex (\<lambda>name. of_experiment name m) [''E0'', ''E1'', ''E2'', ''E3READINESS''] \<longrightarrow> run_passed m) \<and>
    (let runs = e3_runs w env (map snd ms) in runs = [] \<or>
      (\<forall>r \<in> set runs. rn_valid r) \<and> incomplete_blocks (latency_runs runs) = [] \<and> integrity_problems runs = [] \<and>
      mismatches (verify_campaign (ew_line w) (ew_files w) (map rn_manifest runs)) = [])"
proof -
  obtain r where d: "verify_digests file (Some ms) = Inr r" "digests_pass r" and root: "root_ok"
    and v: "validate_streams validators streams ms = Inr []" and a: "acceptance w env (map snd ms) = Inr True"
    using assms by (auto simp: run_analysis_def split: if_splits sum.splits stage_failure.splits)
  show ?thesis
    using root verify_digests_pass [OF d] validate_streams_clean [OF v] acceptance_True [OF a] by simp
qed

text \<open>The gate on paired blocks looks at latency runs only: throughput blocks may be incomplete.\<close>

lemma throughput_blocks_unchecked:
  assumes "\<forall>r \<in> set runs. rn_workload r = E3_WORKLOAD_THROUGHPUT"
  shows "an_incomplete_blocks (analyse dl dt sqroot agents runs) = []"
proof -
  have "latency_runs runs = []" using assms workload_names_differ [symmetric] by (auto simp: latency_runs_def filter_empty_conv)
  then show ?thesis by (simp add: analyse_def Let_def incomplete_blocks_def topologies_by_block_def)
qed

definition sample_manifest :: json where
  "sample_manifest = JObj [(''experiment'', JStr ''E0''), (''run_id'', JStr ''r1''), (''completion_status'', JStr ''pass''),
     (''raw_artifacts'', JList [JObj [(''role'', JStr ''runner_interaction_stream''), (''path'', JStr ''raw/e0/r1.runner.jsonl''),
       (''sha256'', JStr ''5a'')]])]"

definition sample_e3_world :: e3_world where
  "sample_e3_world = \<lparr>ew_render = (\<lambda>_. []), ew_load = (\<lambda>_. []), ew_line = (\<lambda>_. None), ew_files = (\<lambda>_. None),
     ew_draw_latency = (\<lambda>_ _ _. []), ew_draw_throughput = (\<lambda>_ _ _. []), ew_sqrt = (\<lambda>x. x),
     ew_agent_line = (\<lambda>_. None)\<rparr>"

definition sample_stream :: raw_stream where
  "sample_stream = \<lparr>rs_name = ''r1.runner.jsonl'', rs_loaded = Some [JObj [(''schema_version'', JStr ''2'')]]\<rparr>"

lemma sample_passes:
  "run_analysis True (\<lambda>_. Some ''5a'') (Some (\<lambda>_ _. True)) [sample_stream] [(''r1.manifest'', sample_manifest)]
     sample_e3_world (\<lambda>_. None) = Pass"
proof -
  let ?ms = "[(''r1.manifest'', sample_manifest)]"
  have digests: "verify_digests (\<lambda>_. Some ''5a'') (Some ?ms) = Inr (1, 0, [])" by code_simp
  have schemas: "validate_streams (Some (\<lambda>_ _. True)) [sample_stream] ?ms = Inr []" by code_simp
  have stages: "case summarize_e0 [sample_manifest] of Inr s \<Rightarrow> printable s \<and> su_total s = 1 \<and> su_passed s = 1 | Inl _ \<Rightarrow> False"
    "case summarize_e1 [sample_manifest] of Inr s \<Rightarrow> su_total s = 0 | Inl _ \<Rightarrow> False"
    "case summarize_e2 [sample_manifest] of Inr s \<Rightarrow> su_total s = 0 | Inl _ \<Rightarrow> False"
    "case summarize_readiness [sample_manifest] of Inr s \<Rightarrow> su_total s = 0 | Inl _ \<Rightarrow> False"
    "case protocol_commits [sample_manifest] of Inr _ \<Rightarrow> True | Inl _ \<Rightarrow> False"
    "e3_candidates [read_manifest (\<lambda>_. []) sample_manifest] = []"
    by code_simp+
  then have "summarize_e3 sample_e3_world (\<lambda>_. None) [sample_manifest] = Inr None"
    by (simp add: summarize_e3_def load_campaign_def choose_campaign_def sample_e3_world_def named_campaign_def Let_def
      env_or_def strip_def lstrip_def rstrip_def latest_completions_def)
  with stages have "acceptance sample_e3_world (\<lambda>_. None) [sample_manifest] = Inr True"
    by (auto simp: acceptance_def all_passed_def e3_acceptable_def split: sum.splits)
  with digests schemas show ?thesis by (simp add: run_analysis_def digests_pass_def)
qed

theorem pass_means_checked_witness:
  "run_passed sample_manifest \<and> artifacts_of sample_manifest \<noteq> Inr []"
proof -
  have "list_ex (\<lambda>name. of_experiment name sample_manifest) [''E0'', ''E1'', ''E2'', ''E3READINESS'']" by code_simp
  then show ?thesis using pass_means_checked [OF sample_passes] by auto
qed

end
