(* ===== verification/Experiments.thy ===== *)
theory Experiments
  imports Pipeline Federation
begin

text \<open>
  \<^verbatim>\<open>experiments/e0_baseline.py\<close> and \<^verbatim>\<open>experiments/e1_federation.py\<close>: one run of the
  same-domain baseline and of the federated room, from its first call to its verdict and its
  manifest. What a run meets (participants, homeservers, the agent process, the clock) is a
  record of actions on a state \<open>'w\<close>, each of which fails or returns. Accounts, directories
  and printing are left out; a run that raises has no result.
\<close>

section \<open>Actions\<close>

type_synonym ('w, 'a) action_of = "'w \<Rightarrow> (run_failure + 'a) \<times> 'w"

definition give :: "'a \<Rightarrow> ('w, 'a) action_of" where
  "give x w = (Inr x, w)"

definition act_bind :: "('w, 'a) action_of \<Rightarrow> ('a \<Rightarrow> ('w, 'b) action_of) \<Rightarrow> ('w, 'b) action_of" where
  "act_bind m f w = (case m w of (Inl e, w') \<Rightarrow> (Inl e, w') | (Inr x, w') \<Rightarrow> f x w')"

definition passes :: "run_failure + 'a \<Rightarrow> ('w, 'a) action_of" where
  "passes r w = (r, w)"

lemma give_Inr [simp]: "give x w = (Inr y, w') \<longleftrightarrow> y = x \<and> w' = w"
  by (auto simp: give_def)

lemma passes_Inr [simp]: "passes r w = (Inr y, w') \<longleftrightarrow> r = Inr y \<and> w' = w"
  by (auto simp: passes_def)

lemma act_bind_Inr: "act_bind m f w = (Inr y, w'') \<longleftrightarrow> (\<exists>x w'. m w = (Inr x, w') \<and> f x w' = (Inr y, w''))"
  by (auto simp: act_bind_def split: prod.splits sum.splits)

text \<open>
  The world of a run. Participants go by their user id; \<open>w_error\<close> and \<open>w_exn\<close> are the texts of
  exceptions, \<open>w_str\<close> the \<open>str\<close> of a JSON value, \<open>w_loads\<close> the reading of one JSON line, and
  \<open>w_cleanup\<close> what the \<open>finally\<close> block of a run does.
\<close>

record 'w world =
  w_start :: "string \<Rightarrow> ('w, unit) action_of"
  w_create_room :: "string \<Rightarrow> string list \<Rightarrow> ('w, string) action_of"
  w_room_state :: "string \<Rightarrow> string \<Rightarrow> ('w, string \<times> bool) action_of"
  w_join :: "string \<Rightarrow> string \<Rightarrow> ('w, unit) action_of"
  w_agent_start :: "('w, unit) action_of"
  w_agent_stop :: "('w, unit) action_of"
  w_members :: "string \<Rightarrow> string \<Rightarrow> ('w, string list) action_of"
  w_sleep :: "rat \<Rightarrow> 'w \<Rightarrow> 'w"
  w_clock :: "'w \<Rightarrow> int \<times> 'w"
  w_request :: "string \<Rightarrow> correlation \<Rightarrow> rat \<Rightarrow> ('w, interaction) action_of"
  w_send_offline :: "string \<Rightarrow> correlation \<Rightarrow> ('w, interaction) action_of"
  w_await_acks :: "string \<Rightarrow> correlation list \<Rightarrow> rat \<Rightarrow> ('w, nat) action_of"
  w_interaction :: "string \<Rightarrow> correlation \<Rightarrow> 'w \<Rightarrow> interaction option"
  w_duplicates :: "string \<Rightarrow> 'w \<Rightarrow> nat"
  w_gather :: "string \<Rightarrow> nat \<Rightarrow> rat \<Rightarrow> correlation list \<Rightarrow> 'w \<Rightarrow> (run_failure + interaction) list \<times> 'w"
  w_view :: "string \<Rightarrow> string \<Rightarrow> string \<Rightarrow> ('w, domain_view) action_of"
  w_agent_lines :: "'w \<Rightarrow> string list option"
  w_cleanup :: "'w \<Rightarrow> 'w"
  w_loads :: "string \<Rightarrow> json option"
  w_str :: "json \<Rightarrow> string"
  w_error :: "msg_error \<Rightarrow> string"
  w_exn :: "exn \<Rightarrow> string"

definition or_fail :: "'w world \<Rightarrow> msg_error + 'a \<Rightarrow> run_failure + 'a" where
  "or_fail wd r = (case r of Inl e \<Rightarrow> Inl (OtherFailure (w_error wd e)) | Inr x \<Rightarrow> Inr x)"

definition pause :: "'w world \<Rightarrow> rat \<Rightarrow> ('w, unit) action_of" where
  "pause wd t w = (Inr (), w_sleep wd t w)"

definition finally_clean :: "'w world \<Rightarrow> ('w, 'a) action_of \<Rightarrow> ('w, 'a) action_of" where
  "finally_clean wd body w = (case body w of (r, w') \<Rightarrow> (r, w_cleanup wd w'))"

lemma or_fail_Inr [simp]: "or_fail wd r = Inr x \<longleftrightarrow> r = Inr x"
  by (cases r) (auto simp: or_fail_def)

lemma pause_Inr [simp]: "pause wd t w = (Inr u, w') \<longleftrightarrow> w' = w_sleep wd t w"
  by (auto simp: pause_def)

lemma finally_clean_Inr:
  "finally_clean wd body w = (Inr x, w'') \<longleftrightarrow> (\<exists>w'. body w = (Inr x, w') \<and> w'' = w_cleanup wd w')"
  by (auto simp: finally_clean_def split: prod.splits)

text \<open>The room is asserted to have the frozen configuration before anything is sent.\<close>

definition configuration :: "'w world \<Rightarrow> string \<Rightarrow> string \<Rightarrow> ('w, string \<times> bool) action_of" where
  "configuration wd who room =
     act_bind (w_room_state wd who room) (\<lambda>(v, e). passes (assert_frozen_room_configuration v e))"

lemma configuration_Inr:
  "configuration wd who room w = (Inr c, w') \<Longrightarrow> c = (ROOM_VERSION, False)"
  by (auto simp: configuration_def act_bind_Inr assert_frozen_room_configuration_def split: if_splits prod.splits)

section \<open>Telemetry of the agent\<close>

text \<open>A line that is blank or no JSON is passed over; a file that is not there is empty.\<close>

definition read_jsonl :: "(string \<Rightarrow> json option) \<Rightarrow> string list option \<Rightarrow> json list" where
  "read_jsonl loads content = (case content of
     None \<Rightarrow> []
   | Some ls \<Rightarrow> List.map_filter loads (filter (\<lambda>l. l \<noteq> []) (map strip ls)))"

definition agent_telemetry :: "'w world \<Rightarrow> 'w \<Rightarrow> json list" where
  "agent_telemetry wd w = read_jsonl (w_loads wd) (w_agent_lines wd w)"

definition read_telemetry :: "'w world \<Rightarrow> ('w, json list) action_of" where
  "read_telemetry wd w = (Inr (agent_telemetry wd w), w)"

text \<open>The \<open>str\<close> of a value is the value itself where that is a string.\<close>

definition py_str :: "(json \<Rightarrow> string) \<Rightarrow> json \<Rightarrow> string" where
  "py_str str v = (case v of JStr s \<Rightarrow> s | _ \<Rightarrow> str v)"

definition agent_identity :: "(json \<Rightarrow> string) \<Rightarrow> json list \<Rightarrow> bool \<Rightarrow> string" where
  "agent_identity str telemetry latest =
     (let connects = filter (has_action ''connected'') telemetry in
      if connects = [] then []
      else py_str str (get_default (if latest then last connects else hd connects) ''agent_mxid'' (JStr [])))"

definition resumed_session :: "(json \<Rightarrow> string) \<Rightarrow> json list \<Rightarrow> bool" where
  "resumed_session str telemetry =
     (let connects = filter (has_action ''connected'') telemetry in
      \<not> length connects < 2 \<and>
      substring ''resumed from transport checkpoint'' (py_str str (get_default (last connects) ''note'' (JStr []))))"

definition first_c2_evidence :: "json list \<Rightarrow> json" where
  "first_c2_evidence telemetry = (case filter (has_action ''privilege_evidence'') telemetry of
     [] \<Rightarrow> JObj []
   | r # _ \<Rightarrow> get_default r ''c2_evidence'' (JObj []))"

section \<open>Asking, one request after the other\<close>

text \<open>
  The record both experiments write of an interaction, and the loop they share: a
  correlation, its request, and what is made of the answer.
\<close>

definition plain_record ::
  "string \<Rightarrow> string \<Rightarrow> string \<Rightarrow> string \<Rightarrow> string \<Rightarrow> string \<Rightarrow> correlation \<Rightarrow> interaction \<Rightarrow> interaction_outcome \<Rightarrow>
   msg_error + runner_record" where
  "plain_record topo ph cls room sender role c it out =
     rbind (txn_id c ''response'') (\<lambda>rtxn. Inr
       \<lparr>rr_experiment = experiment_name c, rr_topology = topo, rr_run_id = run_id c,
        rr_sequence_id = sequence_id c, rr_run_phase = ph, rr_request_class = cls, rr_room_id = room,
        rr_sender = sender, rr_receiver_role = role, rr_request_txn_id = it_request_txn_id it,
        rr_request_event_id = it_request_event_id it, rr_response_txn_id = Some rtxn,
        rr_response_event_id = it_response_event_id it, initiated_ns = it_initiated it,
        completed_ns = it_completed it, outcome = outcome_value out, rr_note = [],
        ack_count = it_ack_count it, duplicate_ack_count = Some (it_duplicate_count it),
        duplicate_ack_event_ids = it_duplicate_ids it\<rparr>)"

definition plain_outcome :: "interaction \<Rightarrow> interaction_outcome" where
  "plain_outcome it = (if it_completed it = None then TIMEOUT else SUCCESS)"

fun ask_each ::
  "'w world \<Rightarrow> string \<Rightarrow> string \<Rightarrow> string \<Rightarrow> (correlation \<Rightarrow> interaction \<Rightarrow> 'r \<Rightarrow> msg_error + 'r) \<Rightarrow>
   nat \<Rightarrow> int \<Rightarrow> 'r \<Rightarrow> ('w, 'r) action_of" where
  "ask_each wd who exper rid acc 0 q r = give r"
| "ask_each wd who exper rid acc (Suc n) q r =
     act_bind (passes (or_fail wd (make_correlation exper rid q))) (\<lambda>c.
     act_bind (w_request wd who c DEFAULT_INTERACTION_TIMEOUT_SECONDS) (\<lambda>it.
     act_bind (passes (or_fail wd (acc c it r))) (\<lambda>r'.
       ask_each wd who exper rid acc n (q + 1) r')))"

section \<open>E0: the same-domain baseline\<close>

definition HUMAN_A :: string where "HUMAN_A = ''@human-a:hs-a.test''"
definition AGENT_LOCAL :: string where "AGENT_LOCAL = ''@agent-local:hs-a.test''"
definition SAME_DOMAIN_TOPOLOGY :: string where "SAME_DOMAIN_TOPOLOGY = ''same-domain''"
definition SETTLE_SECONDS :: rat where "SETTLE_SECONDS = 2"

record phase_result =
  ph_name :: string
  ph_sent :: nat
  ph_acked :: nat
  ph_duplicates :: nat
  ph_timeouts :: nat
  ph_failures :: "int list"

definition new_phase :: "string \<Rightarrow> phase_result" where
  "new_phase name = \<lparr>ph_name = name, ph_sent = 0, ph_acked = 0, ph_duplicates = 0, ph_timeouts = 0, ph_failures = []\<rparr>"

text \<open>One answer: counted, its failure noted by sequence number, its record written.\<close>

definition e0_account ::
  "string \<Rightarrow> string \<Rightarrow> correlation \<Rightarrow> interaction \<Rightarrow> phase_result \<times> runner_record list \<Rightarrow>
   msg_error + phase_result \<times> runner_record list" where
  "e0_account room ph c it = (\<lambda>(p, rs).
     let p1 = p\<lparr>ph_sent := ph_sent p + 1\<rparr>;
         p2 = (if it_completed it = None
           then p1\<lparr>ph_timeouts := ph_timeouts p1 + 1, ph_failures := ph_failures p1 @ [sequence_id c]\<rparr>
           else p1\<lparr>ph_acked := ph_acked p1 + 1\<rparr>)
     in rbind (plain_record SAME_DOMAIN_TOPOLOGY ph [] room HUMAN_A ''local_agent'' c it (plain_outcome it))
          (\<lambda>r. Inr (p2, rs @ [r])))"

text \<open>\<open>run_phase\<close>: the participant's count of duplicates is that of its whole life.\<close>

definition run_phase ::
  "'w world \<Rightarrow> string \<Rightarrow> string \<Rightarrow> string \<Rightarrow> int \<Rightarrow> runner_record list \<Rightarrow> ('w, phase_result \<times> runner_record list) action_of" where
  "run_phase wd rid room ph first rs =
     act_bind (ask_each wd HUMAN_A ''E0'' rid (e0_account room ph) (nat E0_REQUESTS_PER_PHASE) first (new_phase ph, rs)) (\<lambda>(p, rs').
     act_bind (pause wd SETTLE_SECONDS) (\<lambda>_ w. (Inr (p\<lparr>ph_duplicates := w_duplicates wd HUMAN_A w\<rparr>, rs'), w)))"

datatype e0_failure =
    E0_sent nat int | E0_acked nat int | E0_duplicates nat | E0_room_version string | E0_encrypted
  | E0_identity_unseen | E0_identity_changed string string | E0_membership_absent | E0_membership_lost | E0_c2_incomplete

record e0_result =
  e0_run_id :: string
  e0_started_at :: string
  e0_room_id :: string
  e0_room_version :: string
  e0_encryption_enabled :: bool
  e0_identity_before :: string
  e0_identity_after :: string
  e0_membership_before :: "string list"
  e0_membership_after :: "string list"
  e0_membership_while_stopped :: "string list"
  e0_phases :: "phase_result list"
  e0_c2_evidence :: json
  e0_resumed :: bool
  e0_passed :: bool
  e0_reasons :: "e0_failure list"
  e0_records :: "runner_record list"

definition e0_total_sent :: "e0_result \<Rightarrow> nat" where
  "e0_total_sent r = sum_list (map ph_sent (e0_phases r))"

definition e0_total_acked :: "e0_result \<Rightarrow> nat" where
  "e0_total_acked r = sum_list (map ph_acked (e0_phases r))"

definition e0_total_duplicates :: "e0_result \<Rightarrow> nat" where
  "e0_total_duplicates r = sum_list (map ph_duplicates (e0_phases r))"

definition failing :: "bool \<Rightarrow> 'r \<Rightarrow> 'r list" where
  "failing b r = (if b then [r] else [])"

definition e0_criteria :: "e0_result \<Rightarrow> e0_failure list" where
  "e0_criteria r = (let expected = E0_REQUESTS_PER_PHASE * 2 in
     failing (int (e0_total_sent r) \<noteq> expected) (E0_sent (e0_total_sent r) expected) @
     failing (int (e0_total_acked r) \<noteq> expected) (E0_acked (e0_total_acked r) expected) @
     failing (e0_total_duplicates r \<noteq> 0) (E0_duplicates (e0_total_duplicates r)) @
     failing (e0_room_version r \<noteq> ROOM_VERSION) (E0_room_version (e0_room_version r)) @
     failing (e0_encryption_enabled r) E0_encrypted @
     failing (e0_identity_before r = []) E0_identity_unseen @
     failing (e0_identity_before r \<noteq> e0_identity_after r) (E0_identity_changed (e0_identity_before r) (e0_identity_after r)) @
     failing (AGENT_LOCAL \<notin> set (e0_membership_after r)) E0_membership_absent @
     failing (AGENT_LOCAL \<notin> set (e0_membership_while_stopped r)) E0_membership_lost @
     failing (\<not> json_true (obj_get (e0_c2_evidence r) ''c2_supporting_evidence_complete'')) E0_c2_incomplete)"

definition e0_evaluate :: "e0_result \<Rightarrow> e0_result" where
  "e0_evaluate r = (let reasons = e0_criteria r in r\<lparr>e0_reasons := reasons, e0_passed := (reasons = [])\<rparr>)"

text \<open>The run: twenty requests, the agent stopped and started again, twenty more.\<close>

definition e0_procedure :: "'w world \<Rightarrow> string \<Rightarrow> string \<Rightarrow> ('w, e0_result) action_of" where
  "e0_procedure wd rid started =
     act_bind (w_start wd HUMAN_A) (\<lambda>_.
     act_bind (w_create_room wd HUMAN_A [AGENT_LOCAL]) (\<lambda>room.
     act_bind (configuration wd HUMAN_A room) (\<lambda>(version, encrypted).
     act_bind (w_agent_start wd) (\<lambda>_.
     act_bind (pause wd 1) (\<lambda>_.
     act_bind (w_members wd HUMAN_A room) (\<lambda>before.
     act_bind (run_phase wd rid room ''pre_restart'' 1 []) (\<lambda>(pre, rs1).
     act_bind (read_telemetry wd) (\<lambda>t1.
     act_bind (w_agent_stop wd) (\<lambda>_.
     act_bind (w_members wd HUMAN_A room) (\<lambda>stopped.
     act_bind (w_agent_start wd) (\<lambda>_.
     act_bind (pause wd 1) (\<lambda>_.
     act_bind (w_members wd HUMAN_A room) (\<lambda>after_restart.
     act_bind (read_telemetry wd) (\<lambda>t2.
     act_bind (run_phase wd rid room ''post_restart'' (E0_REQUESTS_PER_PHASE + 1) rs1) (\<lambda>(post, rs2).
       give \<lparr>e0_run_id = rid, e0_started_at = started, e0_room_id = room, e0_room_version = version,
         e0_encryption_enabled = encrypted, e0_identity_before = agent_identity (w_str wd) t1 False,
         e0_identity_after = agent_identity (w_str wd) t2 True, e0_membership_before = before,
         e0_membership_after = after_restart, e0_membership_while_stopped = stopped, e0_phases = [pre, post],
         e0_c2_evidence = first_c2_evidence t1, e0_resumed = resumed_session (w_str wd) t2,
         e0_passed = False, e0_reasons = [], e0_records = rs2\<rparr>)))))))))))))))"

definition e0_execute :: "'w world \<Rightarrow> string \<Rightarrow> string \<Rightarrow> ('w, e0_result) action_of" where
  "e0_execute wd rid started = act_bind (finally_clean wd (e0_procedure wd rid started)) (\<lambda>r. give (e0_evaluate r))"

section \<open>E1: the federated room\<close>

definition HUMAN_B :: string where "HUMAN_B = ''@human-b:hs-b.test''"
definition AGENT :: string where "AGENT = ''@agent:hs-b.test''"
definition EXPECTED_MEMBERSHIP :: "string set" where "EXPECTED_MEMBERSHIP = {HUMAN_A, HUMAN_B, AGENT}"
definition FEDERATED_TOPOLOGY :: string where "FEDERATED_TOPOLOGY = ''federated''"
definition CLASS_CROSS_DOMAIN :: string where "CLASS_CROSS_DOMAIN = ''cross_domain''"
definition CLASS_SAME_DOMAIN :: string where "CLASS_SAME_DOMAIN = ''same_domain''"

record class_result =
  cl_name :: string
  cl_sender :: string
  cl_sent :: nat
  cl_acked :: nat
  cl_timeouts :: nat
  cl_duplicates :: nat
  cl_request_event_ids :: "string set"
  cl_ack_event_ids :: "string set"

definition new_class :: "string \<Rightarrow> string \<Rightarrow> class_result" where
  "new_class name sender = \<lparr>cl_name = name, cl_sender = sender, cl_sent = 0, cl_acked = 0, cl_timeouts = 0,
     cl_duplicates = 0, cl_request_event_ids = {}, cl_ack_event_ids = {}\<rparr>"

text \<open>An id is added when there is one that is not empty.\<close>

definition add_id :: "string option \<Rightarrow> string set \<Rightarrow> string set" where
  "add_id i s = (if truthy i then insert (the i) s else s)"

definition e1_account ::
  "string \<Rightarrow> string \<Rightarrow> string \<Rightarrow> correlation \<Rightarrow> interaction \<Rightarrow> class_result \<times> runner_record list \<Rightarrow>
   msg_error + class_result \<times> runner_record list" where
  "e1_account room cls sender c it = (\<lambda>(k, rs).
     let k1 = k\<lparr>cl_sent := cl_sent k + 1, cl_request_event_ids := add_id (it_request_event_id it) (cl_request_event_ids k)\<rparr>;
         k2 = (if it_completed it = None then k1\<lparr>cl_timeouts := cl_timeouts k1 + 1\<rparr>
           else k1\<lparr>cl_acked := cl_acked k1 + 1, cl_ack_event_ids := add_id (it_response_event_id it) (cl_ack_event_ids k1)\<rparr>)
     in rbind (plain_record FEDERATED_TOPOLOGY cls cls room sender ''federated_agent'' c it (plain_outcome it))
          (\<lambda>r. Inr (k2, rs @ [r])))"

definition send_class ::
  "'w world \<Rightarrow> string \<Rightarrow> string \<Rightarrow> string \<Rightarrow> string \<Rightarrow> int \<Rightarrow> runner_record list \<Rightarrow>
   ('w, class_result \<times> runner_record list) action_of" where
  "send_class wd who rid room cls first rs =
     act_bind (ask_each wd who ''E1'' rid (e1_account room cls who) (nat E1_REQUESTS_PER_CLASS) first (new_class cls who, rs)) (\<lambda>(k, rs').
     act_bind (pause wd SETTLE_SECONDS) (\<lambda>_ w. (Inr (k\<lparr>cl_duplicates := w_duplicates wd who w\<rparr>, rs'), w)))"

datatype e1_failure =
    E1_not_executed string | E1_sent string nat int | E1_acked string nat int | E1_duplicates string nat
  | E1_room_version string | E1_encrypted | E1_no_comparison | E1_federation failure_reason

record e1_result =
  e1_run_id :: string
  e1_started_at :: string
  e1_room_id :: string
  e1_room_version :: string
  e1_encryption_enabled :: bool
  e1_classes :: "(string, class_result) dict"
  e1_comparison :: "federation_comparison option"
  e1_membership_after_join :: "(string, string list) dict"
  e1_passed :: bool
  e1_reasons :: "e1_failure list"
  e1_records :: "runner_record list"

definition e1_class_criteria :: "e1_result \<Rightarrow> string \<Rightarrow> e1_failure list" where
  "e1_class_criteria r name = (case map_of (e1_classes r) name of
     None \<Rightarrow> [E1_not_executed name]
   | Some k \<Rightarrow>
       failing (int (cl_sent k) \<noteq> E1_REQUESTS_PER_CLASS) (E1_sent name (cl_sent k) E1_REQUESTS_PER_CLASS) @
       failing (int (cl_acked k) \<noteq> E1_REQUESTS_PER_CLASS) (E1_acked name (cl_acked k) E1_REQUESTS_PER_CLASS) @
       failing (cl_duplicates k \<noteq> 0) (E1_duplicates name (cl_duplicates k)))"

definition e1_criteria :: "e1_result \<Rightarrow> e1_failure list" where
  "e1_criteria r =
     concat (map (e1_class_criteria r) [CLASS_CROSS_DOMAIN, CLASS_SAME_DOMAIN]) @
     failing (e1_room_version r \<noteq> ''12'') (E1_room_version (e1_room_version r)) @
     failing (e1_encryption_enabled r) E1_encrypted @
     (case e1_comparison r of None \<Rightarrow> [E1_no_comparison] | Some c \<Rightarrow> map E1_federation (failure_reasons c))"

definition e1_evaluate :: "e1_result \<Rightarrow> e1_result" where
  "e1_evaluate r = (let reasons = e1_criteria r in r\<lparr>e1_reasons := reasons, e1_passed := (reasons = [])\<rparr>)"

text \<open>
  The ids of the ACKs come from the agent's own send responses; an id that is no string,
  which the agent never writes, is left out.
\<close>

definition responded_ids :: "json list \<Rightarrow> string set" where
  "responded_ids telemetry = set (List.map_filter
     (\<lambda>r. case obj_get r ''response_event_id'' of Some (JStr s) \<Rightarrow> if s = [] then None else Some s | _ \<Rightarrow> None)
     (filter (has_action ''responded'') telemetry))"

text \<open>What the two classes and the telemetry lead to expect on both domains.\<close>

definition expected_comparison :: "string \<Rightarrow> string \<Rightarrow> string set \<Rightarrow> string set \<Rightarrow> string set \<Rightarrow> federation_comparison" where
  "expected_comparison rid room cross local acks =
     \<lparr>fc_run_id = rid, fc_room_id = room, fc_quiet_interval = E1_QUIET_INTERVAL_SECONDS,
      expected_event_ids = cross \<union> local \<union> acks, expected_request_ids_a = cross, expected_request_ids_b = local,
      expected_ack_ids = acks, expected_membership = EXPECTED_MEMBERSHIP, view_a = None, view_b = None\<rparr>"

definition e1_procedure :: "'w world \<Rightarrow> string \<Rightarrow> string \<Rightarrow> ('w, e1_result) action_of" where
  "e1_procedure wd rid started =
     act_bind (w_start wd HUMAN_A) (\<lambda>_.
     act_bind (w_start wd HUMAN_B) (\<lambda>_.
     act_bind (w_create_room wd HUMAN_A [HUMAN_B, AGENT]) (\<lambda>room.
     act_bind (configuration wd HUMAN_A room) (\<lambda>(version, encrypted).
     act_bind (w_join wd HUMAN_B room) (\<lambda>_.
     act_bind (w_agent_start wd) (\<lambda>_.
     act_bind (pause wd 2) (\<lambda>_.
     act_bind (w_members wd HUMAN_A room) (\<lambda>members_a.
     act_bind (w_members wd HUMAN_B room) (\<lambda>members_b.
     act_bind (send_class wd HUMAN_A rid room CLASS_CROSS_DOMAIN 1 []) (\<lambda>(cross, rs1).
     act_bind (send_class wd HUMAN_B rid room CLASS_SAME_DOMAIN (E1_REQUESTS_PER_CLASS + 1) rs1) (\<lambda>(local, rs2).
     act_bind (read_telemetry wd) (\<lambda>telemetry.
     act_bind (pause wd E1_QUIET_INTERVAL_SECONDS) (\<lambda>_.
     act_bind (w_view wd HUMAN_A ''A'' room) (\<lambda>a.
     act_bind (w_view wd HUMAN_B ''B'' room) (\<lambda>b.
       give \<lparr>e1_run_id = rid, e1_started_at = started, e1_room_id = room, e1_room_version = version,
         e1_encryption_enabled = encrypted,
         e1_classes = [(CLASS_CROSS_DOMAIN, cross), (CLASS_SAME_DOMAIN, local)],
         e1_comparison = Some ((expected_comparison rid room (cl_request_event_ids cross) (cl_request_event_ids local)
           (responded_ids telemetry))\<lparr>view_a := Some a, view_b := Some b\<rparr>),
         e1_membership_after_join = [(''A'', members_a), (''B'', members_b)],
         e1_passed = False, e1_reasons = [], e1_records = rs2\<rparr>)))))))))))))))"

definition e1_execute :: "'w world \<Rightarrow> string \<Rightarrow> string \<Rightarrow> ('w, e1_result) action_of" where
  "e1_execute wd rid started = act_bind (finally_clean wd (e1_procedure wd rid started)) (\<lambda>r. give (e1_evaluate r))"

section \<open>Manifests\<close>

text \<open>The streams of a run that exist, by role.\<close>

definition run_streams :: "file_system \<Rightarrow> path \<Rightarrow> string \<Rightarrow> string \<Rightarrow> raw_artifact list" where
  "run_streams fs base dir rid = filter (\<lambda>a. fs (ra_path a) \<noteq> None)
     [\<lparr>ra_role = ''runner_interaction_stream'', ra_path = base @ [''raw'', dir, rid @ ''.runner.jsonl'']\<rparr>,
      \<lparr>ra_role = ''agent_telemetry_stream'', ra_path = base @ [''raw'', dir, rid @ ''.agent.jsonl'']\<rparr>]"

text \<open>What every manifest takes from its surroundings; \<open>mc_describe\<close> is the text of a reason.\<close>

record manifest_context =
  mc_results_root :: path
  mc_publication_data :: bool
  mc_protocol_git_commit :: string
  mc_completed_at :: string

definition experiment_manifest ::
  "file_system \<Rightarrow> manifest_context \<Rightarrow> string \<Rightarrow> string \<Rightarrow> string \<Rightarrow> string \<Rightarrow> string \<Rightarrow> (string, string) dict \<Rightarrow>
   string \<Rightarrow> bool \<Rightarrow> (string, json) dict \<Rightarrow> run_manifest" where
  "experiment_manifest fs mc exper dir topo rid room people started ok extra =
     \<lparr>en_experiment = exper, en_run_id = rid, en_room_id = room, en_participants = people,
      en_publication_data = mc_publication_data mc, en_protocol_git_commit = mc_protocol_git_commit mc,
      en_started_at = started, en_environment_manifest = Some ''environment/environment-latest.json'',
      en_completed_at = Some (mc_completed_at mc), en_completion_status = (if ok then ''pass'' else ''fail''),
      en_validity = Some VALID, en_extra = extra, en_results_root = mc_results_root mc, rm_topology = topo,
      rm_artifacts = run_streams fs (mc_results_root mc) dir rid\<rparr>"

definition nat_json :: "nat \<Rightarrow> json" where
  "nat_json n = num (int n)"

definition texts :: "string list \<Rightarrow> json" where
  "texts ss = JList (map JStr ss)"

definition sorted_texts :: "string set \<Rightarrow> json" where
  "sorted_texts s = texts (sorted_list_of_set s)"

definition e0_extra :: "(e0_failure \<Rightarrow> string) \<Rightarrow> e0_result \<Rightarrow> (string, json) dict" where
  "e0_extra describe r =
     [(''requests_sent'', nat_json (e0_total_sent r)), (''requests_acked'', nat_json (e0_total_acked r)),
      (''duplicate_acks'', nat_json (e0_total_duplicates r)),
      (''phases'', JList (map (\<lambda>p. JObj [(''name'', JStr (ph_name p)), (''sent'', nat_json (ph_sent p)),
         (''acked'', nat_json (ph_acked p)), (''timeouts'', nat_json (ph_timeouts p)),
         (''duplicates'', nat_json (ph_duplicates p))]) (e0_phases r))),
      (''agent_identity_before_restart'', JStr (e0_identity_before r)),
      (''agent_identity_after_restart'', JStr (e0_identity_after r)),
      (''resumed_from_transport_checkpoint'', JBool (e0_resumed r)),
      (''membership_before'', texts (e0_membership_before r)),
      (''membership_while_agent_stopped'', texts (e0_membership_while_stopped r)),
      (''membership_after'', texts (e0_membership_after r)),
      (''c2_evidence'', e0_c2_evidence r),
      (''acceptance_failures'', texts (map describe (e0_reasons r)))]"

definition e0_manifest :: "(e0_failure \<Rightarrow> string) \<Rightarrow> file_system \<Rightarrow> manifest_context \<Rightarrow> e0_result \<Rightarrow> run_manifest" where
  "e0_manifest describe fs mc r = experiment_manifest fs mc ''E0'' ''e0'' SAME_DOMAIN_TOPOLOGY (e0_run_id r) (e0_room_id r)
     [(''human_a'', HUMAN_A), (''local_agent'', AGENT_LOCAL)] (e0_started_at r) (e0_passed r) (e0_extra describe r)"

definition class_json :: "class_result \<Rightarrow> json" where
  "class_json k = JObj [(''sender'', JStr (cl_sender k)), (''sent'', nat_json (cl_sent k)), (''acked'', nat_json (cl_acked k)),
     (''timeouts'', nat_json (cl_timeouts k)), (''duplicates'', nat_json (cl_duplicates k))]"

text \<open>A figure of the comparison, with the value it has when there was none.\<close>

definition of_comparison :: "json \<Rightarrow> (federation_comparison \<Rightarrow> json) \<Rightarrow> e1_result \<Rightarrow> json" where
  "of_comparison absent f r = (case e1_comparison r of None \<Rightarrow> absent | Some c \<Rightarrow> f c)"

definition e1_extra :: "(e1_failure \<Rightarrow> string) \<Rightarrow> string option \<Rightarrow> e1_result \<Rightarrow> (string, json) dict" where
  "e1_extra describe artifact r =
     (let acked = (\<lambda>name. case map_of (e1_classes r) name of None \<Rightarrow> nat_json 0 | Some k \<Rightarrow> nat_json (cl_acked k));
          flag = (\<lambda>f. of_comparison (JBool False) (\<lambda>c. JBool (f c)) r);
          size_of = (\<lambda>f. of_comparison (nat_json 0) (\<lambda>c. nat_json (card (f c))) r);
          ids = (\<lambda>f. of_comparison (JList []) (\<lambda>c. sorted_texts (f c)) r)
      in [(''request_classes'', JObj (map (\<lambda>(name, k). (name, class_json k)) (e1_classes r))),
          (''cross_domain_acked'', acked CLASS_CROSS_DOMAIN), (''same_domain_acked'', acked CLASS_SAME_DOMAIN),
          (''membership_after_join'', JObj (map (\<lambda>(d, ms). (d, texts ms)) (e1_membership_after_join r))),
          (''quiet_interval_seconds'', JNum E1_QUIET_INTERVAL_SECONDS),
          (''event_set_equal'', flag event_set_equal), (''membership_compatible'', flag membership_compatible),
          (''a_requests_visible_on_b'', flag a_requests_visible_on_b),
          (''b_requests_visible_on_a'', flag b_requests_visible_on_a),
          (''expected_event_count'', size_of expected_event_ids),
          (''domain_a_event_count'', size_of set_a), (''domain_b_event_count'', size_of set_b),
          (''missing_on_a'', ids missing_on_a), (''missing_on_b'', ids missing_on_b),
          (''unexpected_on_a'', ids unexpected_on_a), (''unexpected_on_b'', ids unexpected_on_b),
          (''federation_comparison_artifact'', opt_str artifact),
          (''acceptance_failures'', texts (map describe (e1_reasons r)))])"

definition e1_manifest ::
  "(e1_failure \<Rightarrow> string) \<Rightarrow> string option \<Rightarrow> file_system \<Rightarrow> manifest_context \<Rightarrow> e1_result \<Rightarrow> run_manifest" where
  "e1_manifest describe artifact fs mc r = experiment_manifest fs mc ''E1'' ''e1'' FEDERATED_TOPOLOGY (e1_run_id r) (e1_room_id r)
     [(''human_a'', HUMAN_A), (''human_b'', HUMAN_B), (''agent'', AGENT)] (e1_started_at r) (e1_passed r)
     (e1_extra describe artifact r)"

section \<open>A campaign of runs\<close>

text \<open>
  \<open>main\<close>: nothing runs past a refused lock; each run is executed and written, an invalid run
  ends the campaign, any other exception leaves the program, and the status says whether all
  runs passed.
\<close>

datatype campaign_end = Exit nat | Uncaught string

fun run_all :: "(nat \<Rightarrow> ('w, 'r) action_of) \<Rightarrow> ('r \<Rightarrow> ('w, unit) action_of) \<Rightarrow> ('r \<Rightarrow> bool) \<Rightarrow> nat \<Rightarrow>
  nat list \<Rightarrow> nat \<Rightarrow> 'w \<Rightarrow> campaign_end" where
  "run_all execute store ok planned [] n w = Exit (if n = planned then 0 else 1)"
| "run_all execute store ok planned (i # is) n w =
     (case act_bind (execute i) (\<lambda>r. act_bind (store r) (\<lambda>_. give r)) w of
        (Inl (InvalidRun _ _), _) \<Rightarrow> Exit 2
      | (Inl (OtherFailure e), _) \<Rightarrow> Uncaught e
      | (Inr r, w') \<Rightarrow> run_all execute store ok planned is (if ok r then n + 1 else n) w')"

definition experiment_main ::
  "bool \<Rightarrow> (nat \<Rightarrow> ('w, 'r) action_of) \<Rightarrow> ('r \<Rightarrow> ('w, unit) action_of) \<Rightarrow> ('r \<Rightarrow> bool) \<Rightarrow> nat \<Rightarrow> 'w \<Rightarrow> campaign_end" where
  "experiment_main locked execute store ok runs w =
     (if \<not> locked then Exit 2 else run_all execute store ok runs [1..<Suc runs] 0 w)"

section \<open>Lemmas\<close>

lemma failing_none [simp]: "failing b r = [] \<longleftrightarrow> \<not> b"
  by (simp add: failing_def)

lemma made_correlation:
  "make_correlation e r n = Inr c \<Longrightarrow> c = \<lparr>experiment_name = e, run_id = r, sequence_id = n\<rparr>"
  by (auto simp: make_correlation_def rbind_eq_Inr split: if_splits)

text \<open>What one answer keeps, the whole loop keeps.\<close>

lemma ask_each_keeps:
  assumes "ask_each wd who exper rid acc n q r w = (Inr r', w')" and "P q r"
    and "\<And>q it r r'. P q r \<Longrightarrow> acc \<lparr>experiment_name = exper, run_id = rid, sequence_id = q\<rparr> it r = Inr r' \<Longrightarrow> P (q + 1) r'"
  shows "P (q + int n) r'"
  using assms(1,2)
proof (induction n arbitrary: q r w)
  case (Suc n)
  then obtain c it r1 w1 where c: "make_correlation exper rid q = Inr c" and r1: "acc c it r = Inr r1"
    and rest: "ask_each wd who exper rid acc n (q + 1) r1 w1 = (Inr r', w')" by (auto simp: act_bind_Inr)
  have "P (q + 1) r1" using assms(3) [OF Suc.prems(2)] r1 made_correlation [OF c] by simp
  with Suc.IH [OF rest] show ?case by (simp add: add.assoc)
qed simp

text \<open>The records of a stretch of requests: numbered from \<open>a\<close>, completed just when they succeeded.\<close>

definition numbered :: "int \<Rightarrow> int \<Rightarrow> runner_record list \<Rightarrow> bool" where
  "numbered a b rs \<longleftrightarrow> map rr_sequence_id rs = [a..b - 1] \<and>
     (\<forall>r \<in> set rs. outcome r = outcome_value (if completed_ns r = None then TIMEOUT else SUCCESS))"

definition completed_count :: "runner_record list \<Rightarrow> nat" where
  "completed_count rs = length (filter (\<lambda>r. completed_ns r \<noteq> None) rs)"

lemma numbered_Nil [simp]: "numbered a a []"
  by (simp add: numbered_def)

lemma numbered_append: "numbered a b xs \<Longrightarrow> numbered b c ys \<Longrightarrow> a \<le> b \<Longrightarrow> b \<le> c \<Longrightarrow> numbered a c (xs @ ys)"
proof -
  assume *: "numbered a b xs" "numbered b c ys" "a \<le> b" "b \<le> c"
  have "[a..b - 1] @ [b..c - 1] = [a..c - 1]"
    using *(3,4) upto_split1 [of a b "c - 1"] by (cases "b = c") simp_all
  with * show "numbered a c (xs @ ys)" by (auto simp: numbered_def)
qed

lemma completed_count_append [simp]: "completed_count (xs @ ys) = completed_count xs + completed_count ys"
  by (simp add: completed_count_def)

lemma completed_count_full: "completed_count rs = length rs \<longleftrightarrow> (\<forall>r \<in> set rs. completed_ns r \<noteq> None)"
  by (simp add: completed_count_def filter_all)

lemma numbered_length: "numbered a b rs \<Longrightarrow> a \<le> b \<Longrightarrow> length rs = nat (b - a)"
proof -
  assume "numbered a b rs"
  then have "length (map rr_sequence_id rs) = length [a..b - 1]" unfolding numbered_def by simp
  then show ?thesis by simp
qed

lemma plain_record_Inr:
  assumes "plain_record topo ph cls room sender role c it (plain_outcome it) = Inr r"
  shows "rr_sequence_id r = sequence_id c" "completed_ns r = it_completed it" "numbered (sequence_id c) (sequence_id c + 1) [r]"
    "rr_request_event_id r = it_request_event_id it" "rr_run_id r = run_id c" "rr_sender r = sender"
  using assms by (auto simp: plain_record_def rbind_eq_Inr numbered_def plain_outcome_def)

lemma plain_record_next:
  assumes "plain_record topo ph cls room sender role \<lparr>experiment_name = e, run_id = rid, sequence_id = q\<rparr> it (plain_outcome it) = Inr r"
    and "numbered a q new" "a \<le> q"
  shows "numbered a (q + 1) (new @ [r])" "completed_count (new @ [r]) = completed_count new + (if it_completed it = None then 0 else 1)"
  using plain_record_Inr [OF assms(1)] assms(2,3) numbered_append [of a q new "q + 1" "[r]"]
  by (simp_all add: completed_count_def)

section \<open>What a baseline run shows\<close>

lemma run_phase_Inr:
  assumes "run_phase wd rid room ph first rs w = (Inr (p, rs'), w')"
  shows "\<exists>new. rs' = rs @ new \<and> numbered first (first + E0_REQUESTS_PER_PHASE) new \<and>
    int (ph_sent p) = E0_REQUESTS_PER_PHASE \<and> ph_acked p = completed_count new"
proof -
  let ?P = "\<lambda>q (p :: phase_result, rs'). \<exists>new. rs' = rs @ new \<and> numbered first q new \<and> first \<le> q \<and>
    int (ph_sent p) = q - first \<and> ph_acked p = completed_count new"
  have step: "?P (q + 1) s'"
    if "?P q s" "e0_account room ph \<lparr>experiment_name = ''E0'', run_id = rid, sequence_id = q\<rparr> it s = Inr s'" for q it s s'
  proof -
    obtain p1 new where s: "s = (p1, rs @ new)" "numbered first q new" "first \<le> q" "int (ph_sent p1) = q - first"
      "ph_acked p1 = completed_count new" using \<open>?P q s\<close> by (cases s) auto
    with that(2) obtain r where r: "plain_record SAME_DOMAIN_TOPOLOGY ph [] room HUMAN_A ''local_agent''
        \<lparr>experiment_name = ''E0'', run_id = rid, sequence_id = q\<rparr> it (plain_outcome it) = Inr r"
      and s': "snd s' = rs @ new @ [r]" "ph_sent (fst s') = ph_sent p1 + 1"
        "ph_acked (fst s') = ph_acked p1 + (if it_completed it = None then 0 else 1)"
      by (auto simp: e0_account_def Let_def rbind_eq_Inr)
    from plain_record_next [OF r s(2,3)] s' s show ?thesis by (cases s') (auto intro!: exI [of _ "new @ [r]"])
  qed
  from assms obtain p0 w1 where "ask_each wd HUMAN_A ''E0'' rid (e0_account room ph) (nat E0_REQUESTS_PER_PHASE) first
      (new_phase ph, rs) w = (Inr (p0, rs'), w1)"
    and p: "p = p0\<lparr>ph_duplicates := w_duplicates wd HUMAN_A w'\<rparr>"
    by (auto simp: run_phase_def act_bind_Inr pause_def)
  from ask_each_keeps [where P = ?P, OF this(1) _ step] have "?P (first + int (nat E0_REQUESTS_PER_PHASE)) (p0, rs')"
    by (simp add: new_phase_def completed_count_def)
  then show ?thesis by (auto simp: p E0_REQUESTS_PER_PHASE_def)
qed

lemma e0_procedure_Inr:
  assumes "e0_procedure wd rid started w = (Inr r, w')"
  shows "\<exists>pre post. e0_phases r = [pre, post] \<and> numbered 1 (1 + E0_REQUESTS_PER_PHASE * 2) (e0_records r) \<and>
    int (ph_sent pre) = E0_REQUESTS_PER_PHASE \<and> int (ph_sent post) = E0_REQUESTS_PER_PHASE \<and>
    ph_acked pre + ph_acked post = completed_count (e0_records r) \<and>
    e0_room_version r = ROOM_VERSION \<and> \<not> e0_encryption_enabled r \<and> e0_run_id r = rid"
proof -
  from assms obtain pre rs1 post rs2 room wa wb wc wd1 v e wx wy where
      one: "run_phase wd rid room ''pre_restart'' 1 [] wa = (Inr (pre, rs1), wb)"
    and two: "run_phase wd rid room ''post_restart'' (E0_REQUESTS_PER_PHASE + 1) rs1 wc = (Inr (post, rs2), wd1)"
    and conf: "configuration wd HUMAN_A room wx = (Inr (v, e), wy)"
    and r: "e0_phases r = [pre, post]" "e0_records r = rs2" "e0_room_version r = v" "e0_encryption_enabled r = e" "e0_run_id r = rid"
    by (auto simp: e0_procedure_def act_bind_Inr)
  from run_phase_Inr [OF one] run_phase_Inr [OF two] obtain new1 new2 where
      n: "rs2 = new1 @ new2" "numbered 1 (1 + E0_REQUESTS_PER_PHASE) new1"
        "numbered (E0_REQUESTS_PER_PHASE + 1) (E0_REQUESTS_PER_PHASE + 1 + E0_REQUESTS_PER_PHASE) new2"
    and k: "int (ph_sent pre) = E0_REQUESTS_PER_PHASE" "int (ph_sent post) = E0_REQUESTS_PER_PHASE"
        "ph_acked pre = completed_count new1" "ph_acked post = completed_count new2" by auto
  have "numbered 1 (1 + E0_REQUESTS_PER_PHASE * 2) (new1 @ new2)"
    using numbered_append [OF n(2), of "1 + E0_REQUESTS_PER_PHASE * 2" new2] n(3) by (simp add: E0_REQUESTS_PER_PHASE_def)
  with k n(1) r configuration_Inr [OF conf] show ?thesis by auto
qed

lemma e0_execute_Inr:
  assumes "e0_execute wd rid started w = (Inr r, w')"
  obtains r0 w0 where "e0_procedure wd rid started w = (Inr r0, w0)" and "r = e0_evaluate r0"
  using assms by (auto simp: e0_execute_def act_bind_Inr finally_clean_Inr)

lemma e0_evaluate_frame [simp]:
  "e0_records (e0_evaluate r) = e0_records r" "e0_phases (e0_evaluate r) = e0_phases r"
  "e0_identity_before (e0_evaluate r) = e0_identity_before r" "e0_identity_after (e0_evaluate r) = e0_identity_after r"
  "e0_membership_after (e0_evaluate r) = e0_membership_after r" "e0_c2_evidence (e0_evaluate r) = e0_c2_evidence r"
  "e0_membership_while_stopped (e0_evaluate r) = e0_membership_while_stopped r" "e0_run_id (e0_evaluate r) = e0_run_id r"
  "e0_total_sent (e0_evaluate r) = e0_total_sent r" "e0_total_acked (e0_evaluate r) = e0_total_acked r"
  "e0_passed (e0_evaluate r) \<longleftrightarrow> e0_criteria r = []" "e0_reasons (e0_evaluate r) = e0_criteria r"
  by (simp_all add: e0_evaluate_def Let_def e0_total_sent_def e0_total_acked_def)

section \<open>What a federated run shows\<close>

text \<open>The ids of the requests that the records of a run carry.\<close>

definition request_ids :: "runner_record list \<Rightarrow> string set" where
  "request_ids rs = {i. i \<noteq> [] \<and> (\<exists>r \<in> set rs. rr_request_event_id r = Some i)}"

lemma request_ids_append [simp]: "request_ids (xs @ ys) = request_ids xs \<union> request_ids ys"
  by (auto simp: request_ids_def)

lemma add_id_ids: "add_id i s = {x. x \<noteq> [] \<and> i = Some x} \<union> s"
  by (cases i) (auto simp: add_id_def)

lemma send_class_Inr:
  assumes "send_class wd who rid room cls first rs w = (Inr (k, rs'), w')"
  shows "\<exists>new. rs' = rs @ new \<and> numbered first (first + E1_REQUESTS_PER_CLASS) new \<and>
    int (cl_sent k) = E1_REQUESTS_PER_CLASS \<and> cl_acked k = completed_count new \<and>
    cl_request_event_ids k = request_ids new \<and> list_all (\<lambda>r. rr_sender r = who) new"
proof -
  let ?P = "\<lambda>q (k :: class_result, rs'). \<exists>new. rs' = rs @ new \<and> numbered first q new \<and> first \<le> q \<and>
    int (cl_sent k) = q - first \<and> cl_acked k = completed_count new \<and> cl_request_event_ids k = request_ids new \<and>
    list_all (\<lambda>r. rr_sender r = who) new"
  have step: "?P (q + 1) s'"
    if "?P q s" "e1_account room cls who \<lparr>experiment_name = ''E1'', run_id = rid, sequence_id = q\<rparr> it s = Inr s'" for q it s s'
  proof -
    obtain k1 new where s: "s = (k1, rs @ new)" "numbered first q new" "first \<le> q" "int (cl_sent k1) = q - first"
      "cl_acked k1 = completed_count new" "cl_request_event_ids k1 = request_ids new" "list_all (\<lambda>r. rr_sender r = who) new"
      using \<open>?P q s\<close> by (cases s) auto
    with that(2) obtain r where r: "plain_record FEDERATED_TOPOLOGY cls cls room who ''federated_agent''
        \<lparr>experiment_name = ''E1'', run_id = rid, sequence_id = q\<rparr> it (plain_outcome it) = Inr r"
      and s': "snd s' = rs @ new @ [r]" "cl_sent (fst s') = cl_sent k1 + 1"
        "cl_acked (fst s') = cl_acked k1 + (if it_completed it = None then 0 else 1)"
        "cl_request_event_ids (fst s') = add_id (it_request_event_id it) (cl_request_event_ids k1)"
      by (auto simp: e1_account_def Let_def rbind_eq_Inr)
    have "cl_request_event_ids (fst s') = request_ids (new @ [r])"
      using s'(4) s(6) plain_record_Inr(4) [OF r] by (auto simp: add_id_ids request_ids_def)
    with plain_record_next [OF r s(2,3)] plain_record_Inr(6) [OF r] s' s show ?thesis
      by (cases s') (auto intro!: exI [of _ "new @ [r]"])
  qed
  from assms obtain k0 w1 where "ask_each wd who ''E1'' rid (e1_account room cls who) (nat E1_REQUESTS_PER_CLASS) first
      (new_class cls who, rs) w = (Inr (k0, rs'), w1)"
    and k: "k = k0\<lparr>cl_duplicates := w_duplicates wd who w'\<rparr>"
    by (auto simp: send_class_def act_bind_Inr pause_def)
  from ask_each_keeps [where P = ?P, OF this(1) _ step] have "?P (first + int (nat E1_REQUESTS_PER_CLASS)) (k0, rs')"
    by (simp add: new_class_def completed_count_def request_ids_def)
  then show ?thesis by (auto simp: k E1_REQUESTS_PER_CLASS_def)
qed

lemma e1_procedure_Inr:
  assumes "e1_procedure wd rid started w = (Inr r, w')"
  shows "\<exists>cross local acks a b. e1_classes r = [(CLASS_CROSS_DOMAIN, cross), (CLASS_SAME_DOMAIN, local)] \<and>
    numbered 1 (1 + E1_REQUESTS_PER_CLASS * 2) (e1_records r) \<and>
    int (cl_sent cross) = E1_REQUESTS_PER_CLASS \<and> int (cl_sent local) = E1_REQUESTS_PER_CLASS \<and>
    cl_acked cross + cl_acked local = completed_count (e1_records r) \<and>
    (int (cl_acked cross) \<le> E1_REQUESTS_PER_CLASS \<and> int (cl_acked local) \<le> E1_REQUESTS_PER_CLASS) \<and>
    e1_comparison r = Some ((expected_comparison rid (e1_room_id r) (cl_request_event_ids cross) (cl_request_event_ids local) acks)
      \<lparr>view_a := Some a, view_b := Some b\<rparr>) \<and>
    cl_request_event_ids cross = request_ids (filter (\<lambda>r. rr_sender r = HUMAN_A) (e1_records r)) \<and>
    cl_request_event_ids local = request_ids (filter (\<lambda>r. rr_sender r = HUMAN_B) (e1_records r)) \<and>
    e1_room_version r = ROOM_VERSION \<and> \<not> e1_encryption_enabled r \<and> e1_run_id r = rid"
proof -
  from assms obtain cross rs1 local rs2 room wa wb wc wd1 v e wx wy telemetry a b where
      one: "send_class wd HUMAN_A rid room CLASS_CROSS_DOMAIN 1 [] wa = (Inr (cross, rs1), wb)"
    and two: "send_class wd HUMAN_B rid room CLASS_SAME_DOMAIN (E1_REQUESTS_PER_CLASS + 1) rs1 wc = (Inr (local, rs2), wd1)"
    and conf: "configuration wd HUMAN_A room wx = (Inr (v, e), wy)"
    and r: "e1_classes r = [(CLASS_CROSS_DOMAIN, cross), (CLASS_SAME_DOMAIN, local)]" "e1_records r = rs2"
      "e1_room_version r = v" "e1_encryption_enabled r = e" "e1_run_id r = rid"
      "e1_comparison r = Some ((expected_comparison rid (e1_room_id r) (cl_request_event_ids cross) (cl_request_event_ids local)
           (responded_ids telemetry))\<lparr>view_a := Some a, view_b := Some b\<rparr>)"
    by (auto simp: e1_procedure_def act_bind_Inr)
  from send_class_Inr [OF one] send_class_Inr [OF two] obtain new1 new2 where
      n: "rs2 = new1 @ new2" "numbered 1 (1 + E1_REQUESTS_PER_CLASS) new1"
        "numbered (E1_REQUESTS_PER_CLASS + 1) (E1_REQUESTS_PER_CLASS + 1 + E1_REQUESTS_PER_CLASS) new2"
    and k: "int (cl_sent cross) = E1_REQUESTS_PER_CLASS" "int (cl_sent local) = E1_REQUESTS_PER_CLASS"
        "cl_acked cross = completed_count new1" "cl_acked local = completed_count new2"
        "cl_request_event_ids cross = request_ids new1" "cl_request_event_ids local = request_ids new2"
        "list_all (\<lambda>r. rr_sender r = HUMAN_A) new1" "list_all (\<lambda>r. rr_sender r = HUMAN_B) new2" by auto
  have all: "numbered 1 (1 + E1_REQUESTS_PER_CLASS * 2) (new1 @ new2)"
    using numbered_append [OF n(2), of "1 + E1_REQUESTS_PER_CLASS * 2" new2] n(3) by (simp add: E1_REQUESTS_PER_CLASS_def)
  have le: "int (completed_count new1) \<le> E1_REQUESTS_PER_CLASS" "int (completed_count new2) \<le> E1_REQUESTS_PER_CLASS"
    using numbered_length [OF n(2)] numbered_length [OF n(3)] length_filter_le [of "\<lambda>r. completed_ns r \<noteq> None" new1]
      length_filter_le [of "\<lambda>r. completed_ns r \<noteq> None" new2]
    by (simp_all add: completed_count_def E1_REQUESTS_PER_CLASS_def)
  have "filter (\<lambda>r. rr_sender r = HUMAN_A) (new1 @ new2) = new1" "filter (\<lambda>r. rr_sender r = HUMAN_B) (new1 @ new2) = new2"
    using k(7,8) by (auto simp: HUMAN_A_def HUMAN_B_def list_all_iff filter_empty_conv intro!: filter_True)
  with k n(1) r configuration_Inr [OF conf] all le show ?thesis by auto
qed

lemma e1_execute_Inr:
  assumes "e1_execute wd rid started w = (Inr r, w')"
  obtains r0 w0 where "e1_procedure wd rid started w = (Inr r0, w0)" and "r = e1_evaluate r0"
  using assms by (auto simp: e1_execute_def act_bind_Inr finally_clean_Inr)

lemma e1_evaluate_frame [simp]:
  "e1_records (e1_evaluate r) = e1_records r" "e1_classes (e1_evaluate r) = e1_classes r"
  "e1_comparison (e1_evaluate r) = e1_comparison r" "e1_run_id (e1_evaluate r) = e1_run_id r"
  "e1_passed (e1_evaluate r) \<longleftrightarrow> e1_criteria r = []" "e1_reasons (e1_evaluate r) = e1_criteria r"
  by (simp_all add: e1_evaluate_def Let_def)

section \<open>A world in which everything works\<close>

definition sample_name :: "int \<Rightarrow> string" where
  "sample_name q = CHR ''$'' # dec (nat q)"

definition sample_answer :: "correlation \<Rightarrow> interaction" where
  "sample_answer c = (new_interaction c ''txn'' 0 Returned)\<lparr>it_request_event_id := Some (sample_name (sequence_id c)),
     it_response_event_id := Some ''$ack'', it_completed := Some 5, it_ack_ids := [''$ack''], it_done := True\<rparr>"

definition sample_loads :: "string \<Rightarrow> json option" where
  "sample_loads l = (if l = ''connected'' then Some (JObj [(''action'', JStr l), (''agent_mxid'', JStr AGENT_LOCAL),
       (''note'', JStr ''resumed from transport checkpoint'')])
     else if l = ''privilege_evidence'' then Some (JObj [(''action'', JStr l),
       (''c2_evidence'', JObj [(''c2_supporting_evidence_complete'', JBool True)])])
     else if l = ''responded'' then Some (JObj [(''action'', JStr l), (''response_event_id'', JStr ''$ack'')])
     else None)"

definition sample_domain_view :: "string \<Rightarrow> domain_view" where
  "sample_domain_view who = (empty_view [] who)\<lparr>dv_membership := [HUMAN_A, AGENT, HUMAN_B],
     experimental_event_ids := insert ''$ack'' (sample_name ` {1..40})\<rparr>"

definition sample_experiment :: "unit world" where
  "sample_experiment = \<lparr>w_start = (\<lambda>_. give ()), w_create_room = (\<lambda>_ _. give ''!r''),
     w_room_state = (\<lambda>_ _. give (ROOM_VERSION, False)), w_join = (\<lambda>_ _. give ()), w_agent_start = give (),
     w_agent_stop = give (), w_members = (\<lambda>_ _. give [HUMAN_A, AGENT_LOCAL]), w_sleep = (\<lambda>_ w. w), w_clock = (\<lambda>w. (7, w)),
     w_request = (\<lambda>_ c _. give (sample_answer c)), w_send_offline = (\<lambda>_ c. give (sample_answer c)),
     w_await_acks = (\<lambda>_ cs _. give (length cs)), w_interaction = (\<lambda>_ c _. Some (sample_answer c)),
     w_duplicates = (\<lambda>_ _. 0), w_gather = (\<lambda>_ _ _ cs w. (map (\<lambda>c. Inr (sample_answer c)) cs, w)),
     w_view = (\<lambda>who _ _. give (sample_domain_view who)),
     w_agent_lines = (\<lambda>_. Some [''connected'', '' '', ''privilege_evidence'', ''{'', ''responded'']),
     w_cleanup = (\<lambda>w. w), w_loads = sample_loads, w_str = (\<lambda>_. []), w_error = (\<lambda>_. []), w_exn = (\<lambda>_. [])\<rparr>"

lemma length_dec: "length (dec n) \<le> n + 1"
proof (induction n rule: dec.induct)
  case (1 n)
  show ?case
  proof (cases "n < 10")
    case False
    with 1 have "length (dec n) \<le> n div 10 + 2" by (simp add: dec.simps [of n])
    also have "\<dots> \<le> n + 1" using False by simp
    finally show ?thesis .
  qed (simp add: dec.simps [of n])
qed

lemma small_response_txn: "\<lbrakk>sequence_id c \<le> 4000\<rbrakk> \<Longrightarrow> \<exists>t. txn_id c ''response'' = Inr t"
  using length_dec [of "nat (sequence_id c)"]
  by (simp add: txn_id_def sequence_token_def py_str_int_def Let_def max_str_digits_def)

lemma small_plain_record:
  "\<lbrakk>sequence_id c \<le> 4000\<rbrakk> \<Longrightarrow> \<exists>r. plain_record topo ph cls room sender role c it out = Inr r"
  using small_response_txn [of c] by (auto simp: plain_record_def)

text \<open>A loop none of whose requests fails comes to its end.\<close>

lemma ask_each_runs:
  assumes "\<And>q. 0 \<le> q \<Longrightarrow> make_correlation exper rid q = Inr \<lparr>experiment_name = exper, run_id = rid, sequence_id = q\<rparr>"
    and "\<And>c t. w_request wd who c t w = (Inr (f c), w)" and "0 \<le> first" "P first r"
    and "\<And>q r. first \<le> q \<Longrightarrow> q < first + int n \<Longrightarrow> P q r \<Longrightarrow>
      \<exists>r'. acc \<lparr>experiment_name = exper, run_id = rid, sequence_id = q\<rparr>
        (f \<lparr>experiment_name = exper, run_id = rid, sequence_id = q\<rparr>) r = Inr r' \<and> P (q + 1) r'"
  shows "\<exists>r'. ask_each wd who exper rid acc n first r w = (Inr r', w) \<and> P (first + int n) r'"
  using assms(3-5)
proof (induction n arbitrary: first r)
  case (Suc n)
  from Suc.prems(3) [of first r] Suc.prems(2) obtain r1 where
    r1: "acc \<lparr>experiment_name = exper, run_id = rid, sequence_id = first\<rparr>
        (f \<lparr>experiment_name = exper, run_id = rid, sequence_id = first\<rparr>) r = Inr r1" "P (first + 1) r1" by auto
  have "\<exists>r'. ask_each wd who exper rid acc n (first + 1) r1 w = (Inr r', w) \<and> P (first + 1 + int n) r'"
    using Suc.prems r1(2) by (intro Suc.IH) auto
  then show ?case using assms(1,2) Suc.prems(1) r1(1)
    by (auto simp: act_bind_def passes_def or_fail_def add.assoc)
qed (simp add: give_def)

lemma sample_correlations:
  assumes "exper = ''E0'' \<or> exper = ''E1''" "0 \<le> q"
  shows "make_correlation exper ''r1'' q = Inr \<lparr>experiment_name = exper, run_id = ''r1'', sequence_id = q\<rparr>"
proof -
  have "check_token ''E0'' = Inr ''E0''" "check_token ''E1'' = Inr ''E1''" "check_token ''r1'' = Inr ''r1''" by code_simp+
  with assms show ?thesis by (auto simp: make_correlation_def)
qed

lemma sample_request [simp]: "w_request sample_experiment who c t w = (Inr (sample_answer c), w)"
  by (simp add: sample_experiment_def give_def)

lemma sample_answer_fields [simp]:
  "it_completed (sample_answer c) = Some 5" "it_request_event_id (sample_answer c) = Some (sample_name (sequence_id c))"
  by (simp_all add: sample_answer_def)

abbreviation all_completed :: "runner_record list \<Rightarrow> bool" where
  "all_completed rs \<equiv> list_all (\<lambda>r. completed_ns r \<noteq> None) rs"

lemma sample_account:
  assumes "sequence_id c \<le> 4000" "all_completed (snd s)"
  shows "\<exists>s'. e0_account room ph c (sample_answer c) s = Inr s' \<and> all_completed (snd s')"
proof -
  obtain r where r: "plain_record SAME_DOMAIN_TOPOLOGY ph [] room HUMAN_A ''local_agent'' c (sample_answer c)
      (plain_outcome (sample_answer c)) = Inr r"
    using small_plain_record [OF assms(1)] by blast
  with plain_record_Inr(2) [OF r] assms(2) show ?thesis
    by (cases s) (simp add: e0_account_def Let_def)
qed

lemma sample_phase:
  assumes "0 \<le> first" "first \<le> 100" "all_completed rs"
  obtains p rs' where "run_phase sample_experiment ''r1'' room ph first rs () = (Inr (p, rs'), ())"
    "all_completed rs'" "ph_duplicates p = 0"
proof -
  have "\<exists>r'. ask_each sample_experiment HUMAN_A ''E0'' ''r1'' (e0_account room ph) 20 first (new_phase ph, rs) () = (Inr r', ()) \<and>
      all_completed (snd r')"
  proof (rule ask_each_runs [where P = "\<lambda>_ s. all_completed (snd s)"])
    show "\<exists>r'. e0_account room ph \<lparr>experiment_name = ''E0'', run_id = ''r1'', sequence_id = q\<rparr>
        (sample_answer \<lparr>experiment_name = ''E0'', run_id = ''r1'', sequence_id = q\<rparr>) r = Inr r' \<and> all_completed (snd r')"
      if "q < first + int 20" "all_completed (snd r)" for q r
      using that assms(2) by (intro sample_account) simp_all
  qed (use assms in \<open>simp_all add: sample_correlations\<close>)
  then obtain p rs' where "ask_each sample_experiment HUMAN_A ''E0'' ''r1'' (e0_account room ph) 20 first (new_phase ph, rs) () =
      (Inr (p, rs'), ())" "all_completed rs'" by auto
  then show ?thesis
    by (intro that [of "p\<lparr>ph_duplicates := 0\<rparr>" rs'])
      (simp_all add: run_phase_def act_bind_def E0_REQUESTS_PER_PHASE_def pause_def sample_experiment_def)
qed

lemma sample_lines: "agent_telemetry sample_experiment w = List.map_filter sample_loads [''connected'', ''privilege_evidence'', ''{'', ''responded'']"
proof -
  have "filter (\<lambda>l. l \<noteq> []) (map strip [''connected'', '' '', ''privilege_evidence'', ''{'', ''responded'']) =
    [''connected'', ''privilege_evidence'', ''{'', ''responded'']" by code_simp
  then show ?thesis by (simp add: agent_telemetry_def read_jsonl_def sample_experiment_def del: filter.simps list.map)
qed

lemma sample_telemetry:
  "agent_identity (w_str sample_experiment) (agent_telemetry sample_experiment w) latest = AGENT_LOCAL"
  "json_true (obj_get (first_c2_evidence (agent_telemetry sample_experiment w)) ''c2_supporting_evidence_complete'')"
  "responded_ids (agent_telemetry sample_experiment w) = {''$ack''}"
  by (simp_all add: sample_lines map_filter_simps sample_loads_def agent_identity_def has_action_def obj_get_def get_default_def
    py_str_def value_of_def first_c2_evidence_def responded_ids_def Let_def)

lemma sample_steps [simp]:
  "w_start sample_experiment who w = (Inr (), w)" "w_create_room sample_experiment who is w = (Inr ''!r'', w)"
  "configuration sample_experiment who room w = (Inr (ROOM_VERSION, False), w)"
  "w_join sample_experiment who room w = (Inr (), w)" "w_agent_start sample_experiment w = (Inr (), w)"
  "w_agent_stop sample_experiment w = (Inr (), w)" "w_members sample_experiment who room w = (Inr [HUMAN_A, AGENT_LOCAL], w)"
  "pause sample_experiment secs w = (Inr (), w)" "w_cleanup sample_experiment w = w"
  "w_view sample_experiment who side room w = (Inr (sample_domain_view who), w)" "w_duplicates sample_experiment who w = 0"
  by (simp_all add: sample_experiment_def give_def configuration_def act_bind_def passes_def
    assert_frozen_room_configuration_def pause_def)

lemma sample_baseline:
  obtains r where "e0_execute sample_experiment ''r1'' [] () = (Inr r, ())" "all_completed (e0_records r)"
    "\<forall>p \<in> set (e0_phases r). ph_duplicates p = 0" "e0_identity_before r = AGENT_LOCAL" "e0_identity_after r = AGENT_LOCAL"
    "e0_membership_while_stopped r = [HUMAN_A, AGENT_LOCAL]" "e0_membership_after r = [HUMAN_A, AGENT_LOCAL]"
    "json_true (obj_get (e0_c2_evidence r) ''c2_supporting_evidence_complete'')"
proof -
  obtain p rs where one: "run_phase sample_experiment ''r1'' ''!r'' ''pre_restart'' 1 [] () = (Inr (p, rs), ())"
    "all_completed rs" "ph_duplicates p = 0" by (rule sample_phase [of 1 "[]" "''!r''" "''pre_restart''"]) simp_all
  obtain q rs' where two: "run_phase sample_experiment ''r1'' ''!r'' ''post_restart'' (E0_REQUESTS_PER_PHASE + 1) rs () = (Inr (q, rs'), ())"
    "all_completed rs'" "ph_duplicates q = 0"
    by (rule sample_phase [of "E0_REQUESTS_PER_PHASE + 1" rs "''!r''" "''post_restart''"])
      (use one(2) in \<open>simp_all add: E0_REQUESTS_PER_PHASE_def\<close>)
  obtain r0 where r0: "e0_procedure sample_experiment ''r1'' [] () = (Inr r0, ())" "e0_records r0 = rs'" "e0_phases r0 = [p, q]"
    "e0_identity_before r0 = AGENT_LOCAL" "e0_identity_after r0 = AGENT_LOCAL"
    "e0_membership_while_stopped r0 = [HUMAN_A, AGENT_LOCAL]" "e0_membership_after r0 = [HUMAN_A, AGENT_LOCAL]"
    "json_true (obj_get (e0_c2_evidence r0) ''c2_supporting_evidence_complete'')"
    by (simp add: e0_procedure_def act_bind_def one(1) two(1) read_telemetry_def sample_telemetry give_def)
  then have "e0_execute sample_experiment ''r1'' [] () = (Inr (e0_evaluate r0), ())"
    by (simp add: e0_execute_def act_bind_def finally_clean_def give_def)
  then show ?thesis
    by (rule that) (use r0 one two in simp_all)
qed

lemma sample_class_account:
  assumes "sequence_id c \<le> 4000" "all_completed (snd s)"
  shows "\<exists>s'. e1_account room cls who c (sample_answer c) s = Inr s' \<and> all_completed (snd s') \<and>
    cl_request_event_ids (fst s') = insert (sample_name (sequence_id c)) (cl_request_event_ids (fst s))"
proof -
  obtain r where r: "plain_record FEDERATED_TOPOLOGY cls cls room who ''federated_agent'' c (sample_answer c)
      (plain_outcome (sample_answer c)) = Inr r"
    using small_plain_record [OF assms(1)] by blast
  with plain_record_Inr(2) [OF r] assms(2) show ?thesis
    by (cases s) (simp add: e1_account_def Let_def add_id_def sample_name_def)
qed

lemma sample_class:
  assumes "0 \<le> first" "first \<le> 100" "all_completed rs"
  obtains k rs' where "send_class sample_experiment who ''r1'' room cls first rs () = (Inr (k, rs'), ())"
    "all_completed rs'" "cl_duplicates k = 0" "cl_request_event_ids k = sample_name ` {first..<first + 20}"
proof -
  let ?P = "\<lambda>q s. all_completed (snd s) \<and> cl_request_event_ids (fst s) = sample_name ` {first..<q} \<and> first \<le> q"
  have "\<exists>r'. ask_each sample_experiment who ''E1'' ''r1'' (e1_account room cls who) 20 first (new_class cls who, rs) () = (Inr r', ()) \<and>
      ?P (first + int 20) r'"
  proof (rule ask_each_runs [where P = ?P])
    show "\<exists>r'. e1_account room cls who \<lparr>experiment_name = ''E1'', run_id = ''r1'', sequence_id = q\<rparr>
        (sample_answer \<lparr>experiment_name = ''E1'', run_id = ''r1'', sequence_id = q\<rparr>) r = Inr r' \<and> ?P (q + 1) r'"
      if "q < first + int 20" "?P q r" for q r
    proof -
      have "{first..<q + 1} = insert q {first..<q}" using that by auto
      then show ?thesis
        using sample_class_account [of "\<lparr>experiment_name = ''E1'', run_id = ''r1'', sequence_id = q\<rparr>" r room cls who] that assms(2)
        by auto
    qed
  qed (use assms in \<open>simp_all add: sample_correlations new_class_def\<close>)
  then obtain k rs' where "ask_each sample_experiment who ''E1'' ''r1'' (e1_account room cls who) 20 first (new_class cls who, rs) () =
      (Inr (k, rs'), ())" "all_completed rs'" "cl_request_event_ids k = sample_name ` {first..<first + 20}" by auto
  then show ?thesis
    by (intro that [of "k\<lparr>cl_duplicates := 0\<rparr>" rs'])
      (simp_all add: send_class_def act_bind_def E1_REQUESTS_PER_CLASS_def)
qed

lemma sample_federated:
  obtains r c where "e1_execute sample_experiment ''r1'' [] () = (Inr r, ())" "e1_comparison r = Some c" "all_completed (e1_records r)"
    "\<forall>k \<in> snd ` set (e1_classes r). cl_duplicates k = 0" "set_a c = expected_event_ids c" "set_b c = expected_event_ids c"
    "membership_a c = {HUMAN_A, HUMAN_B, AGENT}" "membership_b c = {HUMAN_A, HUMAN_B, AGENT}"
proof -
  obtain k rs where one: "send_class sample_experiment HUMAN_A ''r1'' ''!r'' CLASS_CROSS_DOMAIN 1 [] () = (Inr (k, rs), ())"
    "all_completed rs" "cl_duplicates k = 0" "cl_request_event_ids k = sample_name ` {1..<1 + 20}"
    by (rule sample_class [of 1 "[]" HUMAN_A "''!r''" CLASS_CROSS_DOMAIN]) simp_all
  obtain l rs' where two: "send_class sample_experiment HUMAN_B ''r1'' ''!r'' CLASS_SAME_DOMAIN (E1_REQUESTS_PER_CLASS + 1) rs () = (Inr (l, rs'), ())"
    "all_completed rs'" "cl_duplicates l = 0" "cl_request_event_ids l = sample_name ` {21..<41}"
    by (rule sample_class [of "E1_REQUESTS_PER_CLASS + 1" rs HUMAN_B "''!r''" CLASS_SAME_DOMAIN])
      (use one(2) in \<open>simp_all add: E1_REQUESTS_PER_CLASS_def\<close>)
  have "{1..40::int} = {1..<1 + 20} \<union> {21..<41}" by auto
  then have all: "sample_name ` {1..40} = cl_request_event_ids k \<union> cl_request_event_ids l"
    by (simp only: one(4) two(4) image_Un)
  obtain r0 where r0: "e1_procedure sample_experiment ''r1'' [] () = (Inr r0, ())" "e1_records r0 = rs'"
    "e1_classes r0 = [(CLASS_CROSS_DOMAIN, k), (CLASS_SAME_DOMAIN, l)]"
    "e1_comparison r0 = Some ((expected_comparison ''r1'' ''!r'' (cl_request_event_ids k) (cl_request_event_ids l) {''$ack''})
       \<lparr>view_a := Some (sample_domain_view HUMAN_A), view_b := Some (sample_domain_view HUMAN_B)\<rparr>)"
    by (simp add: e1_procedure_def act_bind_def one(1) two(1) read_telemetry_def sample_telemetry give_def)
  then have run: "e1_execute sample_experiment ''r1'' [] () = (Inr (e1_evaluate r0), ())"
    by (simp add: e1_execute_def act_bind_def finally_clean_def give_def)
  let ?c = "(expected_comparison ''r1'' ''!r'' (cl_request_event_ids k) (cl_request_event_ids l) {''$ack''})
       \<lparr>view_a := Some (sample_domain_view HUMAN_A), view_b := Some (sample_domain_view HUMAN_B)\<rparr>"
  have "e1_comparison (e1_evaluate r0) = Some ?c" using r0(4) by simp
  then show ?thesis
    by (rule that [OF run]) (use r0 one two all in \<open>auto simp: set_a_def set_b_def view_ids_def membership_a_def membership_b_def
      view_members_def sample_domain_view_def expected_comparison_def\<close>)
qed

section \<open>Properties\<close>

text \<open>
  C29: The verdict of a baseline run is what its stream and its telemetry say. A run that
  finishes has written the records 1 to 40 in order, each a success exactly when it carries a
  completion, and its totals are those of the records; it passes exactly when every record
  has a completion, neither phase saw a duplicate ACK, the agent's identity was seen and is
  the same after the restart, its membership survived both, and the C2 evidence is complete.
  The criteria on the number sent and on the room never decide: they hold for every run that
  finishes.
\<close>

theorem baseline_verdict_exact:
  assumes "e0_execute wd rid started w = (Inr r, w')"
  shows "map rr_sequence_id (e0_records r) = [1..40] \<and>
    (\<forall>x \<in> set (e0_records r). outcome x = (if completed_ns x = None then ''timeout'' else ''success'')) \<and>
    e0_total_sent r = length (e0_records r) \<and>
    e0_total_acked r = length (filter (\<lambda>x. outcome x = ''success'') (e0_records r)) \<and>
    (e0_passed r \<longleftrightarrow> (\<forall>x \<in> set (e0_records r). completed_ns x \<noteq> None) \<and>
       (\<forall>p \<in> set (e0_phases r). ph_duplicates p = 0) \<and>
       e0_identity_before r \<noteq> [] \<and> e0_identity_after r = e0_identity_before r \<and>
       AGENT_LOCAL \<in> set (e0_membership_while_stopped r) \<and> AGENT_LOCAL \<in> set (e0_membership_after r) \<and>
       json_true (obj_get (e0_c2_evidence r) ''c2_supporting_evidence_complete''))"
proof -
  obtain r0 w0 where r0: "e0_procedure wd rid started w = (Inr r0, w0)" and r: "r = e0_evaluate r0"
    using assms by (rule e0_execute_Inr)
  from e0_procedure_Inr [OF r0] obtain pre post where ph: "e0_phases r0 = [pre, post]"
    and num: "numbered 1 41 (e0_records r0)" and sent: "ph_sent pre = 20" "ph_sent post = 20"
    and acked: "ph_acked pre + ph_acked post = completed_count (e0_records r0)"
    and room: "e0_room_version r0 = ROOM_VERSION" "\<not> e0_encryption_enabled r0"
    by (auto simp: E0_REQUESTS_PER_PHASE_def)
  have len: "length (e0_records r0) = 40" using numbered_length [OF num] by simp
  have out: "\<forall>x \<in> set (e0_records r0). outcome x = (if completed_ns x = None then ''timeout'' else ''success'')"
    using num by (auto simp: numbered_def)
  then have "filter (\<lambda>x. outcome x = ''success'') (e0_records r0) = filter (\<lambda>x. completed_ns x \<noteq> None) (e0_records r0)"
    by (intro filter_cong) auto
  moreover have "completed_count (e0_records r0) = 40 \<longleftrightarrow> (\<forall>x \<in> set (e0_records r0). completed_ns x \<noteq> None)"
    using completed_count_full [of "e0_records r0"] len by simp
  ultimately show ?thesis
    using num out len room sent acked unfolding r
    by (auto simp: e0_criteria_def Let_def ph e0_total_sent_def e0_total_acked_def e0_total_duplicates_def
      completed_count_def numbered_def E0_REQUESTS_PER_PHASE_def)
qed

theorem baseline_verdict_exact_witness:
  "\<exists>r. e0_execute sample_experiment ''r1'' [] () = (Inr r, ()) \<and> e0_passed r \<and> map rr_sequence_id (e0_records r) = [1..40] \<and>
     e0_total_acked r = 40"
proof -
  obtain r where r: "e0_execute sample_experiment ''r1'' [] () = (Inr r, ())" "all_completed (e0_records r)"
    "\<forall>p \<in> set (e0_phases r). ph_duplicates p = 0" "e0_identity_before r = AGENT_LOCAL" "e0_identity_after r = AGENT_LOCAL"
    "e0_membership_while_stopped r = [HUMAN_A, AGENT_LOCAL]" "e0_membership_after r = [HUMAN_A, AGENT_LOCAL]"
    "json_true (obj_get (e0_c2_evidence r) ''c2_supporting_evidence_complete'')"
    by (rule sample_baseline)
  note exact = baseline_verdict_exact [OF r(1)]
  have finished: "\<forall>x \<in> set (e0_records r). completed_ns x \<noteq> None" using r(2) by (auto simp: list_all_iff)
  have "length (e0_records r) = length [1..40::int]" using exact by (metis length_map)
  moreover have "filter (\<lambda>x. outcome x = ''success'') (e0_records r) = e0_records r"
    using exact finished by (intro filter_True) auto
  ultimately have "e0_total_acked r = 40" using exact by simp
  moreover have "e0_passed r" using exact r finished by (simp add: AGENT_LOCAL_def)
  ultimately show ?thesis using exact r(1) by blast
qed



end
