(* ===== verification/Agent_Stream.thy ===== *)
theory Agent_Stream
  imports Crash_Safe Schemas
begin

text \<open>
  The lines of the agent's telemetry stream: the dictionary that \<^verbatim>\<open>agent/runtime.py\<close> writes for
  each record of the theory \<open>Runtime\<close>. The facts of an executor call are kept there as texts;
  \<open>say\<close> gives the JSON value of one, and \<open>str\<close> the text of an exception.
\<close>

definition agent_base :: "agent_config \<Rightarrow> string \<Rightarrow> (string, json) dict" where
  "agent_base cfg act = [(''experiment'', JStr (cfg_experiment cfg)), (''run_id'', JStr (cfg_run_id cfg)),
     (''agent_mxid'', JStr (cfg_user_id cfg)), (''action'', JStr act)]"

definition execution_json :: "(string \<Rightarrow> json) \<Rightarrow> execution_info \<Rightarrow> json" where
  "execution_json say i = (case i of
     NoExecution \<Rightarrow> JNull
   | LastCall name facts \<Rightarrow> JObj (AList.update ''executor'' (JStr name) (map (\<lambda>(k, v). (k, say v)) facts))
   | FailedExecution name ext status \<Rightarrow> JObj [(''executor'', JStr name), (''failed'', JBool True),
       (''external_dependency_failure'', JBool ext), (''status'', case status of None \<Rightarrow> JNull | Some s \<Rightarrow> say s)])"

definition observation_json :: "(string \<Rightarrow> json) \<Rightarrow> agent_config \<Rightarrow> agent_record \<Rightarrow> (string, json) dict" where
  "observation_json say cfg r =
     [(''experiment'', JStr (cfg_experiment cfg)), (''run_id'', JStr (cfg_run_id cfg)),
      (''sequence_id'', opt_num (rec_sequence_id r)), (''room_id'', JStr (cfg_room_id cfg)),
      (''agent_mxid'', JStr (cfg_user_id cfg)), (''sender'', JStr (rec_sender r)),
      (''request_event_id'', opt_str (request_event_id r)),
      (''received_monotonic_ns'', opt_num (received_monotonic_ns r)),
      (''processed_monotonic_ns'', opt_num (processed_monotonic_ns r)),
      (''response_txn_id'', opt_str (rec_response_txn_id r)),
      (''response_event_id'', opt_str (rec_response_event_id r)),
      (''duplicate_decision'', JStr (duplicate_decision r)), (''action'', JStr (action r)),
      (''sync_token_present'', JBool (sync_token_present r)), (''history_pagination_invoked'', JBool False),
      (''note'', JStr (rec_note r)), (''execution'', execution_json say (execution_info r))]"

definition text_list :: "string list \<Rightarrow> json" where
  "text_list ss = JList (map JStr ss)"

definition count_json :: "nat \<Rightarrow> json" where
  "count_json n = num (int n)"

definition c2_json :: "c2_summary \<Rightarrow> json" where
  "c2_json c = (let e = c2_evidence c in JObj
     [(''no_privileged_env_vars'', JBool (no_privileged_env_vars e)),
      (''privileged_env_vars_found'', text_list (privileged_env_vars_found e)),
      (''no_server_paths_visible'', JBool (no_server_paths_visible e)),
      (''server_paths_found'', text_list (server_paths_found e)),
      (''no_signing_keys_visible'', JBool (no_signing_keys_visible e)),
      (''signing_keys_found'', text_list (signing_keys_found e)),
      (''no_synapse_mounts'', JBool (no_synapse_mounts e)),
      (''synapse_mounts_found'', text_list (synapse_mounts_found e)),
      (''admin_probe_path'', JStr (admin_probe_path c)),
      (''admin_probe_status'', opt_num (admin_probe_status c)),
      (''admin_probe_denied'', JBool (admin_probe_denied c)),
      (''c2_supporting_evidence_complete'', JBool (c2_supporting_evidence_complete c)),
      (''note'', JStr (''Supporting evidence only. C2 rests on the combination of ordinary '' @
         ''Client-Server operation, absent privileged credentials and mounts, '' @
         ''explicit rejection of privileged API access, and successful E0.''))])"

definition ledger_json :: "ledger_summary \<Rightarrow> (string, json) dict" where
  "ledger_json s =
     [(''limited_timeline'', JBool (s_limited_timeline s)), (''prev_batch_present'', JBool (s_prev_batch_present s)),
      (''pagination_invoked'', JBool (s_pagination_invoked s)), (''history_pages_fetched'', count_json (s_history_pages_fetched s)),
      (''recovered_total'', count_json (s_recovered_total s)), (''recovered_from_sync'', count_json (s_recovered_from_sync s)),
      (''recovered_from_history'', count_json (s_recovered_from_history s)),
      (''duplicate_observations'', count_json (s_duplicate_observations s)),
      (''logically_processed'', count_json (s_logically_processed s))]"

definition episode_json :: "episode \<Rightarrow> (string, json) dict" where
  "episode_json ep =
     [(''recovery_episode'', count_json (recovery_episode ep)), (''recovery_trigger'', JStr (recovery_trigger ep)),
      (''room_id'', JStr (ep_room_id ep)), (''previous_checkpoint_present'', JBool (previous_checkpoint_present ep)),
      (''sync_limited'', JBool (sync_limited ep)), (''direct_from_sync'', count_json (direct_from_sync ep)),
      (''history_pages_fetched'', count_json (ep_history_pages_fetched ep)),
      (''recovered_from_history'', count_json (recovered_from_history ep)),
      (''duplicate_observations'', count_json (duplicate_observations ep)),
      (''reconciled_unique_events'', count_json (reconciled_unique_events ep))]"

text \<open>The note a live episode that failed leaves behind.\<close>

definition failed_episode_json :: "(exn \<Rightarrow> string) \<Rightarrow> exn \<Rightarrow> string option \<Rightarrow> (string, json) dict" where
  "failed_episode_json str e retained =
     [(''recovery_trigger'', JStr ''live_sync''), (''recovery_failed'', JBool True), (''error'', JStr (str e)),
      (''checkpoint_retained'', opt_str retained)]"

definition telemetry_dict :: "(exn \<Rightarrow> string) \<Rightarrow> (string \<Rightarrow> json) \<Rightarrow> agent_config \<Rightarrow> telemetry \<Rightarrow> (string, json) dict" where
  "telemetry_dict str say cfg t = (case t of
     Observation r \<Rightarrow> observation_json say cfg r
   | CheckpointLoaded present again limit \<Rightarrow> agent_base cfg ''checkpoint_loaded'' @
       [(''checkpoint_present'', JBool present), (''resumed_from_checkpoint'', JBool again), (''timeline_limit'', nat_num limit)]
   | PrivilegeEvidence again c2 \<Rightarrow> agent_base cfg ''privilege_evidence'' @
       [(''resumed_from_checkpoint'', JBool again), (''c2_evidence'', c2_json c2)]
   | RecoverySkipped \<Rightarrow> agent_base cfg ''recovery_skipped'' @ [(''reason'', JStr ''no saved transport checkpoint; nothing to recover'')]
   | PostRestartSync limited prev direct limit \<Rightarrow> agent_base cfg ''post_restart_sync'' @
       [(''timeline_limited'', JBool limited), (''prev_batch_present'', JBool prev),
        (''requests_directly_in_sync'', count_json direct), (''timeline_limit'', nat_num limit)]
   | LimitedTimelineDetected \<Rightarrow> agent_base cfg ''limited_timeline_detected'' @
       [(''note'', JStr ''history gap present; paginating back to the checkpoint'')]
   | HistoryPagesReceived pages unique \<Rightarrow> agent_base cfg ''history_pages_received'' @
       [(''pages'', count_json pages), (''raw_events'', count_json unique)]
   | RecoveryComplete ids sync_ids history_ids s \<Rightarrow> agent_base cfg ''recovery_complete'' @
       [(''recovered_event_ids'', text_list ids), (''sync_event_ids'', text_list sync_ids),
        (''history_event_ids'', text_list history_ids)] @ ledger_json s
   | RecoveryProcessingComplete s \<Rightarrow> agent_base cfg ''recovery_processing_complete'' @ ledger_json s
   | LiveRecoveryFailed e retained \<Rightarrow> agent_base cfg ''live_recovery_failed'' @ failed_episode_json str e retained
   | LiveRecoveryComplete ep \<Rightarrow> agent_base cfg ''live_recovery_complete'' @ episode_json ep
   | LiveSyncSummary limited episodes pages dups failures commits processed_total \<Rightarrow> agent_base cfg ''live_sync_summary'' @
       [(''live_limited_syncs'', count_json limited), (''live_recovery_episodes'', count_json episodes),
        (''live_history_pages_fetched'', count_json pages), (''live_duplicate_observations'', count_json dups),
        (''live_recovery_failures'', count_json failures), (''checkpoint_commits'', count_json commits),
        (''logical_requests_processed'', count_json processed_total)])"

definition telemetry_line :: "(exn \<Rightarrow> string) \<Rightarrow> (string \<Rightarrow> json) \<Rightarrow> agent_config \<Rightarrow> telemetry \<Rightarrow> json" where
  "telemetry_line str say cfg t = JObj (last (lines_written (stream_write (JStr RAW_SCHEMA_VERSION) (telemetry_dict str say cfg t)
     \<lparr>stream_kind = JStr ''agent'', lines_written = []\<rparr>)))"

section \<open>What can be read off a line\<close>

fun telemetry_action :: "telemetry \<Rightarrow> string" where
  "telemetry_action (Observation r) = action r"
| "telemetry_action (CheckpointLoaded _ _ _) = ''checkpoint_loaded''"
| "telemetry_action (PrivilegeEvidence _ _) = ''privilege_evidence''"
| "telemetry_action RecoverySkipped = ''recovery_skipped''"
| "telemetry_action (PostRestartSync _ _ _ _) = ''post_restart_sync''"
| "telemetry_action LimitedTimelineDetected = ''limited_timeline_detected''"
| "telemetry_action (HistoryPagesReceived _ _) = ''history_pages_received''"
| "telemetry_action (RecoveryComplete _ _ _ _) = ''recovery_complete''"
| "telemetry_action (RecoveryProcessingComplete _) = ''recovery_processing_complete''"
| "telemetry_action (LiveRecoveryFailed _ _) = ''live_recovery_failed''"
| "telemetry_action (LiveRecoveryComplete _) = ''live_recovery_complete''"
| "telemetry_action (LiveSyncSummary _ _ _ _ _ _ _) = ''live_sync_summary''"

lemma telemetry_dict_ok: "dict_ok (telemetry_dict str say cfg t)"
  by (cases t) (simp_all add: telemetry_dict_def dict_ok_def observation_json_def agent_base_def ledger_json_def
    episode_json_def failed_episode_json_def)

lemma telemetry_line_get:
  "obj_get (telemetry_line str say cfg t) k = (case map_of (telemetry_dict str say cfg t) k of Some v \<Rightarrow> Some v
     | None \<Rightarrow> map_of [(''schema_version'', JStr RAW_SCHEMA_VERSION), (''stream'', JStr ''agent'')] k)"
  using fun_cong [OF stream_write_payload [OF telemetry_dict_ok [of str say cfg t], of "JStr RAW_SCHEMA_VERSION"
    "\<lparr>stream_kind = JStr ''agent'', lines_written = []\<rparr>"], of k]
  by (simp add: telemetry_line_def obj_get_def map_add_def split: option.splits)

lemma telemetry_line_action [simp]: "obj_get (telemetry_line str say cfg t) ''action'' = Some (JStr (telemetry_action t))"
  unfolding telemetry_line_get by (cases t) (simp_all add: telemetry_dict_def observation_json_def agent_base_def)

lemma telemetry_line_has [simp]: "has_action a (telemetry_line str say cfg t) \<longleftrightarrow> telemetry_action t = a"
  by (simp add: has_action_def)

lemma filter_lines: "filter (has_action a) (map (telemetry_line str say cfg) ts) =
    map (telemetry_line str say cfg) (filter (\<lambda>t. telemetry_action t = a) ts)"
  by (induction ts) simp_all

end
