(* ===== verification/Interruption.thy ===== *)
theory Interruption
  imports Experiments Agent_Stream
begin

text \<open>
  \<^verbatim>\<open>experiments/e2_recovery.py\<close>: one run of the interruption experiment, in which a hundred
  requests are sent while the agent is gone, and what its verdict has to do with the agent's
  own recovery ledger. The world is that of \<open>Experiments\<close>. The ids an agent writes are strings
  and its sequence numbers numbers or null; another value where ids are read is the
  exception \<^const>\<open>ValueError\<close>.
\<close>

section \<open>E2: the agent is gone while requests arrive\<close>

text \<open>\<open>TIMELINE_LIMIT\<close>: frozen, unless the environment says otherwise.\<close>

definition e2_timeline_limit :: "variables \<Rightarrow> exn + int" where
  "e2_timeline_limit env = (case env ''FAM_E2_TIMELINE_LIMIT'' of
     None \<Rightarrow> Inr E2_SYNC_TIMELINE_LIMIT
   | Some s \<Rightarrow> (case read_int s of None \<Rightarrow> Inl ValueError | Some n \<Rightarrow> Inr n))"

definition RECOVERY_DEADLINE_SECONDS :: rat where "RECOVERY_DEADLINE_SECONDS = 180"

definition id_set :: "(string, json) dict \<Rightarrow> string \<Rightarrow> exn + string set" where
  "id_set d k = (case map_of d k of
     None \<Rightarrow> Inr {}
   | Some v \<Rightarrow> rbind (items_of v) (\<lambda>vs. rbind (sequence (map text_of vs)) (\<lambda>ss. Inr (set ss))))"

datatype e2_failure =
    E2_send_failures nat | E2_sent nat int | E2_room_version string | E2_encrypted | E2_identity string string
  | E2_not_resumed | E2_not_limited | E2_no_pagination | E2_missing nat | E2_unexpected nat
  | E2_processed json int | E2_distinct json int | E2_responded json int | E2_acks nat int | E2_duplicates nat

record e2_result =
  e2_run_id :: string
  e2_started_at :: string
  e2_room_id :: string
  e2_room_version :: string
  e2_encryption_enabled :: bool
  e2_sent_event_ids :: "string set"
  e2_send_failures :: "(int \<times> string) list"
  e2_identity_before :: string
  e2_identity_after :: string
  e2_checkpoint_resumed :: bool
  e2_membership :: "string list"
  e2_ack_count :: nat
  e2_duplicate_acks :: nat
  e2_recovery :: "(string, json) dict"
  e2_passed :: bool
  e2_reasons :: "e2_failure list"
  e2_stream :: "(string, json) dict list"

definition e2_recovered :: "e2_result \<Rightarrow> exn + string set" where
  "e2_recovered r = id_set (e2_recovery r) ''recovered_event_ids''"

definition e2_missing :: "e2_result \<Rightarrow> string set \<Rightarrow> string set" where
  "e2_missing r found = e2_sent_event_ids r - found"

definition e2_unexpected :: "e2_result \<Rightarrow> string set \<Rightarrow> string set" where
  "e2_unexpected r found = found - e2_sent_event_ids r"

section \<open>What the telemetry says of the recovery\<close>

definition checkpoint_resumed :: "json list \<Rightarrow> bool" where
  "checkpoint_resumed telemetry =
     (let loads = filter (has_action ''checkpoint_loaded'') telemetry in
      loads \<noteq> [] \<and> json_true (obj_get (last loads) ''resumed_from_checkpoint''))"

definition responded_records :: "json list \<Rightarrow> json list" where
  "responded_records telemetry = filter (has_action ''responded'') telemetry"

definition responded_sequences :: "json list \<Rightarrow> json list" where
  "responded_sequences telemetry = map (\<lambda>r. value_of (obj_get r ''sequence_id'')) (responded_records telemetry)"

definition distinct_sequences :: "json list \<Rightarrow> nat" where
  "distinct_sequences telemetry = length (remdups (filter (\<lambda>v. v \<noteq> JNull) (responded_sequences telemetry)))"

definition recovery_summary :: "json list \<Rightarrow> (string, json) dict" where
  "recovery_summary telemetry =
     (let completes = filter (has_action ''recovery_complete'') telemetry;
          syncs = filter (has_action ''post_restart_sync'') telemetry;
          finals = filter (has_action ''recovery_processing_complete'') telemetry;
          s0 = (if completes = [] then [] else obj_items (Some (last completes)));
          s1 = (if syncs = [] then s0 else
            AList.update ''sync_limited'' (get_default (last syncs) ''timeline_limited'' (JBool False))
              (AList.update ''requests_directly_in_sync'' (get_default (last syncs) ''requests_directly_in_sync'' (num 0)) s0));
          s2 = (if finals = [] then s1 else
            AList.update ''logically_processed'' (get_default (last finals) ''logically_processed'' (num 0)) s1)
      in AList.update ''distinct_responded_sequences'' (nat_json (distinct_sequences telemetry))
           (AList.update ''responded_count'' (nat_json (length (responded_records telemetry))) s2))"

section \<open>The verdict\<close>

definition differs :: "(string, json) dict \<Rightarrow> string \<Rightarrow> int \<Rightarrow> bool" where
  "differs d k n \<longleftrightarrow> \<not> py_eq (value_of (map_of d k)) (num n)"

definition e2_criteria :: "e2_result \<Rightarrow> string set \<Rightarrow> e2_failure list" where
  "e2_criteria r found = (let d = e2_recovery r; n = E2_OFFLINE_REQUESTS in
     failing (e2_send_failures r \<noteq> []) (E2_send_failures (length (e2_send_failures r))) @
     failing (int (card (e2_sent_event_ids r)) \<noteq> n) (E2_sent (card (e2_sent_event_ids r)) n) @
     failing (e2_room_version r \<noteq> ''12'') (E2_room_version (e2_room_version r)) @
     failing (e2_encryption_enabled r) E2_encrypted @
     failing (e2_identity_before r = [] \<or> e2_identity_before r \<noteq> e2_identity_after r)
       (E2_identity (e2_identity_before r) (e2_identity_after r)) @
     failing (\<not> e2_checkpoint_resumed r) E2_not_resumed @
     failing (\<not> json_true (map_of d ''sync_limited'')) E2_not_limited @
     failing (\<not> json_true (map_of d ''pagination_invoked'')) E2_no_pagination @
     failing (e2_missing r found \<noteq> {}) (E2_missing (card (e2_missing r found))) @
     failing (e2_unexpected r found \<noteq> {}) (E2_unexpected (card (e2_unexpected r found))) @
     failing (differs d ''logically_processed'' n) (E2_processed (value_of (map_of d ''logically_processed'')) n) @
     failing (differs d ''distinct_responded_sequences'' n) (E2_distinct (value_of (map_of d ''distinct_responded_sequences'')) n) @
     failing (differs d ''responded_count'' n) (E2_responded (value_of (map_of d ''responded_count'')) n) @
     failing (int (e2_ack_count r) \<noteq> n) (E2_acks (e2_ack_count r) n) @
     failing (e2_duplicate_acks r \<noteq> 0) (E2_duplicates (e2_duplicate_acks r)))"

definition e2_evaluate :: "e2_result \<Rightarrow> exn + e2_result" where
  "e2_evaluate r = rbind (e2_recovered r) (\<lambda>found.
     let reasons = e2_criteria r found in Inr (r\<lparr>e2_reasons := reasons, e2_passed := (reasons = [])\<rparr>))"

section \<open>The run\<close>

fun failure_text :: "run_failure \<Rightarrow> string" where
  "failure_text (InvalidRun cls n) = invalid_class_value cls @ '': '' @ n"
| "failure_text (OtherFailure n) = n"

text \<open>The record of an offline send that failed, and that of an interaction.\<close>

definition send_error_record ::
  "string \<Rightarrow> string \<Rightarrow> string \<Rightarrow> string \<Rightarrow> correlation \<Rightarrow> int \<Rightarrow> string \<Rightarrow> msg_error + runner_record" where
  "send_error_record topo ph cls room c t note_text =
     rbind (txn_id c ''request'') (\<lambda>txn. rbind (txn_id c ''response'') (\<lambda>rtxn. Inr
       \<lparr>rr_experiment = experiment_name c, rr_topology = topo, rr_run_id = run_id c,
        rr_sequence_id = sequence_id c, rr_run_phase = ph, rr_request_class = cls, rr_room_id = room,
        rr_sender = HUMAN_A, rr_receiver_role = ''federated_agent'', rr_request_txn_id = txn,
        rr_request_event_id = None, rr_response_txn_id = Some rtxn, rr_response_event_id = None,
        initiated_ns = t, completed_ns = None, outcome = outcome_value SEND_ERROR, rr_note = note_text,
        ack_count = 0, duplicate_ack_count = Some 0, duplicate_ack_event_ids = []\<rparr>))"

definition offline_record :: "string \<Rightarrow> correlation \<Rightarrow> interaction \<Rightarrow> msg_error + runner_record" where
  "offline_record room c it = rbind (plain_record FEDERATED_TOPOLOGY ''offline'' ''offline_send'' room HUMAN_A ''federated_agent'' c it OFFLINE_SEND)
     (\<lambda>r. Inr (r\<lparr>rr_response_event_id := None, completed_ns := None\<rparr>))"

text \<open>A completion at the reading 0 is taken for none.\<close>

definition restart_outcome :: "interaction \<Rightarrow> interaction_outcome" where
  "restart_outcome it = (case it_completed it of None \<Rightarrow> TIMEOUT | Some t \<Rightarrow> if t = 0 then TIMEOUT else SUCCESS)"

definition restart_record :: "string \<Rightarrow> int \<Rightarrow> correlation \<Rightarrow> interaction \<Rightarrow> msg_error + runner_record" where
  "restart_record room restart c it =
     rbind (plain_record FEDERATED_TOPOLOGY ''post_restart'' ''offline_send'' room HUMAN_A ''federated_agent'' c it (restart_outcome it))
       (\<lambda>r. Inr (r\<lparr>initiated_ns := restart\<rparr>))"

record offline_sends =
  os_correlations :: "correlation list"
  os_event_ids :: "string set"
  os_failures :: "(int \<times> string) list"
  os_stream :: "(string, json) dict list"

text \<open>A send that raises is recorded, and the next one made.\<close>

fun send_each :: "'w world \<Rightarrow> string \<Rightarrow> string \<Rightarrow> nat \<Rightarrow> int \<Rightarrow> offline_sends \<Rightarrow> ('w, offline_sends) action_of" where
  "send_each wd rid room 0 q s = give s"
| "send_each wd rid room (Suc n) q s =
     act_bind (passes (or_fail wd (make_correlation ''E2'' rid q))) (\<lambda>c w.
       let s1 = s\<lparr>os_correlations := os_correlations s @ [c]\<rparr> in
       case w_send_offline wd HUMAN_A c w of
         (Inl e, w1) \<Rightarrow>
           (let (t, w2) = w_clock wd w1 in
            act_bind (passes (or_fail wd (send_error_record FEDERATED_TOPOLOGY ''offline'' ''offline_send'' room c t (failure_text e)))) (\<lambda>r.
              send_each wd rid room n (q + 1) (s1\<lparr>os_failures := os_failures s1 @ [(q, failure_text e)],
                os_stream := os_stream s1 @ [runner_record_json r]\<rparr>)) w2)
       | (Inr it, w1) \<Rightarrow>
           act_bind (passes (or_fail wd (offline_record room c it))) (\<lambda>r.
             send_each wd rid room n (q + 1) (s1\<lparr>os_event_ids := add_id (it_request_event_id it) (os_event_ids s1),
               os_stream := os_stream s1 @ [runner_record_json r]\<rparr>)) w1)"

text \<open>Both domains still serve ordinary clients.\<close>

definition homeservers_healthy :: "'w world \<Rightarrow> string \<Rightarrow> ('w, bool) action_of" where
  "homeservers_healthy wd room w =
     (case act_bind (w_members wd HUMAN_A room) (\<lambda>_. w_members wd HUMAN_B room) w of
        (Inl _, w') \<Rightarrow> (Inr False, w') | (Inr _, w') \<Rightarrow> (Inr True, w'))"

definition read_clock :: "'w world \<Rightarrow> ('w, int) action_of" where
  "read_clock wd w = (case w_clock wd w of (t, w') \<Rightarrow> (Inr t, w'))"

text \<open>The records of the sends as they stand after the recovery.\<close>

definition restart_records :: "'w world \<Rightarrow> string \<Rightarrow> int \<Rightarrow> correlation list \<Rightarrow> ('w, (string, json) dict list) action_of" where
  "restart_records wd room restart cs w =
     (or_fail wd (rbind (sequence (map (\<lambda>c. case w_interaction wd HUMAN_A c w of
          None \<Rightarrow> Inr []
        | Some it \<Rightarrow> rbind (restart_record room restart c it) (\<lambda>r. Inr [runner_record_json r])) cs)) (\<lambda>rs. Inr (concat rs))), w)"

definition e2_marker :: "string \<Rightarrow> string \<Rightarrow> (string, json) dict \<Rightarrow> (string, json) dict" where
  "e2_marker rid name extra = runner_marker ''E2'' rid name extra"

definition e2_procedure :: "'w world \<Rightarrow> string \<Rightarrow> string \<Rightarrow> ('w, e2_result) action_of" where
  "e2_procedure wd rid started =
     act_bind (w_start wd HUMAN_A) (\<lambda>_.
     act_bind (w_start wd HUMAN_B) (\<lambda>_.
     act_bind (w_create_room wd HUMAN_A [HUMAN_B, AGENT]) (\<lambda>room.
     act_bind (configuration wd HUMAN_A room) (\<lambda>(version, encrypted).
     act_bind (w_join wd HUMAN_B room) (\<lambda>_.
     act_bind (w_agent_start wd) (\<lambda>_.
     act_bind (pause wd 3) (\<lambda>_.
     act_bind (w_members wd HUMAN_A room) (\<lambda>members.
     act_bind (read_telemetry wd) (\<lambda>t1.
     act_bind (w_agent_stop wd) (\<lambda>_.
     act_bind (read_clock wd) (\<lambda>stopped.
     act_bind (homeservers_healthy wd room) (\<lambda>healthy.
     act_bind (send_each wd rid room (nat E2_OFFLINE_REQUESTS) 1
       \<lparr>os_correlations = [], os_event_ids = {}, os_failures = [], os_stream =
         [e2_marker rid ''agent_runtime_stopped'' [(''room_id'', JStr room), (''monotonic_ns'', num stopped),
            (''note'', JStr ''homeserver infrastructure remains running'')],
          e2_marker rid ''infrastructure_check'' [(''homeservers_responsive_while_agent_absent'', JBool healthy)]]\<rparr>) (\<lambda>sent.
     act_bind (read_clock wd) (\<lambda>restart.
     act_bind (w_agent_start wd) (\<lambda>_.
     act_bind (w_await_acks wd HUMAN_A (os_correlations sent) RECOVERY_DEADLINE_SECONDS) (\<lambda>acks.
     act_bind (pause wd 3) (\<lambda>_.
     act_bind (\<lambda>w. (Inr (w_duplicates wd HUMAN_A w), w)) (\<lambda>dups.
     act_bind (restart_records wd room restart (os_correlations sent)) (\<lambda>records.
     act_bind (read_telemetry wd) (\<lambda>t2.
       give \<lparr>e2_run_id = rid, e2_started_at = started, e2_room_id = room, e2_room_version = version,
         e2_encryption_enabled = encrypted, e2_sent_event_ids = os_event_ids sent, e2_send_failures = os_failures sent,
         e2_identity_before = agent_identity (w_str wd) t1 False, e2_identity_after = agent_identity (w_str wd) t2 True,
         e2_checkpoint_resumed = checkpoint_resumed t2, e2_membership = members, e2_ack_count = acks,
         e2_duplicate_acks = dups, e2_recovery = recovery_summary t2, e2_passed = False, e2_reasons = [],
         e2_stream = os_stream sent @ [e2_marker rid ''agent_restart_and_recovery_begins'' [(''monotonic_ns'', num restart),
           (''note'', JStr ''offline-send response deadline starts here'')]] @ records\<rparr>))))))))))))))))))))"

definition or_raise :: "'w world \<Rightarrow> exn + 'a \<Rightarrow> ('w, 'a) action_of" where
  "or_raise wd r w = (case r of Inl e \<Rightarrow> Inl (OtherFailure (w_exn wd e)) | Inr x \<Rightarrow> Inr x, w)"

definition e2_execute :: "'w world \<Rightarrow> string \<Rightarrow> string \<Rightarrow> ('w, e2_result) action_of" where
  "e2_execute wd rid started = act_bind (finally_clean wd (e2_procedure wd rid started)) (\<lambda>r. or_raise wd (e2_evaluate r))"

section \<open>Lemmas\<close>

lemma or_raise_Inr [simp]: "or_raise wd r w = (Inr x, w') \<longleftrightarrow> r = Inr x \<and> w' = w"
  by (cases r) (auto simp: or_raise_def)

lemma card_add_id: "finite s \<Longrightarrow> finite (add_id i s) \<and> card (add_id i s) \<le> card s + 1"
  by (simp add: add_id_def card_insert_le_m1 card_insert_if)

text \<open>A send fails or gives at most one id.\<close>

lemma send_each_counts:
  assumes "send_each wd rid room n q s w = (Inr s', w')" and "finite (os_event_ids s)"
  shows "finite (os_event_ids s') \<and>
    card (os_event_ids s') + length (os_failures s') \<le> card (os_event_ids s) + length (os_failures s) + n"
  using assms
proof (induction n arbitrary: q s w)
  case (Suc n)
  from Suc.prems(1) obtain c where "make_correlation ''E2'' rid q = Inr c"
    by (auto simp: act_bind_Inr)
  note step = Suc.prems(1) [unfolded send_each.simps act_bind_Inr]
  show ?case
  proof (cases "w_send_offline wd HUMAN_A c w")
    case (Pair res w1)
    show ?thesis
    proof (cases res)
      case (Inl e)
      obtain t w2 where "w_clock wd w1 = (t, w2)" by fastforce
      with step \<open>make_correlation ''E2'' rid q = Inr c\<close> Pair Inl obtain s1 w3 where
        "send_each wd rid room n (q + 1) s1 w3 = (Inr s', w')" "os_event_ids s1 = os_event_ids s"
        "length (os_failures s1) = length (os_failures s) + 1"
        by (auto simp: act_bind_Inr Let_def)
      with Suc.IH [OF this(1)] Suc.prems(2) show ?thesis by simp
    next
      case (Inr it)
      with step \<open>make_correlation ''E2'' rid q = Inr c\<close> Pair obtain s1 w3 where
        "send_each wd rid room n (q + 1) s1 w3 = (Inr s', w')" "os_event_ids s1 = add_id (it_request_event_id it) (os_event_ids s)"
        "os_failures s1 = os_failures s"
        by (force simp: act_bind_Inr Let_def)
      with Suc.IH [OF this(1)] card_add_id [OF Suc.prems(2), of "it_request_event_id it"] show ?thesis by simp
    qed
  qed
qed simp

lemma recovery_summary_counts:
  "map_of (recovery_summary telemetry) ''responded_count'' = Some (nat_json (length (responded_sequences telemetry)))"
  "map_of (recovery_summary telemetry) ''distinct_responded_sequences'' = Some (nat_json (distinct_sequences telemetry))"
  by (simp_all add: recovery_summary_def Let_def responded_sequences_def)

lemma differs_nat: "map_of d k = Some (nat_json m) \<Longrightarrow> differs d k n \<longleftrightarrow> int m \<noteq> n"
  by (simp add: differs_def value_of_def nat_json_def num_def) (metis of_int_eq_iff of_int_of_nat_eq)

lemma distinct_all:
  "length xs = n \<and> length (remdups (filter P xs)) = n \<longleftrightarrow> length xs = n \<and> distinct xs \<and> (\<forall>x \<in> set xs. P x)"
proof
  assume *: "length xs = n \<and> length (remdups (filter P xs)) = n"
  then have "length (filter P xs) = length xs"
    using length_remdups_leq [of "filter P xs"] length_filter_le [of P xs] by simp
  then have "filter P xs = xs" by (simp add: filter_all filter_id_conv)
  with * show "length xs = n \<and> distinct xs \<and> (\<forall>x \<in> set xs. P x)"
    by (metis filter_id_conv length_remdups_eq)
next
  assume "length xs = n \<and> distinct xs \<and> (\<forall>x \<in> set xs. P x)"
  moreover from this have "filter P xs = xs" by (simp add: filter_id_conv)
  ultimately show "length xs = n \<and> length (remdups (filter P xs)) = n" by (simp add: distinct_remdups_id)
qed

lemma e2_procedure_Inr:
  assumes "e2_procedure wd rid started w = (Inr r, w')"
  shows "\<exists>telemetry. e2_recovery r = recovery_summary telemetry \<and> finite (e2_sent_event_ids r) \<and>
    int (card (e2_sent_event_ids r) + length (e2_send_failures r)) \<le> E2_OFFLINE_REQUESTS \<and>
    e2_room_version r = ROOM_VERSION \<and> \<not> e2_encryption_enabled r"
proof -
  from assms obtain room wx v e wy s0 wa sent wb telemetry where
      conf: "configuration wd HUMAN_A room wx = (Inr (v, e), wy)"
    and sends: "send_each wd rid room (nat E2_OFFLINE_REQUESTS) 1 s0 wa = (Inr sent, wb)"
    and s0: "os_event_ids s0 = {}" "os_failures s0 = []"
    and r: "e2_sent_event_ids r = os_event_ids sent" "e2_send_failures r = os_failures sent"
      "e2_room_version r = v" "e2_encryption_enabled r = e" "e2_recovery r = recovery_summary telemetry"
    by (auto simp: e2_procedure_def act_bind_Inr)
  from send_each_counts [OF sends] s0 have "finite (os_event_ids sent)"
      "card (os_event_ids sent) + length (os_failures sent) \<le> nat E2_OFFLINE_REQUESTS" by simp_all
  with r configuration_Inr [OF conf] show ?thesis by (auto simp: E2_OFFLINE_REQUESTS_def)
qed

lemma e2_execute_Inr:
  assumes "e2_execute wd rid started w = (Inr r, w')"
  obtains r0 w0 where "e2_procedure wd rid started w = (Inr r0, w0)" and "e2_evaluate r0 = Inr r"
  using assms by (auto simp: e2_execute_def act_bind_Inr finally_clean_Inr)

section \<open>From the agent's ledger to its telemetry\<close>

text \<open>A predicate no callback ends survives the whole loop.\<close>

lemma sync_loop_stable:
  assumes "persists cb Q" and "Q s"
  shows "Q (snd (sync_loop clk srvs cb (p, s)))"
  using assms(2)
proof (induction srvs arbitrary: p s)
  case (Cons hs srvs)
  obtain p1 s1 out where it: "sync_iteration clk hs cb (p, s) = ((p1, s1), out)" by (metis prod.collapse)
  have "persists_at (sync_token p) cb Q" using assms(1) by (simp add: persists_def persists_at_def)
  from sync_iteration_at [OF it this Cons.prems] stable_commit [OF assms(1)] have "Q s1" by blast
  with Cons.IH it show ?case by (cases out) auto
qed simp

text \<open>Records that are no part of a recovery report.\<close>

definition quiet :: "telemetry \<Rightarrow> bool" where
  "quiet t \<longleftrightarrow> telemetry_action t \<notin> {''recovery_complete'', ''post_restart_sync'', ''recovery_processing_complete''}"

definition adds_quietly :: "agent_state \<Rightarrow> agent_state \<Rightarrow> bool" where
  "adds_quietly s s' \<longleftrightarrow> (\<exists>ts. telemetry_log s' = telemetry_log s @ ts \<and> list_all quiet ts)"

lemma adds_quietly_refl [simp]: "telemetry_log s' = telemetry_log s \<Longrightarrow> adds_quietly s s'"
  by (simp add: adds_quietly_def)

lemma adds_quietly_one: "telemetry_log s' = telemetry_log s @ [t] \<Longrightarrow> quiet t \<Longrightarrow> adds_quietly s s'"
  by (simp add: adds_quietly_def)

lemma adds_quietly_trans: "adds_quietly s s' \<Longrightarrow> adds_quietly s' s'' \<Longrightarrow> adds_quietly s s''"
  unfolding adds_quietly_def by (metis append_assoc list_all_append)

lemma handle_quiet: "adds_quietly s (fst (handle cfg env p e s)) \<and> agent_ledger (fst (handle cfg env p e s)) = agent_ledger s"
proof -
  have answer_quiet: "adds_quietly s' (answer cfg env p e r i s')" for r i s'
    by (auto simp: answer_def Let_def observation_of_def quiet_def intro: adds_quietly_one split: sum.splits option.splits)
  show ?thesis
    using answer_quiet [of "tick s \<lparr>registry := registry_commit (registry s) (ev_id e) (correlation_key i)\<rparr>" for i]
    by (auto simp: handle_def Let_def observation_of_def quiet_def adds_quietly_def split: sum.splits option.splits)
qed

lemma process_pending_told:
  assumes "snd (process_pending cfg env p e s) = None"
  shows "adds_quietly s (fst (process_pending cfg env p e s))"
    "agent_ledger (fst (process_pending cfg env p e s)) = (agent_ledger s)\<lparr>processed := insert (ev_id e) (processed (agent_ledger s))\<rparr>"
  using assms handle_quiet [of s cfg env p e]
  by (auto simp: process_pending_def Let_def should_process_def mark_processed_def adds_quietly_def insert_absorb)

lemma all_pending_told:
  assumes "snd (seq_all (process_pending cfg env p) es s) = None"
  shows "adds_quietly s (fst (seq_all (process_pending cfg env p) es s)) \<and>
    agent_ledger (fst (seq_all (process_pending cfg env p) es s)) =
      (agent_ledger s)\<lparr>processed := processed (agent_ledger s) \<union> ev_id ` set es\<rparr>"
  using assms
proof (induction es arbitrary: s)
  case (Cons e es)
  then have e: "snd (process_pending cfg env p e s) = None" by (simp split: if_splits)
  with Cons.prems have "snd (seq_all (process_pending cfg env p) es (fst (process_pending cfg env p e s))) = None" by simp
  from Cons.IH [OF this] process_pending_told [OF e] e show ?case
    by (auto intro: adds_quietly_trans)
qed simp

text \<open>The pending events are those the ledger has seen, under their ids.\<close>

definition pending_is_seen :: "recovery_ledger \<Rightarrow> merged \<Rightarrow> bool" where
  "pending_is_seen l pend \<longleftrightarrow> recovered_event_ids l = fst ` set pend \<and> (\<forall>q \<in> set pend. ev_id (snd q) = fst q)"

lemma observe_events_seen:
  assumes "observe_events cfg env direct es (l, pend) = ((l', pend'), x)" and "pending_is_seen l pend"
  shows "pending_is_seen l' pend' \<and> processed l' = processed l \<and> limited_timeline l' = limited_timeline l \<and>
    pagination_invoked l' = pagination_invoked l"
  using assms
proof (induction es arbitrary: l pend)
  case (Cons e es)
  show ?case
  proof (cases "is_foreign_request cfg env e")
    case (Inl y)
    with Cons.prems show ?thesis by simp
  next
    case (Inr b)
    show ?thesis
    proof (cases b)
      case False
      with Inr Cons show ?thesis by simp
    next
      case True
      let ?src = "if ev_id e \<in> direct then SYNC else HISTORY"
      obtain l1 first where ob: "observe l (ev_id e) ?src = (l1, first)" by fastforce
      let ?pend = "if first then AList.update (ev_id e) e pend else pend"
      have rest: "observe_events cfg env direct es (l1, ?pend) = ((l', pend'), x)"
        using Cons.prems(1) Inr True ob by (simp add: Let_def)
      have ids: "recovered_event_ids l1 = insert (ev_id e) (recovered_event_ids l)" "first \<longleftrightarrow> ev_id e \<notin> recovered_event_ids l"
        using observe_ids [of l "ev_id e" ?src] observe_snd [of l "ev_id e" ?src] ob by simp_all
      have "AList.update (ev_id e) e pend = pend @ [(ev_id e, e)]" if first
        using that ids(2) Cons.prems(2) by (intro update_new) (simp add: pending_is_seen_def)
      then have "pending_is_seen l1 ?pend" using Cons.prems(2) ids by (auto simp: pending_is_seen_def)
      from Cons.IH [OF rest this] observe_frame [of l "ev_id e" ?src] ob show ?thesis
        by (auto simp: observe_def split: option.splits)
    qed
  qed
qed simp

text \<open>What the agent has told of its recovery, and that nothing later takes it back.\<close>

definition recovery_told :: "recovery_ledger \<Rightarrow> agent_state \<Rightarrow> bool" where
  "recovery_told l s \<longleftrightarrow> agent_ledger s = l \<and>
     (\<exists>s1 syncs hist. filter (\<lambda>t. telemetry_action t = ''recovery_complete'') (telemetry_log s) =
        [RecoveryComplete (sorted_list_of_set (recovered_event_ids l)) syncs hist s1] \<and> s_pagination_invoked s1 = pagination_invoked l) \<and>
     (\<exists>prev direct limit. filter (\<lambda>t. telemetry_action t = ''post_restart_sync'') (telemetry_log s) =
        [PostRestartSync (limited_timeline l) prev direct limit]) \<and>
     filter (\<lambda>t. telemetry_action t = ''recovery_processing_complete'') (telemetry_log s) = [RecoveryProcessingComplete (summary l)]"

lemma recovery_told_quiet: "recovery_told l s \<Longrightarrow> adds_quietly s s' \<Longrightarrow> agent_ledger s' = agent_ledger s \<Longrightarrow> recovery_told l s'"
  by (auto simp: recovery_told_def adds_quietly_def quiet_def list_all_iff filter_empty_conv)

lemma recovery_told_persists: "persists (agent_callbacks cfg env) (recovery_told l)"
proof -
  have "recovery_told l (fst (handle cfg env p e s))" if "recovery_told l s" for p e s
    using that handle_quiet [of s cfg env p e] by (blast intro: recovery_told_quiet)
  moreover have "recovery_told l (fst (record_live_episode p n s))" if "recovery_told l s" for p n s
    by (rule recovery_told_quiet [OF that])
      (cases n; simp add: record_live_episode_def adds_quietly_one quiet_def)+
  moreover have "recovery_told l (fst (commit_checkpoint p t s))" if "recovery_told l s" for p t s
    by (rule recovery_told_quiet [OF that]) (simp_all add: commit_checkpoint_def)
  ultimately show ?thesis by (simp add: persists_def agent_callbacks_def)
qed

definition synced_quietly :: "agent_state \<Rightarrow> bool" where
  "synced_quietly s \<longleftrightarrow> processed (agent_ledger s) = {} \<and> (\<exists>before prev direct limit after_sync.
     telemetry_log s = before @ [PostRestartSync (limited_timeline (agent_ledger s)) prev direct limit] @ after_sync \<and>
     list_all quiet before \<and> list_all quiet after_sync)"

lemma quiet_filters:
  assumes "list_all quiet ts"
  shows "filter (\<lambda>t. telemetry_action t = ''recovery_complete'') ts = []"
    "filter (\<lambda>t. telemetry_action t = ''post_restart_sync'') ts = []"
    "filter (\<lambda>t. telemetry_action t = ''recovery_processing_complete'') ts = []"
  using assms by (auto simp: quiet_def list_all_iff filter_empty_conv)

lemma finish_recovery_told:
  assumes "finish_recovery cfg env p batch pend s = ((p', s'), None)"
    and "synced_quietly s" "pending_is_seen (agent_ledger s) pend"
  shows "recovery_told (agent_ledger s') s' \<and> processed (agent_ledger s') = recovered_event_ids (agent_ledger s')"
proof -
  let ?l = "agent_ledger s"
  define s1 where "s1 = log_write (RecoveryComplete (sorted_list_of_set (recovered_event_ids ?l))
      (sorted_list_of_set (from_sync ?l)) (sorted_list_of_set (from_history ?l)) (summary ?l)) s"
  define r where "r = seq_all (process_pending cfg env p) (sort_key (sequence_of env) (map snd pend)) s1"
  have ok: "snd r = None" and s': "agent_ledger s' = agent_ledger (fst r)"
    "telemetry_log s' = telemetry_log (fst r) @ [RecoveryProcessingComplete (summary (agent_ledger (fst r)))]"
    using assms(1) by (auto simp: finish_recovery_def Let_def s1_def [symmetric] r_def [symmetric] split: if_splits)
  have l1: "agent_ledger s1 = ?l" by (simp add: s1_def)
  have r: "adds_quietly s1 (fst r)"
    "agent_ledger (fst r) = ?l\<lparr>processed := processed ?l \<union> ev_id ` snd ` set pend\<rparr>"
    using all_pending_told [OF ok [unfolded r_def]] by (simp_all add: r_def l1)
  obtain ts where ts: "telemetry_log (fst r) = telemetry_log s1 @ ts" "list_all quiet ts"
    using r(1) by (auto simp: adds_quietly_def)
  obtain before prev direct limit after_sync where log: "telemetry_log s = before @ [PostRestartSync (limited_timeline ?l) prev direct limit] @ after_sync"
    "list_all quiet before" "list_all quiet after_sync" and none: "processed ?l = {}"
    using assms(2) by (auto simp: synced_quietly_def)
  have "ev_id ` snd ` set pend = recovered_event_ids ?l"
    using assms(3) by (force simp: pending_is_seen_def image_image intro: image_cong)
  then have l: "agent_ledger s' = ?l\<lparr>processed := recovered_event_ids ?l\<rparr>" using r(2) s'(1) none by simp
  have ids: "recovered_event_ids (agent_ledger s') = recovered_event_ids ?l" by (simp add: l recovered_event_ids_def)
  let ?rc = "RecoveryComplete (sorted_list_of_set (recovered_event_ids ?l)) (sorted_list_of_set (from_sync ?l))
      (sorted_list_of_set (from_history ?l)) (summary ?l)"
  have "telemetry_log s' = before @ [PostRestartSync (limited_timeline ?l) prev direct limit] @ after_sync @ [?rc] @ ts @
      [RecoveryProcessingComplete (summary (agent_ledger s'))]"
    using log(1) ts(1) s' by (simp add: s1_def)
  then have "filter (\<lambda>t. telemetry_action t = ''recovery_complete'') (telemetry_log s') = [?rc]"
    "filter (\<lambda>t. telemetry_action t = ''post_restart_sync'') (telemetry_log s') = [PostRestartSync (limited_timeline ?l) prev direct limit]"
    "filter (\<lambda>t. telemetry_action t = ''recovery_processing_complete'') (telemetry_log s') =
      [RecoveryProcessingComplete (summary (agent_ledger s'))]"
    using quiet_filters [OF log(2)] quiet_filters [OF log(3)] quiet_filters [OF ts(2)] by simp_all
  moreover have "s_pagination_invoked (summary ?l) = pagination_invoked (agent_ledger s')"
    "limited_timeline (agent_ledger s') = limited_timeline ?l" by (simp_all add: l summary_def)
  ultimately have "recovery_told (agent_ledger s') s'" unfolding recovery_told_def by (simp add: ids)
  then show ?thesis using ids by (simp add: l)
qed

lemma synced_quietly_frame:
  assumes "synced_quietly s" and "adds_quietly s s'" and "processed (agent_ledger s') = processed (agent_ledger s)"
    "limited_timeline (agent_ledger s') = limited_timeline (agent_ledger s)"
  shows "synced_quietly s'"
proof -
  from assms(1) obtain before prev direct limit after_sync where log: "telemetry_log s = before @ [PostRestartSync (limited_timeline (agent_ledger s)) prev direct limit] @ after_sync"
    "list_all quiet before" "list_all quiet after_sync" "processed (agent_ledger s) = {}"
    by (auto simp: synced_quietly_def)
  from assms(2) obtain ts where "telemetry_log s' = telemetry_log s @ ts" "list_all quiet ts" by (auto simp: adds_quietly_def)
  with log assms(3,4) show ?thesis
    unfolding synced_quietly_def by (intro conjI exI [of _ before] exI [of _ prev] exI [of _ direct] exI [of _ limit] exI [of _ "after_sync @ ts"]) simp_all
qed

lemma recover_slice_told:
  assumes "recover_slice cfg env hs p batch item s = ((p', s'), None)"
    and "synced_quietly s" "recovered_event_ids (agent_ledger s) = {}"
  shows "recovery_told (agent_ledger s') s' \<and> processed (agent_ledger s') = recovered_event_ids (agent_ledger s')"
proof -
  define s1 where "s1 = (if slice_limited item then log_write LimitedTimelineDetected s else s)"
  obtain p1 evs ep where rec: "reconcile_slice hs item (checkpoint_token s) ''startup'' p = (p1, Inr (evs, ep))"
    using assms(1) by (auto simp: recover_slice_def Let_def split: prod.splits sum.splits)
  define s2 where "s2 = (if ep_history_pages_fetched ep \<noteq> 0
       then log_write (HistoryPagesReceived (ep_history_pages_fetched ep) (reconciled_unique_events ep))
              (s1\<lparr>agent_ledger := note_pagination (agent_ledger s1) (ep_history_pages_fetched ep)\<rparr>)
       else s1)"
  obtain fs where fs: "foreign_requests cfg env (slice_events item) = Inr fs"
    using assms(1) rec by (auto simp: recover_slice_def Let_def split: sum.splits)
  obtain l pend x where ob: "observe_events cfg env (ev_id ` set fs) evs (agent_ledger s2, []) = ((l, pend), x)"
    by (metis prod.collapse)
  let ?s3 = "s2\<lparr>agent_ledger := l\<rparr>"
  have "recover_slice cfg env hs p batch item s =
      (if x \<noteq> None then ((p1, ?s3), x) else finish_recovery cfg env p1 batch pend ?s3)"
    by (simp only: recover_slice_def Let_def s1_def [symmetric] rec prod.case sum.case s2_def [symmetric] fs ob)
  with assms(1) have fin: "finish_recovery cfg env p1 batch pend ?s3 = ((p', s'), None)" by (simp split: if_splits)
  have q1: "adds_quietly s s1" and l1: "agent_ledger s1 = agent_ledger s"
    by (auto simp: s1_def quiet_def intro: adds_quietly_one)
  have q2: "adds_quietly s1 s2" and l2: "processed (agent_ledger s2) = processed (agent_ledger s1)"
      "limited_timeline (agent_ledger s2) = limited_timeline (agent_ledger s1)"
      "recovered_event_ids (agent_ledger s2) = recovered_event_ids (agent_ledger s1)"
    by (auto simp: s2_def quiet_def note_pagination_def recovered_event_ids_def intro: adds_quietly_one)
  have "pending_is_seen (agent_ledger s2) []" using l1 l2(3) assms(3) by (simp add: pending_is_seen_def)
  from observe_events_seen [OF ob this] have l: "pending_is_seen l pend" "processed l = processed (agent_ledger s2)"
    "limited_timeline l = limited_timeline (agent_ledger s2)" by simp_all
  have "adds_quietly s ?s3" by (rule adds_quietly_trans [OF q1 adds_quietly_trans [OF q2]]) simp
  then have "synced_quietly ?s3" by (rule synced_quietly_frame [OF assms(2)]) (use l1 l2 l in simp_all)
  from finish_recovery_told [OF fin this] l(1) show ?thesis by simp
qed

lemma recover_told:
  assumes "recover cfg env hs (p, s) = ((p', s'), None)" and "truthy (checkpoint_token s)"
    and "list_all quiet (telemetry_log s)" "agent_ledger s = empty_ledger"
  shows "recovery_told (agent_ledger s') s' \<and> processed (agent_ledger s') = recovered_event_ids (agent_ledger s')"
proof -
  obtain p1 snap where sync: "sync_once hs (checkpoint_token s) (timeline_limit p) p = (p1, Inr snap)"
    using assms(1,2) by (auto simp: recover_def Let_def split: prod.splits sum.splits)
  define item where "item = snapshot_room snap (cfg_room_id cfg)"
  define s1 where "s1 = s\<lparr>agent_ledger := (agent_ledger s)\<lparr>
     limited_timeline := (case item of None \<Rightarrow> False | Some t \<Rightarrow> slice_limited t),
     ledger_prev_batch := (case item of None \<Rightarrow> None | Some t \<Rightarrow> slice_prev_batch t)\<rparr>\<rparr>"
  obtain fs where fs: "foreign_requests cfg env (case item of None \<Rightarrow> [] | Some t \<Rightarrow> slice_events t) = Inr fs"
    using assms(1,2) sync by (auto simp: recover_def Let_def item_def [symmetric] split: sum.splits)
  define s2 where "s2 = log_write (PostRestartSync (limited_timeline (agent_ledger s1))
     (ledger_prev_batch (agent_ledger s1) \<noteq> None) (length fs) (cfg_timeline_limit cfg)) s1"
  have quiet2: "synced_quietly s2"
    unfolding synced_quietly_def using assms(3,4)
    by (intro conjI exI [of _ "telemetry_log s"] exI [of _ "[]"]) (auto simp: s2_def s1_def empty_ledger_def)
  have ids: "recovered_event_ids (agent_ledger s2) = {}"
    using assms(4) by (simp add: s2_def s1_def recovered_event_ids_def empty_ledger_def)
  show ?thesis
  proof (cases item)
    case None
    then have "finish_recovery cfg env p1 (next_batch snap) [] s2 = ((p', s'), None)"
      using assms(1,2) sync fs by (simp add: recover_def Let_def item_def [symmetric] s2_def s1_def)
    from finish_recovery_told [OF this quiet2] ids show ?thesis by (simp add: pending_is_seen_def)
  next
    case (Some t)
    then have "recover_slice cfg env hs p1 (next_batch snap) t s2 = ((p', s'), None)"
      using assms(1,2) sync fs by (simp add: recover_def Let_def item_def [symmetric] s2_def s1_def)
    from recover_slice_told [OF this quiet2 ids] show ?thesis .
  qed
qed

lemma connect_told:
  assumes "connect cfg hs login who probe (p, s) = ((p', s'), None)" and "stored s = Some ck" "truthy (ck_sync_token ck)"
    and "telemetry_log s = []" "agent_ledger s = empty_ledger"
  shows "truthy (checkpoint_token s') \<and> list_all quiet (telemetry_log s') \<and> agent_ledger s' = empty_ledger"
  using assms by (auto simp: connect_def Let_def save_checkpoint_def log_write_def quiet_def observation_of_def split: sum.splits)

lemma serve_told:
  assumes "serve cfg env hs login who probe srvs (p, new_agent (Some ck)) = ((p', s'), None)" and "truthy (ck_sync_token ck)"
  shows "recovery_told (agent_ledger s') s' \<and> processed (agent_ledger s') = recovered_event_ids (agent_ledger s')"
proof -
  obtain p1 s1 where c: "connect cfg hs login who probe (p, new_agent (Some ck)) = ((p1, s1), None)"
    using assms(1) by (auto simp: serve_def split: prod.splits option.splits)
  then obtain p2 s2 where r: "recover cfg env hs (p1, s1) = ((p2, s2), None)"
    using assms(1) by (auto simp: serve_def split: prod.splits option.splits)
  obtain p3 s3 where l: "sync_loop (env_clock env) srvs (agent_callbacks cfg env) (start_run cfg p2, s2) = (p3, s3)" by fastforce
  have s': "s' = shutdown p3 s3" using assms(1) by (auto simp: serve_def c r l)
  from connect_told [OF c] assms(2) have "truthy (checkpoint_token s1)" "list_all quiet (telemetry_log s1)" "agent_ledger s1 = empty_ledger"
    by (simp_all add: new_agent_def)
  from recover_told [OF r this] have told: "recovery_told (agent_ledger s2) s2" "processed (agent_ledger s2) = recovered_event_ids (agent_ledger s2)"
    by simp_all
  from sync_loop_stable [OF recovery_told_persists told(1), of "env_clock env" srvs cfg env "start_run cfg p2"] l
  have told3: "recovery_told (agent_ledger s2) s3" by simp
  then have l3: "agent_ledger s3 = agent_ledger s2" by (simp add: recovery_told_def)
  have "recovery_told (agent_ledger s2) s'"
    by (rule recovery_told_quiet [OF told3]) (simp_all add: s' shutdown_def adds_quietly_def quiet_def observation_of_def)
  moreover have "agent_ledger s' = agent_ledger s2" by (simp add: s' shutdown_def l3)
  ultimately show ?thesis using told(2) by simp
qed

lemma obj_items_get: "map_of (obj_items (Some (telemetry_line str say cfg t))) k = obj_get (telemetry_line str say cfg t) k"
  by (simp add: telemetry_line_def obj_items_def obj_get_def)

lemma read_text_list: "rbind (items_of (text_list ss)) (\<lambda>vs. sequence (map text_of vs)) = Inr ss"
proof -
  have "sequence (map text_of (map JStr ss)) = Inr ss" by (induction ss) (simp_all add: text_of_def)
  then show ?thesis by (simp add: text_list_def items_of_def)
qed

lemma id_set_texts: "map_of d k = Some (text_list ss) \<Longrightarrow> id_set d k = Inr (set ss)"
  using read_text_list [of ss] by (cases "items_of (text_list ss)") (auto simp: id_set_def)

lemma recovery_summary_of_report:
  assumes told: "recovery_told l s"
  shows "map_of (recovery_summary (earlier @ map (telemetry_line str say cfg) (telemetry_log s))) ''recovered_event_ids'' =
      Some (text_list (sorted_list_of_set (recovered_event_ids l)))"
    "map_of (recovery_summary (earlier @ map (telemetry_line str say cfg) (telemetry_log s))) ''logically_processed'' =
      Some (count_json (ledger_processed_count l))"
    "map_of (recovery_summary (earlier @ map (telemetry_line str say cfg) (telemetry_log s))) ''sync_limited'' =
      Some (JBool (limited_timeline l))"
    "map_of (recovery_summary (earlier @ map (telemetry_line str say cfg) (telemetry_log s))) ''pagination_invoked'' =
      Some (JBool (pagination_invoked l))"
proof -
  obtain s1 syncs hist prev direct limit where f:
    "filter (\<lambda>t. telemetry_action t = ''recovery_complete'') (telemetry_log s) =
        [RecoveryComplete (sorted_list_of_set (recovered_event_ids l)) syncs hist s1]" "s_pagination_invoked s1 = pagination_invoked l"
    "filter (\<lambda>t. telemetry_action t = ''post_restart_sync'') (telemetry_log s) = [PostRestartSync (limited_timeline l) prev direct limit]"
    "filter (\<lambda>t. telemetry_action t = ''recovery_processing_complete'') (telemetry_log s) = [RecoveryProcessingComplete (summary l)]"
    using told by (auto simp: recovery_told_def)
  let ?line = "telemetry_line str say cfg"
  let ?rc = "?line (RecoveryComplete (sorted_list_of_set (recovered_event_ids l)) syncs hist s1)"
  let ?prs = "?line (PostRestartSync (limited_timeline l) prev direct limit)"
  let ?rpc = "?line (RecoveryProcessingComplete (summary l))"
  have lasts: "\<exists>e. filter (has_action ''recovery_complete'') (earlier @ map ?line (telemetry_log s)) = e @ [?rc]"
    "\<exists>e. filter (has_action ''post_restart_sync'') (earlier @ map ?line (telemetry_log s)) = e @ [?prs]"
    "\<exists>e. filter (has_action ''recovery_processing_complete'') (earlier @ map ?line (telemetry_log s)) = e @ [?rpc]"
    by (simp_all only: filter_append filter_lines f list.map append.simps) auto
  have gets: "obj_get ?rc ''recovered_event_ids'' = Some (text_list (sorted_list_of_set (recovered_event_ids l)))"
    "obj_get ?rc ''pagination_invoked'' = Some (JBool (pagination_invoked l))"
    "obj_get ?prs ''timeline_limited'' = Some (JBool (limited_timeline l))"
    "obj_get ?rpc ''logically_processed'' = Some (count_json (ledger_processed_count l))"
    unfolding telemetry_line_get using f(2)
    by (simp_all add: telemetry_dict_def agent_base_def ledger_json_def summary_def)
  define T where "T = earlier @ map ?line (telemetry_log s)"
  obtain e1 e2 e3 where e: "filter (has_action ''recovery_complete'') T = e1 @ [?rc]"
    "filter (has_action ''post_restart_sync'') T = e2 @ [?prs]"
    "filter (has_action ''recovery_processing_complete'') T = e3 @ [?rpc]"
    using lasts unfolding T_def [symmetric] by (elim exE) (rule that)
  have "map_of (recovery_summary T) ''recovered_event_ids'' = Some (text_list (sorted_list_of_set (recovered_event_ids l)))"
    "map_of (recovery_summary T) ''logically_processed'' = Some (count_json (ledger_processed_count l))"
    "map_of (recovery_summary T) ''sync_limited'' = Some (JBool (limited_timeline l))"
    "map_of (recovery_summary T) ''pagination_invoked'' = Some (JBool (pagination_invoked l))"
    by (simp_all add: recovery_summary_def Let_def e obj_items_get get_default_def gets)
  then show "map_of (recovery_summary (earlier @ map ?line (telemetry_log s))) ''recovered_event_ids'' =
      Some (text_list (sorted_list_of_set (recovered_event_ids l)))"
    "map_of (recovery_summary (earlier @ map ?line (telemetry_log s))) ''logically_processed'' =
      Some (count_json (ledger_processed_count l))"
    "map_of (recovery_summary (earlier @ map ?line (telemetry_log s))) ''sync_limited'' = Some (JBool (limited_timeline l))"
    "map_of (recovery_summary (earlier @ map ?line (telemetry_log s))) ''pagination_invoked'' = Some (JBool (pagination_invoked l))"
    by (simp_all only: T_def)
qed

lemma finite_recovered: "finite (recovered_event_ids l)"
  by (simp add: recovered_event_ids_def)

section \<open>A run in which everything works\<close>

text \<open>The lines of the sample are single letters, and for the responses strings of \<open>x\<close>.\<close>

definition sample_response :: "nat \<Rightarrow> json" where
  "sample_response n = JObj [(''action'', JStr ''responded''), (''sequence_id'', count_json n)]"

definition sample_ids :: "string list" where
  "sample_ids = map sample_name [1..100]"

definition sample_recovery_loads :: "string \<Rightarrow> json option" where
  "sample_recovery_loads l = Some (
     if l = ''c'' then JObj [(''action'', JStr ''connected''), (''agent_mxid'', JStr AGENT)]
     else if l = ''k'' then JObj [(''action'', JStr ''checkpoint_loaded''), (''resumed_from_checkpoint'', JBool True)]
     else if l = ''r'' then JObj [(''action'', JStr ''recovery_complete''), (''recovered_event_ids'', text_list sample_ids),
       (''pagination_invoked'', JBool True)]
     else if l = ''s'' then JObj [(''action'', JStr ''post_restart_sync''), (''timeline_limited'', JBool True)]
     else if l = ''f'' then JObj [(''action'', JStr ''recovery_processing_complete''), (''logically_processed'', num 100)]
     else sample_response (length l))"

definition sample_interruption :: "unit world" where
  "sample_interruption = sample_experiment\<lparr>w_loads := sample_recovery_loads, w_agent_lines := (\<lambda>_. Some
     ([''c'', ''k'', ''r'', ''s'', ''f''] @ map (\<lambda>n. replicate n (CHR ''x'')) [1..<101]))\<rparr>"

lemma sample_recovery_telemetry:
  "agent_telemetry sample_interruption w = map (the \<circ> sample_recovery_loads) [''c'', ''k'', ''r'', ''s'', ''f''] @ map sample_response [1..<101]"
proof -
  have x: "strip (replicate n (CHR ''x'')) = replicate n (CHR ''x'')" for n
  proof -
    have "dropWhile is_space (replicate n (CHR ''x'')) = replicate n (CHR ''x'')"
      by (cases n) (simp_all add: is_space_def)
    then show ?thesis by (simp add: strip_def lstrip_def rstrip_def)
  qed
  have one: "strip ''c'' = ''c''" "strip ''k'' = ''k''" "strip ''r'' = ''r''" "strip ''s'' = ''s''" "strip ''f'' = ''f''" by code_simp+
  have load: "sample_recovery_loads (replicate n (CHR ''x'')) = Some (sample_response n)" for n
  proof -
    have "replicate n (CHR ''x'') \<noteq> [c]" if "c \<noteq> CHR ''x''" for c :: char
      using that by (cases n) auto
    then show ?thesis by (simp add: sample_recovery_loads_def)
  qed
  have "List.map_filter sample_recovery_loads (filter (\<lambda>l. l \<noteq> []) (map strip (map (\<lambda>n. replicate n (CHR ''x'')) ns))) =
      map sample_response ns" if "\<forall>n \<in> set ns. n \<noteq> 0" for ns
    using that by (induction ns) (simp_all add: x load map_filter_simps)
  from this [of "[1..<101]"] show ?thesis
    by (simp add: agent_telemetry_def read_jsonl_def sample_interruption_def sample_experiment_def one map_filter_simps
      map_filter_append sample_recovery_loads_def del: upt_rec_numeral upt_Suc)
qed

lemma filter_responses: "filter (has_action a) (map sample_response ns) = (if a = ''responded'' then map sample_response ns else [])"
  by (induction ns) (simp_all add: has_action_def sample_response_def obj_get_def)

lemma sample_recovery_facts:
  defines "T \<equiv> agent_telemetry sample_interruption ()"
  shows "agent_identity str T latest = AGENT" "checkpoint_resumed T"
    "responded_sequences T = map count_json [1..<101]"
    "map_of (recovery_summary T) ''recovered_event_ids'' = Some (text_list sample_ids)"
    "map_of (recovery_summary T) ''pagination_invoked'' = Some (JBool True)"
    "map_of (recovery_summary T) ''sync_limited'' = Some (JBool True)"
    "map_of (recovery_summary T) ''logically_processed'' = Some (num 100)"
proof -
  have "T = map (the \<circ> sample_recovery_loads) [''c'', ''k'', ''r'', ''s'', ''f''] @ map sample_response [1..<101]"
    unfolding T_def by (rule sample_recovery_telemetry)
  then have f: "filter (has_action a) T = filter (has_action a) (map (the \<circ> sample_recovery_loads) [''c'', ''k'', ''r'', ''s'', ''f'']) @
      (if a = ''responded'' then map sample_response [1..<101] else [])" for a
    by (simp only: filter_append filter_responses)
  show "agent_identity str T latest = AGENT" "checkpoint_resumed T" "responded_sequences T = map count_json [1..<101]"
    "map_of (recovery_summary T) ''recovered_event_ids'' = Some (text_list sample_ids)"
    "map_of (recovery_summary T) ''pagination_invoked'' = Some (JBool True)"
    "map_of (recovery_summary T) ''sync_limited'' = Some (JBool True)"
    "map_of (recovery_summary T) ''logically_processed'' = Some (num 100)"
    by (simp_all add: agent_identity_def checkpoint_resumed_def responded_sequences_def responded_records_def recovery_summary_def
      Let_def f sample_recovery_loads_def has_action_def obj_get_def get_default_def py_str_def value_of_def obj_items_def
      sample_response_def comp_def del: upt_rec_numeral upt_Suc)
qed

lemma small_offline_record:
  assumes "sequence_id c \<le> 4000"
  shows "\<exists>r. offline_record room c it = Inr r"
proof -
  obtain r where "plain_record FEDERATED_TOPOLOGY ''offline'' ''offline_send'' room HUMAN_A ''federated_agent'' c it OFFLINE_SEND = Inr r"
    using small_plain_record [OF assms] by blast
  then show ?thesis by (simp add: offline_record_def)
qed

lemma small_restart_record:
  assumes "sequence_id c \<le> 4000"
  shows "\<exists>r. restart_record room restart c it = Inr r"
proof -
  obtain r where "plain_record FEDERATED_TOPOLOGY ''post_restart'' ''offline_send'' room HUMAN_A ''federated_agent'' c it
      (restart_outcome it) = Inr r"
    using small_plain_record [OF assms] by blast
  then show ?thesis by (simp add: restart_record_def)
qed

lemma sample_sends:
  assumes "0 \<le> q" "q + int n \<le> 4000"
  shows "\<exists>s'. send_each sample_interruption ''r1'' room n q s () = (Inr s', ()) \<and> os_failures s' = os_failures s \<and>
    os_event_ids s' = os_event_ids s \<union> sample_name ` {q..<q + int n} \<and> length (os_correlations s') = length (os_correlations s) + n \<and>
    (list_all (\<lambda>c. sequence_id c \<le> 4000) (os_correlations s) \<longrightarrow> list_all (\<lambda>c. sequence_id c \<le> 4000) (os_correlations s'))"
  using assms
proof (induction n arbitrary: q s)
  case (Suc n)
  let ?c = "\<lparr>experiment_name = ''E2'', run_id = ''r1'', sequence_id = q\<rparr>"
  have "check_token ''E2'' = Inr ''E2''" "check_token ''r1'' = Inr ''r1''" by code_simp+
  then have c: "make_correlation ''E2'' ''r1'' q = Inr ?c" using Suc.prems by (simp add: make_correlation_def)
  obtain r where r: "offline_record room ?c (sample_answer ?c) = Inr r"
    using small_offline_record [of ?c] Suc.prems(2) by auto
  let ?s = "s\<lparr>os_correlations := os_correlations s @ [?c], os_event_ids := add_id (Some (sample_name q)) (os_event_ids s),
    os_stream := os_stream s @ [runner_record_json r]\<rparr>"
  have send: "w_send_offline sample_interruption who c' () = (Inr (sample_answer c'), ())" for who c'
    by (simp add: sample_interruption_def sample_experiment_def give_def)
  have ids: "add_id (Some (sample_name q)) (os_event_ids s) = insert (sample_name q) (os_event_ids s)"
    by (simp add: add_id_def sample_name_def)
  have "{q..<q + int (Suc n)} = insert q {q + 1..<q + 1 + int n}" by auto
  moreover obtain s' where s': "send_each sample_interruption ''r1'' room n (q + 1) ?s () = (Inr s', ())"
    "os_failures s' = os_failures s" "os_event_ids s' = os_event_ids ?s \<union> sample_name ` {q + 1..<q + 1 + int n}"
    "length (os_correlations s') = length (os_correlations ?s) + n"
    "list_all (\<lambda>c. sequence_id c \<le> 4000) (os_correlations ?s) \<longrightarrow> list_all (\<lambda>c. sequence_id c \<le> 4000) (os_correlations s')"
    using Suc.IH [of "q + 1" ?s] Suc.prems by auto
  moreover have "send_each sample_interruption ''r1'' room (Suc n) q s () = (Inr s', ())"
    using s'(1) by (simp add: act_bind_def passes_def or_fail_def c send r Let_def)
  ultimately show ?case using Suc.prems by (intro exI [of _ s']) (auto simp: ids)
qed (simp add: give_def)

lemma sample_restart_records:
  assumes "list_all (\<lambda>c. sequence_id c \<le> 4000) cs"
  shows "\<exists>rs. restart_records sample_interruption room restart cs w = (Inr rs, w)"
proof -
  have "w_interaction sample_interruption who c w = Some (sample_answer c)" for who c
    by (simp add: sample_interruption_def sample_experiment_def)
  moreover have "\<exists>rs. sequence (map (\<lambda>c. rbind (restart_record room restart c (sample_answer c)) (\<lambda>r. Inr [runner_record_json r])) cs) = Inr rs"
    using assms
  proof (induction cs)
    case (Cons c cs)
    have "sequence_id c \<le> 4000" using Cons.prems by simp
    then obtain r where "restart_record room restart c (sample_answer c) = Inr r"
      using small_restart_record by blast
    with Cons show ?case by auto
  qed simp
  ultimately show ?thesis by (auto simp: restart_records_def or_fail_def)
qed

lemma card_sample_ids: "card (sample_name ` {1..100}) = 100"
proof -
  have "inj_on sample_name {1..100}" by (rule inj_onI) (auto simp: sample_name_def)
  then show ?thesis by (simp add: card_image)
qed

lemma interruption_steps [simp]:
  "w_start sample_interruption who w = (Inr (), w)" "w_create_room sample_interruption who is w = (Inr ''!r'', w)"
  "configuration sample_interruption who room w = (Inr (ROOM_VERSION, False), w)"
  "w_join sample_interruption who room w = (Inr (), w)" "w_agent_start sample_interruption w = (Inr (), w)"
  "w_agent_stop sample_interruption w = (Inr (), w)" "w_members sample_interruption who room w = (Inr [HUMAN_A, AGENT_LOCAL], w)"
  "pause sample_interruption secs w = (Inr (), w)" "w_cleanup sample_interruption w = w"
  "w_duplicates sample_interruption who w = 0" "read_clock sample_interruption w = (Inr 7, w)"
  "homeservers_healthy sample_interruption room w = (Inr True, w)"
  "w_await_acks sample_interruption who cs d w = (Inr (length cs), w)"
  by (simp_all add: sample_interruption_def sample_experiment_def give_def configuration_def act_bind_def passes_def
    assert_frozen_room_configuration_def pause_def read_clock_def homeservers_healthy_def)

lemma sample_interruption_run:
  obtains r where "e2_procedure sample_interruption ''r1'' [] () = (Inr r, ())" "e2_sent_event_ids r = sample_name ` {1..100}"
    "e2_recovery r = recovery_summary (agent_telemetry sample_interruption ())" "e2_identity_before r = AGENT"
    "e2_identity_after r = AGENT" "e2_checkpoint_resumed r" "e2_ack_count r = 100" "e2_duplicate_acks r = 0"
proof -
  define s0 where "s0 = \<lparr>os_correlations = [], os_event_ids = {}, os_failures = [], os_stream =
         [e2_marker ''r1'' ''agent_runtime_stopped'' [(''room_id'', JStr ''!r''), (''monotonic_ns'', num 7),
            (''note'', JStr ''homeserver infrastructure remains running'')],
          e2_marker ''r1'' ''infrastructure_check'' [(''homeservers_responsive_while_agent_absent'', JBool True)]]\<rparr>"
  from sample_sends [of 1 100 "''!r''" s0] obtain s' where
    s': "send_each sample_interruption ''r1'' ''!r'' 100 1 s0 () = (Inr s', ())" "os_failures s' = []"
      "os_event_ids s' = sample_name ` {1..<101}" "length (os_correlations s') = 100"
      "list_all (\<lambda>c. sequence_id c \<le> 4000) (os_correlations s')" by (auto simp: s0_def)
  obtain rs where rs: "restart_records sample_interruption ''!r'' 7 (os_correlations s') () = (Inr rs, ())"
    using sample_restart_records [OF s'(5)] by blast
  have ids: "{1..<101::int} = {1..100}" by auto
  show ?thesis
    by (rule that [of "\<lparr>e2_run_id = ''r1'', e2_started_at = [], e2_room_id = ''!r'', e2_room_version = ROOM_VERSION,
         e2_encryption_enabled = False, e2_sent_event_ids = os_event_ids s', e2_send_failures = os_failures s',
         e2_identity_before = AGENT, e2_identity_after = AGENT,
         e2_checkpoint_resumed = True, e2_membership = [HUMAN_A, AGENT_LOCAL], e2_ack_count = 100,
         e2_duplicate_acks = 0, e2_recovery = recovery_summary (agent_telemetry sample_interruption ()), e2_passed = False, e2_reasons = [],
         e2_stream = os_stream s' @ [e2_marker ''r1'' ''agent_restart_and_recovery_begins'' [(''monotonic_ns'', num 7),
           (''note'', JStr ''offline-send response deadline starts here'')]] @ rs\<rparr>"])
      (use s' rs in \<open>simp_all add: e2_procedure_def act_bind_def give_def read_telemetry_def sample_recovery_facts
        E2_OFFLINE_REQUESTS_def s0_def [symmetric] ids\<close>)
qed

section \<open>Properties\<close>

text \<open>
  C31: The verdict of an interruption run is the contract of the experiment. A run that
  finishes passes exactly when the hundred offline sends gave a hundred different event ids,
  the recovery found exactly those, the agent came back as itself and from its checkpoint,
  its sync was limited and it paginated, it processed a hundred requests, and its telemetry
  holds exactly a hundred responses, to different sequence numbers; and the sender saw a
  hundred ACKs and no duplicate. The criteria on failed sends and on the room never decide.
\<close>

theorem recovery_run_exact:
  assumes "e2_execute wd rid started w = (Inr r, w')"
  shows "\<exists>telemetry. e2_recovery r = recovery_summary telemetry \<and>
    card (e2_sent_event_ids r) + length (e2_send_failures r) \<le> 100 \<and>
    (e2_passed r \<longleftrightarrow> card (e2_sent_event_ids r) = 100 \<and> e2_recovered r = Inr (e2_sent_event_ids r) \<and>
       e2_identity_before r \<noteq> [] \<and> e2_identity_after r = e2_identity_before r \<and> e2_checkpoint_resumed r \<and>
       json_true (map_of (e2_recovery r) ''sync_limited'') \<and> json_true (map_of (e2_recovery r) ''pagination_invoked'') \<and>
       \<not> differs (e2_recovery r) ''logically_processed'' 100 \<and>
       length (responded_sequences telemetry) = 100 \<and> distinct (responded_sequences telemetry) \<and>
       (\<forall>v \<in> set (responded_sequences telemetry). v \<noteq> JNull) \<and>
       e2_ack_count r = 100 \<and> e2_duplicate_acks r = 0)"
proof -
  obtain r0 w0 where r0: "e2_procedure wd rid started w = (Inr r0, w0)" and ev: "e2_evaluate r0 = Inr r"
    using assms by (rule e2_execute_Inr)
  from e2_procedure_Inr [OF r0] obtain telemetry where rec: "e2_recovery r0 = recovery_summary telemetry"
    and fin: "finite (e2_sent_event_ids r0)"
    and le: "card (e2_sent_event_ids r0) + length (e2_send_failures r0) \<le> 100"
    and room: "e2_room_version r0 = ROOM_VERSION" "\<not> e2_encryption_enabled r0" by (auto simp: E2_OFFLINE_REQUESTS_def)
  from ev obtain found where found: "e2_recovered r0 = Inr found"
    and r: "r = r0\<lparr>e2_reasons := e2_criteria r0 found, e2_passed := (e2_criteria r0 found = [])\<rparr>"
    by (auto simp: e2_evaluate_def rbind_eq_Inr Let_def)
  have responded: "differs (e2_recovery r0) ''responded_count'' 100 \<longleftrightarrow> length (responded_sequences telemetry) \<noteq> 100"
      "differs (e2_recovery r0) ''distinct_responded_sequences'' 100 \<longleftrightarrow> distinct_sequences telemetry \<noteq> 100"
    using recovery_summary_counts by (simp_all add: differs_nat rec)
  have sets: "e2_missing r0 found = {} \<and> e2_unexpected r0 found = {} \<longleftrightarrow> found = e2_sent_event_ids r0"
    by (auto simp: e2_missing_def e2_unexpected_def)
  have none_failed: "card (e2_sent_event_ids r0) = 100 \<longrightarrow> e2_send_failures r0 = []" using le by auto
  have "e2_criteria r0 found = [] \<longleftrightarrow> card (e2_sent_event_ids r0) = 100 \<and> found = e2_sent_event_ids r0 \<and>
       e2_identity_before r0 \<noteq> [] \<and> e2_identity_after r0 = e2_identity_before r0 \<and> e2_checkpoint_resumed r0 \<and>
       json_true (map_of (e2_recovery r0) ''sync_limited'') \<and> json_true (map_of (e2_recovery r0) ''pagination_invoked'') \<and>
       \<not> differs (e2_recovery r0) ''logically_processed'' 100 \<and>
       (length (responded_sequences telemetry) = 100 \<and> distinct_sequences telemetry = 100) \<and>
       e2_ack_count r0 = 100 \<and> e2_duplicate_acks r0 = 0"
    using none_failed room sets unfolding e2_criteria_def Let_def E2_OFFLINE_REQUESTS_def ROOM_VERSION_def
    by (auto simp: responded)
  also have "length (responded_sequences telemetry) = 100 \<and> distinct_sequences telemetry = 100 \<longleftrightarrow>
      length (responded_sequences telemetry) = 100 \<and> distinct (responded_sequences telemetry) \<and>
      (\<forall>v \<in> set (responded_sequences telemetry). v \<noteq> JNull)"
    unfolding distinct_sequences_def by (rule distinct_all)
  finally show ?thesis
    using rec le found by (intro exI [of _ telemetry]) (simp add: r e2_recovered_def)
qed

theorem recovery_run_exact_witness:
  "\<exists>r. e2_execute sample_interruption ''r1'' [] () = (Inr r, ()) \<and> e2_passed r \<and> card (e2_sent_event_ids r) = 100"
proof -
  obtain r0 where r0: "e2_procedure sample_interruption ''r1'' [] () = (Inr r0, ())" "e2_sent_event_ids r0 = sample_name ` {1..100}"
    "e2_recovery r0 = recovery_summary (agent_telemetry sample_interruption ())" "e2_identity_before r0 = AGENT"
    "e2_identity_after r0 = AGENT" "e2_checkpoint_resumed r0" "e2_ack_count r0 = 100" "e2_duplicate_acks r0 = 0"
    by (rule sample_interruption_run)
  have found: "e2_recovered r0 = Inr (sample_name ` {1..100})"
    unfolding e2_recovered_def r0(3) by (subst id_set_texts [OF sample_recovery_facts(4)]) (simp add: sample_ids_def)
  then obtain r where r: "e2_evaluate r0 = Inr r" "e2_sent_event_ids r = e2_sent_event_ids r0" "e2_recovery r = e2_recovery r0"
    "e2_recovered r = e2_recovered r0" "e2_identity_before r = e2_identity_before r0" "e2_identity_after r = e2_identity_after r0"
    "e2_checkpoint_resumed r = e2_checkpoint_resumed r0" "e2_ack_count r = e2_ack_count r0" "e2_duplicate_acks r = e2_duplicate_acks r0"
    by (auto simp: e2_evaluate_def e2_recovered_def)
  have run: "e2_execute sample_interruption ''r1'' [] () = (Inr r, ())"
    by (simp add: e2_execute_def act_bind_def finally_clean_def r0(1) or_raise_def r(1))
  have responded: "responded_sequences (agent_telemetry sample_interruption ()) = map count_json [1..<101]"
    by (rule sample_recovery_facts)
  from recovery_run_exact [OF run] obtain telemetry where T: "e2_recovery r = recovery_summary telemetry"
    and passed: "e2_passed r \<longleftrightarrow> card (e2_sent_event_ids r) = 100 \<and> e2_recovered r = Inr (e2_sent_event_ids r) \<and>
       e2_identity_before r \<noteq> [] \<and> e2_identity_after r = e2_identity_before r \<and> e2_checkpoint_resumed r \<and>
       json_true (map_of (e2_recovery r) ''sync_limited'') \<and> json_true (map_of (e2_recovery r) ''pagination_invoked'') \<and>
       \<not> differs (e2_recovery r) ''logically_processed'' 100 \<and>
       length (responded_sequences telemetry) = 100 \<and> distinct (responded_sequences telemetry) \<and>
       (\<forall>v \<in> set (responded_sequences telemetry). v \<noteq> JNull) \<and> e2_ack_count r = 100 \<and> e2_duplicate_acks r = 0"
    by (elim exE conjE) (rule that)
  have counts: "length (responded_sequences telemetry) = 100" "distinct_sequences telemetry = 100"
  proof -
    let ?S = "agent_telemetry sample_interruption ()"
    have same: "recovery_summary telemetry = recovery_summary ?S" using T r(3) r0(3) by simp
    have dist: "distinct (map count_json [1..<101])" 
      by (simp add: distinct_map inj_on_def count_json_def num_def del: upt_rec_numeral upt_Suc)
    then have "distinct_sequences ?S = 100"
      unfolding distinct_sequences_def responded by (simp add: filter_map comp_def count_json_def num_def distinct_remdups_id
        del: upt_rec_numeral upt_Suc)
    moreover have "length (responded_sequences ?S) = 100" by (simp add: responded del: upt_rec_numeral upt_Suc)
    moreover have "nat_json (length (responded_sequences telemetry)) = nat_json (length (responded_sequences ?S))"
      "nat_json (distinct_sequences telemetry) = nat_json (distinct_sequences ?S)"
      using recovery_summary_counts [of telemetry] recovery_summary_counts [of ?S] same by simp_all
    ultimately show "length (responded_sequences telemetry) = 100" "distinct_sequences telemetry = 100"
      by (simp_all add: nat_json_def num_def)
  qed
  then have "length (responded_sequences telemetry) = 100 \<and> distinct (responded_sequences telemetry) \<and>
      (\<forall>v \<in> set (responded_sequences telemetry). v \<noteq> JNull)"
    using distinct_all [of "responded_sequences telemetry" 100 "\<lambda>v. v \<noteq> JNull"] by (simp add: distinct_sequences_def)
  then have "e2_passed r"
    unfolding passed using r r0 found card_sample_ids sample_recovery_facts(4-7)
    by (simp add: differs_def value_of_def num_def AGENT_def)
  with run card_sample_ids r(2) r0(2) show ?thesis by auto
qed

text \<open>
  C32: What an interruption run is judged by is what the agent's ledger holds. For an agent
  restarted from a checkpoint with a token, whatever it meets in its sync rounds, the summary
  read off the telemetry file, with whatever earlier lives left in it, names exactly the
  events of the ledger; it counts them all as processed, each having been handled; and it
  reports the ledger's own word on a limited sync and on pagination.
\<close>

theorem ledger_reaches_verdict:
  assumes "serve cfg env hs login who probe srvs (p, new_agent (Some ck)) = ((p', s'), None)"
    and "truthy (ck_sync_token ck)"
  shows "let d = recovery_summary (earlier @ map (telemetry_line str say cfg) (telemetry_log s')); l = agent_ledger s' in
    id_set d ''recovered_event_ids'' = Inr (recovered_event_ids l) \<and> processed l = recovered_event_ids l \<and>
    (differs d ''logically_processed'' n \<longleftrightarrow> int (card (recovered_event_ids l)) \<noteq> n) \<and>
    (json_true (map_of d ''sync_limited'') \<longleftrightarrow> limited_timeline l) \<and>
    (json_true (map_of d ''pagination_invoked'') \<longleftrightarrow> pagination_invoked l)"
proof -
  let ?d = "recovery_summary (earlier @ map (telemetry_line str say cfg) (telemetry_log s'))"
  from serve_told [OF assms] have told: "recovery_told (agent_ledger s') s'"
    and all: "processed (agent_ledger s') = recovered_event_ids (agent_ledger s')" by simp_all
  note report = recovery_summary_of_report [OF told, of earlier str say cfg]
  have "id_set ?d ''recovered_event_ids'' = Inr (recovered_event_ids (agent_ledger s'))"
    using id_set_texts [OF report(1)] finite_recovered by simp
  moreover have "differs ?d ''logically_processed'' n \<longleftrightarrow> int (card (recovered_event_ids (agent_ledger s'))) \<noteq> n"
    using report(2) all by (intro differs_nat) (simp add: count_json_def nat_json_def ledger_processed_count_def)
  ultimately show ?thesis using report(3,4) all by (simp add: Let_def)
qed

theorem ledger_reaches_verdict_witness:
  "\<exists>p s. second_life = ((p, s), None) \<and>
     id_set (recovery_summary (map (telemetry_line (\<lambda>_. []) JStr example_config) (telemetry_log s))) ''recovered_event_ids'' = Inr {''$1''}"
proof -
  obtain p s where run: "second_life = ((p, s), None)" and obs: "map fst (observations (agent_ledger s)) = [''$1'']"
    using second_life_ends by (cases second_life) auto
  have "truthy (ck_sync_token request_checkpoint)" by (simp add: request_checkpoint_def)
  from ledger_reaches_verdict [OF run this, of "[]" "\<lambda>_. []" JStr 1]
  have "id_set (recovery_summary (map (telemetry_line (\<lambda>_. []) JStr example_config) (telemetry_log s))) ''recovered_event_ids'' =
    Inr (recovered_event_ids (agent_ledger s))" by (simp add: Let_def)
  moreover have "recovered_event_ids (agent_ledger s) = {''$1''}"
    using arg_cong [OF obs, of set] by (simp add: recovered_event_ids_def)
  ultimately show ?thesis using run by (metis (no_types, lifting))
qed

end
