(* ===== verification/Spec2Isabelle.thy ===== *)
theory Spec2Isabelle
  imports Crash_Safe Federation Llm Evidence_Audit Interruption
begin

text \<open>
  A verification library for the federated agent messaging testbed: an agent that answers
  requests in Matrix rooms of two federated homeservers, the instruments that measure it,
  and the scripts that judge the measurements. Paths below are relative to the repository;
  a module without a directory prefix is under \<^verbatim>\<open>src/fam\<close>.

  \<^bold>\<open>The program.\<close> An agent process (\<^verbatim>\<open>agent/runtime.py\<close>) logs in through a Matrix participant
  (\<^verbatim>\<open>matrix/client.py\<close>), recovers what it missed since its saved checkpoint, and then follows
  the sync loop of the participant. A room event becomes a request by its protocol
  (\<^verbatim>\<open>agent/protocol.py\<close>, over the FAM/1 bodies of \<^verbatim>\<open>common/message.py\<close>), is let through
  once by the registry (\<^verbatim>\<open>common/dedup.py\<close>) and answered by an executor
  (\<^verbatim>\<open>executors/\<close>). A human participant (\<^verbatim>\<open>participants/human.py\<close>) sends requests and waits
  for their ACKs; the benchmark engine and runner (\<^verbatim>\<open>benchmark/\<close>) drive it under a schedule,
  and write raw streams and manifests (\<^verbatim>\<open>instrumentation/\<close>). The experiments
  (\<^verbatim>\<open>experiments/\<close>) run these parts for a functional verdict. The analysis
  (\<^verbatim>\<open>analysis/\<close>, \<^verbatim>\<open>scripts/analyse.py\<close>) and the audit (\<^verbatim>\<open>scripts/final_audit.py\<close>) read the
  evidence back; the protocol lock (\<^verbatim>\<open>common/lock.py\<close>, \<^verbatim>\<open>scripts/protocol_lock.py\<close>) says which
  parameters a formal run must have had.
\<close>

text \<open>
  \<^bold>\<open>Theories and files.\<close>

  \<^item> \<open>Prelude\<close>, \<open>Py_Text\<close>, \<open>Py_Float\<close>: exceptions and results, dictionaries in insertion
    order, Python's strings and integers as text, and its doubles where rounding decides.
    \<open>Frozen\<close>: \<^verbatim>\<open>common/frozen.py\<close>. \<open>Json\<close>: JSON values and \<^verbatim>\<open>common/digests.py\<close>.
  \<^item> \<open>Message\<close>: \<^verbatim>\<open>common/message.py\<close>. \<open>Dedup\<close>: \<^verbatim>\<open>common/dedup.py\<close>. \<open>Recovery\<close>:
    \<^verbatim>\<open>agent/recovery.py\<close>. \<open>Protocol\<close>: \<^verbatim>\<open>agent/protocol.py\<close>, \<^verbatim>\<open>executors/base.py\<close>,
    \<^verbatim>\<open>executors/deterministic.py\<close>. \<open>Privilege\<close>: \<^verbatim>\<open>common/privilege.py\<close>.
  \<^item> \<open>Client\<close>, \<open>Sync_Loop\<close>: \<^verbatim>\<open>matrix/client.py\<close>. \<open>Runtime\<close>: \<^verbatim>\<open>agent/runtime.py\<close>, with
    \<open>Agent_Correct\<close> and \<open>Crash_Safe\<close> for what it guarantees in one life and over many.
    \<open>Agent_Stream\<close>: the telemetry lines it writes. \<open>Llm\<close>: \<^verbatim>\<open>executors/llm.py\<close>.
  \<^item> \<open>Human\<close>, \<open>Human_Objects\<close>: \<^verbatim>\<open>participants/human.py\<close>. \<open>Engine\<close>: \<^verbatim>\<open>benchmark/engine.py\<close>.
    \<open>Validity\<close>: \<^verbatim>\<open>common/validity.py\<close>. \<open>Streams\<close>: \<^verbatim>\<open>instrumentation/streams.py\<close>.
    \<open>Manifest\<close>: \<^verbatim>\<open>instrumentation/manifest.py\<close>. \<open>Schedule\<close>: \<^verbatim>\<open>benchmark/schedule.py\<close>.
    \<open>Runner\<close>: \<^verbatim>\<open>benchmark/runner.py\<close>, \<^verbatim>\<open>benchmark/topology.py\<close>. \<open>Schemas\<close>: the schemas of
    \<^verbatim>\<open>results/schemas\<close> for raw records and manifests.
  \<^item> \<open>Federation\<close>: \<^verbatim>\<open>common/domain_view.py\<close>, \<^verbatim>\<open>matrix/rooms.py\<close>,
    \<^verbatim>\<open>instrumentation/federation.py\<close>. \<open>Accounts\<close>: \<^verbatim>\<open>common/env.py\<close>, \<^verbatim>\<open>common/results.py\<close>.
    \<open>Lock\<close>: \<^verbatim>\<open>common/lock.py\<close>. \<open>Lock_Gen\<close>: \<^verbatim>\<open>scripts/protocol_lock.py\<close>.
  \<^item> \<open>E3_Runs\<close>, \<open>E3_Report\<close>: \<^verbatim>\<open>analysis/e3.py\<close>. \<open>Integrity\<close>: \<^verbatim>\<open>analysis/integrity.py\<close>.
    \<open>E3_Evidence\<close>: engine and analysis together. \<open>Pipeline\<close>: \<^verbatim>\<open>scripts/verify_digests.py\<close>,
    \<^verbatim>\<open>scripts/analyse.py\<close>. \<open>Final_Audit\<close>, \<open>Audit_Campaign\<close>: \<^verbatim>\<open>scripts/final_audit.py\<close>;
    \<open>Evidence_Audit\<close>: engine and audit together.
  \<^item> \<open>Experiments\<close>: \<^verbatim>\<open>experiments/e0_baseline.py\<close>, \<^verbatim>\<open>experiments/e1_federation.py\<close>.
    \<open>Interruption\<close>: \<^verbatim>\<open>experiments/e2_recovery.py\<close>.

  \<^bold>\<open>How state and operations correspond.\<close> A class with attributes is a record, an
  enumeration a datatype, a method a function from the state to its result and the new
  state. Definitions keep the names of the source; where a field name would clash, it has a
  prefix (\<open>it_\<close> for interactions, \<open>rr_\<close> for raw records, \<open>e0_\<close> to \<open>e2_\<close> for
  the experiments). An exception is the left side of a sum; an operation that changes state
  before it raises returns the state beside the exception. The agent's state is what
  \<open>AgentRuntime\<close> holds plus its effects in order. Interactions, which coroutines share, are
  named by their place in the participant's list. Coroutines that interleave are the step
  relations \<open>human_step\<close> and \<open>slot_step\<close>, a killed process is \<open>killed\<close>.
\<close>

text \<open>
  \<^bold>\<open>Interfaces.\<close> \<open>once_guard\<close> and \<open>named_guard\<close> (theory \<open>Once\<close>) are the contract of every
  "at most once": the registry, the recovery ledger, the merge of a limited timeline with
  its history, the ACKs of an interaction and the ledger of a campaign interpret it.
  \<open>request_protocol\<close> is the Python interface of the same name with both its
  implementations. \<open>object_invariant\<close> gives what holds of every interaction a participant
  can reach; the transaction ids the schema wants and the responses the audit wants are its
  instances.

  \<^bold>\<open>What the lemmas show.\<close>

  \<^item> Text and identity: bodies built parse back; what of a body is read, and where the
    parser raises; hashes of configurations depend on neither secrets nor key order.
  \<^item> Exactly once: registry, ledger and agent process each request at most once, and over any
    chain of killed and restarted lives at least once before the saved position.
  \<^item> Delivery: a reconciliation that returns has closed its gap; the token advances only past
    what was dispatched; a round in which nothing fails commits.
  \<^item> Measurement: the life of an interaction in every interleaving; the accounting of both
    workloads; figures that can be recomputed from the raw records; manifests that agree
    with their streams and satisfy their schemas.
  \<^item> Analysis: which runs are loaded and paired, what the windows balance to, what the
    integrity checks accept, and that a PASS is given only to what was checked.
  \<^item> Verdicts: the baseline, federated and interruption experiments pass exactly on the
    facts of their records and telemetry; the recovery summary is the agent's ledger.
  \<^item> Locks and audits: what the gates accept, that a generated lock is accepted, and what
    the audit's checks amount to.
  \<^item> The LLM executor: one call per request, a classification of every failure, and no
    credential in any note.

  \<^bold>\<open>Bounds and fuel.\<close> Loops of the program that are bounded keep their bound: backwards
  pagination gives up after \<open>MAX_PAGES\<close> (50) pages, the collection of a domain view stops
  at 50 pages of 200 events, the interpreter reads integers of at most 4300 digits, the
  bootstrap takes 2000 replicates, an LLM request carries 4000 characters of its body. The
  sync loop runs over the list of what the homeserver does in each round and the throughput
  loop is a step relation, so neither needs fuel; that the loop drains is shown by a count of
  its steps. There is no machine arithmetic in the program; Python integers are \<^typ>\<open>int\<close>
  and \<^typ>\<open>nat\<close>, and floats are rationals but where \<open>Py_Float\<close> rounds.

  \<^bold>\<open>Not modelled.\<close> What lies outside the repository is an argument: the homeserver and
  matrix-nio, HTTP, SHA-256, the text of JSON, random generators, clocks, git, the validator
  of JSON schemas, the file system. Left out are the control of processes and coroutines,
  signals, argument parsing, printing and the writing of CSV and JSON files; the
  readings of the host (\<^verbatim>\<open>benchmark/host.py\<close>); the drivers \<^verbatim>\<open>experiments/e3_benchmark.py\<close>,
  \<^verbatim>\<open>experiments/e3_readiness.py\<close> and \<^verbatim>\<open>experiments/e4_human_llm.py\<close>; and the other operator
  scripts, which call docker and git or plot. Strings are code points up to U+00FF.
\<close>

end
